theory Spec2Isabelle
  imports Complex_Main "HOL-Library.AList"
begin

section \<open>JavaScript values\<close>

text \<open>
  The server handles values produced by \<^verbatim>\<open>JSON.parse\<close>: null, booleans, numbers, strings,
  arrays and objects. An object is the list of its own properties in property order; a
  JavaScript object never has two properties with the same key. Strings are sequences of
  8-bit code units.

  A finite number is identified with the decimal numeral that \<^verbatim>\<open>Number.prototype.toString\<close>
  prints for it (the shortest decimal that reads back as the same double), taken as a
  rational. Numeric equality of finite numbers is equality of these rationals, so \<open>+0\<close> and
  \<open>-0\<close> are one value and the literals \<^verbatim>\<open>3\<close> and \<^verbatim>\<open>3.0\<close> denote the same number, as they do in
  JavaScript.
\<close>

datatype jsnum = Finite rat | NaN | PosInfinity | NegInfinity

datatype jsval =
    JNull
  | JBool bool
  | JNum jsnum
  | JStr string
  | JArr "jsval list"
  | JObj "(string \<times> jsval) list"

datatype error = TypeError | SyntaxError | Error string | SdkError

text \<open>Truthiness (\<^verbatim>\<open>ToBoolean\<close>), as used by \<^verbatim>\<open>||\<close>, \<^verbatim>\<open>&&\<close> and \<^verbatim>\<open>if\<close>.\<close>

fun truthy :: "jsval \<Rightarrow> bool" where
  "truthy JNull = False"
| "truthy (JBool b) = b"
| "truthy (JNum (Finite q)) = (q \<noteq> 0)"
| "truthy (JNum NaN) = False"
| "truthy (JNum PosInfinity) = True"
| "truthy (JNum NegInfinity) = True"
| "truthy (JStr s) = (s \<noteq> [])"
| "truthy (JArr vs) = True"
| "truthy (JObj kvs) = True"

text \<open>\<^verbatim>\<open>typeof v === "object"\<close> holds for null, arrays and objects.\<close>

fun typeof_object :: "jsval \<Rightarrow> bool" where
  "typeof_object JNull = True"
| "typeof_object (JArr vs) = True"
| "typeof_object (JObj kvs) = True"
| "typeof_object v = False"

text \<open>The values that are arrays (\<^verbatim>\<open>Array.isArray\<close>), and those that are JSON objects.\<close>

fun is_array :: "jsval \<Rightarrow> bool" where
  "is_array (JArr vs) = True"
| "is_array v = False"

fun is_object :: "jsval \<Rightarrow> bool" where
  "is_object (JObj kvs) = True"
| "is_object v = False"

text \<open>Errors are values: the first failing step of a sequence decides the result.\<close>

fun sequence :: "(error + 'a) list \<Rightarrow> error + 'a list" where
  "sequence [] = Inr []"
| "sequence (Inl e # rs) = Inl e"
| "sequence (Inr x # rs) = (case sequence rs of Inl e \<Rightarrow> Inl e | Inr xs \<Rightarrow> Inr (x # xs))"

subsection \<open>Decimal numerals\<close>

definition digit_char :: "nat \<Rightarrow> char" where
  "digit_char d = ''0123456789'' ! d"

fun show_nat :: "nat \<Rightarrow> string" where
  "show_nat n = (if n < 10 then [digit_char n] else show_nat (n div 10) @ [digit_char (n mod 10)])"

declare show_nat.simps [simp del]

text \<open>The value of a digit character in radixes up to 36 (\<^verbatim>\<open>0-9\<close>, \<^verbatim>\<open>a-z\<close>, \<^verbatim>\<open>A-Z\<close>).\<close>

definition digit_value :: "char \<Rightarrow> nat option" where
  "digit_value c =
     (let n = (of_char c :: nat) in
      if 48 \<le> n \<and> n \<le> 57 then Some (n - 48)
      else if 97 \<le> n \<and> n \<le> 122 then Some (n - 87)
      else if 65 \<le> n \<and> n \<le> 90 then Some (n - 55)
      else None)"

definition is_radix_digit :: "nat \<Rightarrow> char \<Rightarrow> bool" where
  "is_radix_digit R c = (case digit_value c of Some d \<Rightarrow> d < R | None \<Rightarrow> False)"

fun digits_value :: "nat \<Rightarrow> nat \<Rightarrow> string \<Rightarrow> nat" where
  "digits_value R acc [] = acc"
| "digits_value R acc (c # cs) = digits_value R (acc * R + (case digit_value c of Some d \<Rightarrow> d | None \<Rightarrow> 0)) cs"

subsection \<open>Doubles that are integers\<close>

text \<open>
  \<open>round_double m\<close> is the double nearest to the non-negative integer \<open>m\<close> (53 significant
  bits, ties to even), before the overflow to Infinity at \<open>2 ^ 1024\<close>.
\<close>

fun bit_length :: "nat \<Rightarrow> nat" where
  "bit_length n = (if n = 0 then 0 else Suc (bit_length (n div 2)))"

declare bit_length.simps [simp del]

definition round_double :: "nat \<Rightarrow> nat" where
  "round_double m =
     (let u = 2 ^ (bit_length m - 53); q = m div u; r = m mod u in
      if u < 2 * r \<or> (u = 2 * r \<and> odd q) then (q + 1) * u else q * u)"

text \<open>
  \<open>shortest_decimal x\<close> is the integer \<open>s * 10 ^ (n - k)\<close> of \<^verbatim>\<open>Number::toString\<close> for an
  integer double \<open>x\<close>: among the integers that round to \<open>x\<close>, one with the fewest
  significant digits, the closest to \<open>x\<close> among those, the one with even \<open>s\<close> on a tie.
\<close>

fun shortest_from :: "nat \<Rightarrow> nat \<Rightarrow> nat" where
  "shortest_from x j =
     (if j = 0 then x
      else
        (let p = 10 ^ j; lo = (x div p) * p; hi = lo + p;
             lo_ok = (0 < lo \<and> round_double lo = x); hi_ok = (round_double hi = x)
         in if lo_ok \<and> hi_ok then
              (if x - lo < hi - x then lo
               else if hi - x < x - lo then hi
               else if even (x div p) then lo else hi)
            else if lo_ok then lo
            else if hi_ok then hi
            else shortest_from x (j - 1)))"

declare shortest_from.simps [simp del]

definition shortest_decimal :: "nat \<Rightarrow> nat" where
  "shortest_decimal x = shortest_from x (length (show_nat x))"

text \<open>The number value of the integer \<open>\<plusminus> m\<close>, as \<^verbatim>\<open>parseInt\<close> returns it.\<close>

definition number_of_integer :: "bool \<Rightarrow> nat \<Rightarrow> jsnum" where
  "number_of_integer negative m =
     (let x = round_double m in
      if 2 ^ 1024 \<le> x then (if negative then NegInfinity else PosInfinity)
      else Finite ((if negative then - 1 else 1) * of_nat (shortest_decimal x)))"

subsection \<open>Number.isInteger and Number.prototype.toString\<close>

definition is_integral :: "rat \<Rightarrow> bool" where
  "is_integral q = (snd (quotient_of q) = 1)"

fun Number_isInteger :: "jsnum \<Rightarrow> bool" where
  "Number_isInteger (Finite q) = is_integral q"
| "Number_isInteger x = False"

text \<open>
  \<open>decimal_parts q = (s, e)\<close> with \<open>q = s * 10 ^ e\<close> and \<open>s\<close> not divisible by 10, for a
  positive \<open>q\<close> with a finite decimal expansion (the numeral of a double has at most 17
  significant digits and an exponent above \<open>-400\<close>).
\<close>

fun scale_up :: "nat \<Rightarrow> rat \<Rightarrow> nat \<Rightarrow> rat \<times> nat" where
  "scale_up fuel q t =
     (if fuel = 0 \<or> is_integral q then (q, t) else scale_up (fuel - 1) (q * 10) (t + 1))"

declare scale_up.simps [simp del]

fun strip_zeros :: "nat \<Rightarrow> nat \<Rightarrow> nat \<times> nat" where
  "strip_zeros a z =
     (if 0 < a \<and> a mod 10 = 0 then strip_zeros (a div 10) (z + 1) else (a, z))"

declare strip_zeros.simps [simp del]

definition decimal_parts :: "rat \<Rightarrow> nat \<times> int" where
  "decimal_parts q =
     (case scale_up 400 q 0 of (q', t) \<Rightarrow>
        (case strip_zeros (nat \<lfloor>q'\<rfloor>) 0 of (s, z) \<Rightarrow> (s, int z - int t)))"

text \<open>\<^verbatim>\<open>Number::toString\<close> in radix 10 for a positive finite number.\<close>

definition positive_toString :: "rat \<Rightarrow> string" where
  "positive_toString q =
     (case decimal_parts q of (s, e) \<Rightarrow>
        (let ds = show_nat s; k = int (length ds); n = k + e in
         if k \<le> n \<and> n \<le> 21 then ds @ replicate (nat (n - k)) CHR ''0''
         else if 0 < n \<and> n \<le> 21 then take (nat n) ds @ ''.'' @ drop (nat n) ds
         else if - 6 < n \<and> n \<le> 0 then ''0.'' @ replicate (nat (- n)) CHR ''0'' @ ds
         else
           (let es = (if n - 1 < 0 then ''-'' else ''+'') @ show_nat (nat \<bar>n - 1\<bar>)
            in if k = 1 then ds @ ''e'' @ es
               else take 1 ds @ ''.'' @ drop 1 ds @ ''e'' @ es)))"

fun Number_toString :: "jsnum \<Rightarrow> string" where
  "Number_toString NaN = ''NaN''"
| "Number_toString PosInfinity = ''Infinity''"
| "Number_toString NegInfinity = ''-Infinity''"
| "Number_toString (Finite q) =
     (if q = 0 then ''0''
      else if q < 0 then ''-'' @ positive_toString (- q)
      else positive_toString q)"

subsection \<open>ToString and parseInt\<close>

fun join :: "string \<Rightarrow> string list \<Rightarrow> string" where
  "join sep [] = []"
| "join sep [x] = x"
| "join sep (x # y # ys) = x @ sep @ join sep (y # ys)"

text \<open>
  \<^verbatim>\<open>ToString\<close> of a JSON value. An array prints its elements joined by commas, null as the
  empty string. An object prints as \<^verbatim>\<open>[object Object]\<close> through the inherited
  \<^verbatim>\<open>toString\<close>; an own property of that name is not callable, and the conversion throws.
\<close>

fun ToString :: "jsval \<Rightarrow> error + string" where
  "ToString JNull = Inr ''null''"
| "ToString (JBool b) = Inr (if b then ''true'' else ''false'')"
| "ToString (JNum x) = Inr (Number_toString x)"
| "ToString (JStr s) = Inr s"
| "ToString (JArr vs) =
     (case sequence (map (\<lambda>v. if v = JNull then Inr [] else ToString v) vs) of
        Inl e \<Rightarrow> Inl e
      | Inr ss \<Rightarrow> Inr (join '','' ss))"
| "ToString (JObj kvs) =
     (if map_of kvs ''toString'' \<noteq> None then Inl TypeError else Inr ''[object Object]'')"

definition is_white_space :: "char \<Rightarrow> bool" where
  "is_white_space c = ((of_char c :: nat) \<in> {9, 10, 11, 12, 13, 32, 160})"

text \<open>\<^verbatim>\<open>parseInt(string)\<close> with no radix argument.\<close>

definition parseInt_string :: "string \<Rightarrow> jsnum" where
  "parseInt_string input =
     (let S = dropWhile is_white_space input;
          negative = (take 1 S = ''-'');
          S1 = (if take 1 S = ''+'' \<or> take 1 S = ''-'' then drop 1 S else S);
          hex = (take 2 S1 = ''0x'' \<or> take 2 S1 = ''0X'');
          S2 = (if hex then drop 2 S1 else S1);
          R = (if hex then 16 else 10);
          Z = takeWhile (is_radix_digit R) S2
      in if Z = [] then NaN else number_of_integer negative (digits_value R 0 Z))"

definition parseInt :: "jsval \<Rightarrow> error + jsnum" where
  "parseInt v = (case ToString v of Inl e \<Rightarrow> Inl e | Inr s \<Rightarrow> Inr (parseInt_string s))"

subsection \<open>Properties of objects\<close>

text \<open>
  \<^verbatim>\<open>obj[key] = v\<close> on a plain object: an existing property keeps its place, a new one is
  appended. The key \<^verbatim>\<open>__proto__\<close> reaches the inherited setter and creates no own property.
\<close>

definition set_property :: "(string \<times> 'a) list \<Rightarrow> string \<Rightarrow> 'a \<Rightarrow> (string \<times> 'a) list" where
  "set_property obj key v = (if key = ''__proto__'' then obj else AList.update key v obj)"

definition indexed :: "jsval list \<Rightarrow> (string \<times> jsval) list" where
  "indexed vs = zip (map show_nat [0..<length vs]) vs"

text \<open>\<^verbatim>\<open>Object.entries\<close>: own enumerable properties; null has none to give and throws.\<close>

fun Object_entries :: "jsval \<Rightarrow> error + (string \<times> jsval) list" where
  "Object_entries JNull = Inl TypeError"
| "Object_entries (JObj kvs) = Inr kvs"
| "Object_entries (JArr vs) = Inr (indexed vs)"
| "Object_entries (JStr s) = Inr (indexed (map (\<lambda>c. JStr [c]) s))"
| "Object_entries v = Inr []"

section \<open>The value codec\<close>

subsection \<open>convertToFirestoreFields\<close>

text \<open>
  \<open>field_value\<close> is the chain of tests in the body of the loop of
  \<^verbatim>\<open>convertToFirestoreFields\<close>, \<open>convert_entries\<close> the loop itself with \<open>fields\<close> as
  accumulator. For an array element the source calls itself on \<^verbatim>\<open>{ temp: v }\<close> and reads
  \<^verbatim>\<open>.temp\<close>, which runs the body once on \<open>v\<close>.
\<close>

fun field_value :: "jsval \<Rightarrow> jsval"
  and convert_entries :: "(string \<times> jsval) list \<Rightarrow> (string \<times> jsval) list \<Rightarrow> (string \<times> jsval) list"
  and convert_elements :: "jsval list \<Rightarrow> jsval list" where
  "field_value JNull = JObj [(''nullValue'', JNull)]"
| "field_value (JBool b) = JObj [(''booleanValue'', JBool b)]"
| "field_value (JNum x) =
     (if Number_isInteger x then JObj [(''integerValue'', JStr (Number_toString x))]
      else JObj [(''doubleValue'', JNum x)])"
| "field_value (JStr s) = JObj [(''stringValue'', JStr s)]"
| "field_value (JArr vs) = JObj [(''arrayValue'', JObj [(''values'', JArr (convert_elements vs))])]"
| "field_value (JObj kvs) = JObj [(''mapValue'', JObj [(''fields'', JObj (convert_entries [] kvs))])]"
| "convert_entries fields [] = fields"
| "convert_entries fields ((key, v) # rest) =
     convert_entries (set_property fields key (field_value v)) rest"
| "convert_elements [] = []"
| "convert_elements (v # vs) = field_value v # convert_elements vs"

definition convertToFirestoreFields :: "jsval \<Rightarrow> error + jsval" where
  "convertToFirestoreFields obj =
     (case Object_entries obj of
        Inl e \<Rightarrow> Inl e
      | Inr entries \<Rightarrow> Inr (JObj (convert_entries [] entries)))"

subsection \<open>parseFirestoreValue\<close>

text \<open>
  \<open>map_fields p\<close> is \<^verbatim>\<open>Object.entries(p.fields || {})\<close> for the payload \<open>p\<close> of \<^verbatim>\<open>mapValue\<close>;
  reading a property of null throws.
\<close>

fun map_fields :: "jsval \<Rightarrow> error + (string \<times> jsval) list" where
  "map_fields JNull = Inl TypeError"
| "map_fields (JObj kvs) =
     (case map_of kvs ''fields'' of
        None \<Rightarrow> Inr []
      | Some f \<Rightarrow> if truthy f then Object_entries f else Inr [])"
| "map_fields p = Inr []"

text \<open>
  \<open>array_values p\<close> is \<^verbatim>\<open>p.values || []\<close> for the payload \<open>p\<close> of \<^verbatim>\<open>arrayValue\<close>, as far as
  \<^verbatim>\<open>.map\<close> can be called on it: on an array payload \<^verbatim>\<open>.values\<close> is the inherited iterator
  method, and neither that nor a truthy value that is not an array has a callable \<^verbatim>\<open>map\<close>.
\<close>

fun array_values :: "jsval \<Rightarrow> error + jsval list" where
  "array_values JNull = Inl TypeError"
| "array_values (JArr vs) = Inl TypeError"
| "array_values (JObj kvs) =
     (case map_of kvs ''values'' of
        None \<Rightarrow> Inr []
      | Some a \<Rightarrow>
          if truthy a then (case a of JArr vs \<Rightarrow> Inr vs | _ \<Rightarrow> Inl TypeError) else Inr [])"
| "array_values p = Inr []"

text \<open>The loop \<^verbatim>\<open>obj[k] = parseFirestoreValue(v)\<close>, the decoded values given in order.\<close>

fun assign_all :: "(string \<times> jsval) list \<Rightarrow> (string \<times> (error + jsval)) list \<Rightarrow> error + jsval" where
  "assign_all obj [] = Inr (JObj obj)"
| "assign_all obj ((k, Inl e) # rest) = Inl e"
| "assign_all obj ((k, Inr r) # rest) = assign_all (set_property obj k r) rest"

lemma size_map_of:
  "map_of kvs k = Some v \<Longrightarrow> size v < Suc (size_list (size_prod (\<lambda>x. 0) size) kvs)"
  by (induction kvs) (auto split: if_splits)

lemma size_indexed:
  "(k, w) \<in> set (indexed vs) \<Longrightarrow> size w < Suc (size_list size vs)"
  unfolding indexed_def
  by (auto dest!: set_zip_rightD simp: less_Suc_eq_le size_list_estimation')

lemma size_Object_entries:
  "Object_entries f = Inr es \<Longrightarrow> (k, w) \<in> set es \<Longrightarrow> size w \<le> size f"
proof (cases f)
  case (JArr vs)
  assume "Object_entries f = Inr es" "(k, w) \<in> set es"
  with JArr show ?thesis using size_indexed [of k w vs] by auto
next
  case (JObj kvs)
  assume "Object_entries f = Inr es" "(k, w) \<in> set es"
  with JObj have "(k, w) \<in> set kvs" by simp
  then have "size w \<le> size_list (size_prod (\<lambda>x. 0) size) kvs"
    by (induction kvs) auto
  with JObj show ?thesis by simp
next
  case (JStr s)
  assume "Object_entries f = Inr es" "(k, w) \<in> set es"
  with JStr show ?thesis by (auto simp: indexed_def dest!: set_zip_rightD)
qed auto

lemma size_map_fields:
  "map_fields p = Inr es \<Longrightarrow> (k, w) \<in> set es \<Longrightarrow> size w < size p"
proof (cases p)
  case (JObj kvs)
  assume a: "map_fields p = Inr es" "(k, w) \<in> set es"
  with JObj obtain f where f: "map_of kvs ''fields'' = Some f" "Object_entries f = Inr es"
    by (auto split: option.splits if_splits)
  from size_Object_entries [OF f(2) a(2)] size_map_of [OF f(1)] JObj show ?thesis by simp
qed auto

lemma size_array_values:
  "array_values p = Inr vs \<Longrightarrow> w \<in> set vs \<Longrightarrow> size w < size p"
proof (cases p)
  case (JObj kvs)
  assume a: "array_values p = Inr vs" "w \<in> set vs"
  with JObj have f: "map_of kvs ''values'' = Some (JArr vs)"
    by (auto split: option.splits if_splits jsval.splits)
  have "size w < Suc (size_list size vs)"
    using a(2) by (simp add: less_Suc_eq_le size_list_estimation')
  with size_map_of [OF f] JObj show ?thesis by simp
qed auto

lemma size_map_payload:
  "map_of kvs t = Some p \<Longrightarrow> map_fields p = Inr es \<Longrightarrow> (k, w) \<in> set es \<Longrightarrow>
     size w < Suc (size_list (size_prod (\<lambda>x. 0) size) kvs)"
  using size_map_fields [of p es k w] size_map_of [of kvs t p] by simp

lemma size_array_payload:
  "map_of kvs t = Some p \<Longrightarrow> array_values p = Inr vs \<Longrightarrow> w \<in> set vs \<Longrightarrow>
     size w < Suc (size_list (size_prod (\<lambda>x. 0) size) kvs)"
  using size_array_values [of p vs w] size_map_of [of kvs t p] by simp

function parseFirestoreValue :: "jsval \<Rightarrow> error + jsval" where
  "parseFirestoreValue JNull = Inl TypeError"
| "parseFirestoreValue (JBool b) = Inl TypeError"
| "parseFirestoreValue (JNum x) = Inl TypeError"
| "parseFirestoreValue (JStr s) = Inl TypeError"
| "parseFirestoreValue (JArr vs) = Inr JNull"
| "parseFirestoreValue (JObj kvs) =
     (case map_of kvs ''stringValue'' of Some p \<Rightarrow> Inr p | None \<Rightarrow>
     (case map_of kvs ''integerValue'' of
        Some p \<Rightarrow> (case parseInt p of Inl e \<Rightarrow> Inl e | Inr n \<Rightarrow> Inr (JNum n))
      | None \<Rightarrow>
     (case map_of kvs ''doubleValue'' of Some p \<Rightarrow> Inr p | None \<Rightarrow>
     (case map_of kvs ''booleanValue'' of Some p \<Rightarrow> Inr p | None \<Rightarrow>
     (case map_of kvs ''nullValue'' of Some p \<Rightarrow> Inr JNull | None \<Rightarrow>
     (case map_of kvs ''mapValue'' of
        Some p \<Rightarrow>
          (case map_fields p of
             Inl e \<Rightarrow> Inl e
           | Inr entries \<Rightarrow> assign_all [] (map (\<lambda>(k, w). (k, parseFirestoreValue w)) entries))
      | None \<Rightarrow>
     (case map_of kvs ''arrayValue'' of
        Some p \<Rightarrow>
          (case array_values p of
             Inl e \<Rightarrow> Inl e
           | Inr arr \<Rightarrow>
               (case sequence (map parseFirestoreValue arr) of
                  Inl e \<Rightarrow> Inl e
                | Inr rs \<Rightarrow> Inr (JArr rs)))
      | None \<Rightarrow> Inr JNull)))))))"
  by pat_completeness auto

termination
  by (relation "measure size") (auto intro: size_map_payload size_array_payload)

text \<open>The tags of a typed value, and the seven tags that the decoder recognizes.\<close>

fun wire_tags :: "jsval \<Rightarrow> string list" where
  "wire_tags (JObj kvs) = map fst kvs"
| "wire_tags v = []"

definition recognized_tags :: "string list" where
  "recognized_tags =
     [''stringValue'', ''integerValue'', ''doubleValue'', ''booleanValue'', ''nullValue'',
      ''mapValue'', ''arrayValue'']"

definition untagged :: "(string \<times> jsval) list \<Rightarrow> bool" where
  "untagged kvs = list_all (\<lambda>t. map_of kvs t = None) recognized_tags"

subsection \<open>Where the decoder throws\<close>

text \<open>
  The decoder dispatches on the first of the seven tags, in the order of its tests, that an
  object carries; \<open>dispatch\<close> gives that tag with its payload.
\<close>

fun first_tag :: "string list \<Rightarrow> (string \<times> jsval) list \<Rightarrow> (string \<times> jsval) option" where
  "first_tag [] kvs = None"
| "first_tag (t # ts) kvs =
     (case map_of kvs t of Some p \<Rightarrow> Some (t, p) | None \<Rightarrow> first_tag ts kvs)"

definition dispatch :: "(string \<times> jsval) list \<Rightarrow> (string \<times> jsval) option" where
  "dispatch kvs = first_tag recognized_tags kvs"

text \<open>
  A payload of \<^verbatim>\<open>arrayValue\<close> on which \<^verbatim>\<open>.values\<close> cannot be read or \<^verbatim>\<open>.map\<close> cannot be called:
  null, an array, or an object whose \<^verbatim>\<open>values\<close> is truthy and not an array.
\<close>

fun unusable_array_payload :: "jsval \<Rightarrow> bool" where
  "unusable_array_payload JNull = True"
| "unusable_array_payload (JArr vs) = True"
| "unusable_array_payload (JObj kvs) =
     (case map_of kvs ''values'' of None \<Rightarrow> False | Some a \<Rightarrow> truthy a \<and> \<not> is_array a)"
| "unusable_array_payload p = False"

text \<open>
  \<open>throws_here v\<close>: the decoder throws at \<open>v\<close> itself. That is so when \<open>v\<close> is null or another
  primitive, on which the \<^verbatim>\<open>in\<close> test throws, and when \<open>v\<close> is an object dispatched on
  \<^verbatim>\<open>integerValue\<close> with a payload that has no string conversion, on \<^verbatim>\<open>mapValue\<close> with the
  payload null, or on \<^verbatim>\<open>arrayValue\<close> with an unusable payload.
\<close>

fun throws_here :: "jsval \<Rightarrow> bool" where
  "throws_here (JObj kvs) =
     (case dispatch kvs of
        None \<Rightarrow> False
      | Some (t, p) \<Rightarrow>
          (t = ''integerValue'' \<and> (case ToString p of Inl e \<Rightarrow> True | Inr s \<Rightarrow> False)) \<or>
          (t = ''mapValue'' \<and> p = JNull) \<or>
          (t = ''arrayValue'' \<and> unusable_array_payload p))"
| "throws_here (JArr vs) = False"
| "throws_here v = True"

text \<open>
  The values to which the decoder applies itself inside \<open>v\<close>: the property values of the
  \<^verbatim>\<open>fields\<close> of a \<^verbatim>\<open>mapValue\<close> and the elements of the \<^verbatim>\<open>values\<close> of an \<^verbatim>\<open>arrayValue\<close>, when \<open>v\<close> is
  dispatched on that tag. \<open>visited v\<close> lists \<open>v\<close> and all the values reached in this way.
\<close>

fun nested_values :: "jsval \<Rightarrow> jsval list" where
  "nested_values (JObj kvs) =
     (case dispatch kvs of
        None \<Rightarrow> []
      | Some (t, p) \<Rightarrow>
          if t = ''mapValue'' then (case map_fields p of Inl e \<Rightarrow> [] | Inr entries \<Rightarrow> map snd entries)
          else if t = ''arrayValue'' then (case array_values p of Inl e \<Rightarrow> [] | Inr arr \<Rightarrow> arr)
          else [])"
| "nested_values v = []"

lemma first_tag_Some: "first_tag ts kvs = Some (t, p) \<Longrightarrow> map_of kvs t = Some p"
  by (induction ts) (auto split: option.splits)

lemma size_nested_values: "w \<in> set (nested_values v) \<Longrightarrow> size w < size v"
proof (cases v)
  case (JObj kvs)
  assume w: "w \<in> set (nested_values v)"
  with JObj obtain t p where d: "dispatch kvs = Some (t, p)"
    by (cases "dispatch kvs") auto
  then have p: "map_of kvs t = Some p"
    unfolding dispatch_def by (rule first_tag_Some)
  show ?thesis
  proof (cases "t = ''mapValue''")
    case True
    with w JObj d obtain es where es: "map_fields p = Inr es" "w \<in> snd ` set es"
      by (cases "map_fields p") auto
    then obtain k where "(k, w) \<in> set es" by auto
    from size_map_payload [OF p es(1) this] JObj show ?thesis by simp
  next
    case False
    with w JObj d obtain arr where arr: "array_values p = Inr arr" "w \<in> set arr"
      by (cases "array_values p"; cases "t = ''arrayValue''") auto
    from size_array_payload [OF p arr] JObj show ?thesis by simp
  qed
qed auto

function visited :: "jsval \<Rightarrow> jsval list" where
  "visited v = v # concat (map visited (nested_values v))"
  by pat_completeness auto

termination
  by (relation "measure size") (auto intro: size_nested_values)

declare visited.simps [simp del]

section \<open>The environment\<close>

text \<open>
  The network, the Admin SDK, the signing of assertions and the clock are outside the
  repository. Their outcomes are inputs of the model, collected in an environment; every
  call is recorded in a trace of events, and a function that performs calls takes the trace
  so far and returns it extended. Nothing removes an event: what was committed stays
  committed.
\<close>

datatype batch_write = Write string jsval jsval

datatype request =
    PostToken string
  | GetProject string string
  | GetDatabase string string
  | PostListCollectionIds string string
  | GetKeys string string string
  | PatchDocument string string string string jsval

datatype fetch_result = Rejected error | Response nat "error + jsval"

datatype event = Fetch request | Commit "batch_write list" bool | Sleep nat

text \<open>
  \<open>Write c id data\<close> is \<^verbatim>\<open>batch.set(db.collection(c).doc(id), data)\<close>. The requests carry,
  in this order, the project id, the collection and the document id of the URL where it has
  them, the bearer token, and for a \<^verbatim>\<open>PATCH\<close> the \<^verbatim>\<open>fields\<close> that the text of the body denotes.
  A response is a
  status and the outcome of \<^verbatim>\<open>response.json()\<close>. \<open>Commit b ok\<close> is one call of
  \<^verbatim>\<open>batch.commit()\<close> and whether it succeeded, \<open>Sleep ms\<close> a \<^verbatim>\<open>setTimeout\<close> delay.
\<close>

record environment =
  respond :: "event list \<Rightarrow> request \<Rightarrow> fetch_result"
  sign_jwt :: "jsval \<Rightarrow> error + string"
  clock :: "nat \<Rightarrow> nat"
  date_value :: "jsval option \<Rightarrow> int option"
  current_time :: int
  auto_id :: "nat \<Rightarrow> string"
  collection_ok :: "string \<Rightarrow> bool"
  ref_ok :: "string \<Rightarrow> jsval \<Rightarrow> bool"
  data_ok :: "jsval \<Rightarrow> bool"
  commit_ok :: "event list \<Rightarrow> batch_write list \<Rightarrow> bool"
  path_name :: "string \<Rightarrow> string"

text \<open>
  \<open>respond\<close> answers a \<^verbatim>\<open>fetch\<close> given the trace so far; \<open>sign_jwt\<close> is \<^verbatim>\<open>createJWT\<close> on the
  assertion built from a service account; \<open>clock i\<close> is \<^verbatim>\<open>Date.now()\<close> while document \<open>i\<close> is
  processed, \<open>date_value\<close> the time value of \<^verbatim>\<open>new Date(x)\<close> (none for an invalid date) and
  \<open>current_time\<close> that of \<^verbatim>\<open>new Date()\<close>. Of the Admin SDK, \<open>auto_id i\<close> is the id that
  \<^verbatim>\<open>db.collection(c).doc().id\<close> generates for document \<open>i\<close>, \<open>collection_ok\<close>, \<open>ref_ok\<close> and
  \<open>data_ok\<close> say whether \<^verbatim>\<open>db.collection(c)\<close>, \<^verbatim>\<open>.doc(id)\<close> and \<^verbatim>\<open>batch.set(ref, data)\<close> accept
  their argument, and \<open>commit_ok\<close> whether a commit succeeds. \<open>path_name\<close> is Node's
  \<^verbatim>\<open>path.parse(name).name\<close>, which depends on the platform.
\<close>

definition is_ok :: "nat \<Rightarrow> bool" where
  "is_ok status = (200 \<le> status \<and> status \<le> 299)"

text \<open>The process-wide state of the server.\<close>

record server_state =
  isValidServiceAccount :: bool
  db :: bool
  SERVICE_ACCOUNT :: "(error + jsval) option"

text \<open>
  \<open>db\<close> says whether the Express server holds a Firestore handle; \<open>SERVICE_ACCOUNT\<close> is
  \<^verbatim>\<open>c.env.SERVICE_ACCOUNT\<close> of the Hono server, given by what \<^verbatim>\<open>JSON.parse\<close> makes of it.
\<close>

definition initial_state :: server_state where
  "initial_state = \<lparr>isValidServiceAccount = False, db = False, SERVICE_ACCOUNT = None\<rparr>"

text \<open>An uploaded file: its name and what \<^verbatim>\<open>JSON.parse\<close> makes of its content.\<close>

record upload_file =
  originalFilename :: string
  buffer :: "error + jsval"

datatype form_value = FormFile string "error + jsval" | FormField string

record upload_result =
  collection :: string
  documentsUploaded :: "nat option"
  totalDocuments :: "nat option"
  success :: "bool option"
  error :: "error option"

record http_response =
  status :: nat
  succeeded :: "bool option"
  results :: "upload_result list"
  errors :: "upload_result list"
  summary :: "(nat \<times> nat \<times> nat \<times> nat) option"

text \<open>
  \<open>succeeded\<close> is the \<^verbatim>\<open>success\<close> field of the response body; the summary holds
  \<^verbatim>\<open>totalFiles\<close>, \<^verbatim>\<open>successfulFiles\<close>, \<^verbatim>\<open>failedFiles\<close> and \<^verbatim>\<open>totalDocumentsUploaded\<close>.
\<close>

definition reply :: "nat \<Rightarrow> bool option \<Rightarrow> http_response" where
  "reply code flag =
     \<lparr>status = code, succeeded = flag, results = [], errors = [], summary = None\<rparr>"

section \<open>The upload pipeline\<close>

subsection \<open>Shape normalization and document ids\<close>

text \<open>
  \<open>get_property v k\<close> reads \<^verbatim>\<open>v.k\<close> for a key \<open>k\<close> that no prototype defines: the own
  property of an object, undefined on any other value, and a TypeError on null.
\<close>

fun get_property :: "jsval \<Rightarrow> string \<Rightarrow> error + jsval option" where
  "get_property JNull k = Inl TypeError"
| "get_property (JObj kvs) k = Inr (map_of kvs k)"
| "get_property v k = Inr None"

fun truthy_opt :: "jsval option \<Rightarrow> bool" where
  "truthy_opt None = False"
| "truthy_opt (Some v) = truthy v"

text \<open>The properties that the spread \<^verbatim>\<open>{ ...data }\<close> copies; null gives none.\<close>

definition own_properties :: "jsval \<Rightarrow> (string \<times> jsval) list" where
  "own_properties data = (case Object_entries data of Inl e \<Rightarrow> [] | Inr entries \<Rightarrow> entries)"

fun normalize_documents :: "jsval \<Rightarrow> error + jsval list" where
  "normalize_documents (JArr vs) = Inr vs"
| "normalize_documents JNull = Inl TypeError"
| "normalize_documents (JObj kvs) =
     (if kvs = [] then Inl (Error ''Empty JSON object'')
      else if list_all (\<lambda>(k, val). typeof_object val) kvs
      then Inr (map (\<lambda>(id, data). JObj (AList.update ''_id'' (JStr id) (own_properties data))) kvs)
      else Inr [JObj kvs])"
| "normalize_documents v = Inl (Error ''Invalid JSON structure. Must be an object or array'')"

text \<open>\<^verbatim>\<open>doc._id || fallback\<close>, and \<^verbatim>\<open>if (doc._id) { delete doc._id; }\<close>.\<close>

definition select_id :: "jsval \<Rightarrow> jsval \<Rightarrow> error + jsval" where
  "select_id doc fallback =
     (case get_property doc ''_id'' of
        Inl e \<Rightarrow> Inl e
      | Inr None \<Rightarrow> Inr fallback
      | Inr (Some v) \<Rightarrow> Inr (if truthy v then v else fallback))"

fun strip_id :: "jsval \<Rightarrow> jsval" where
  "strip_id (JObj kvs) =
     (if truthy_opt (map_of kvs ''_id'') then JObj (AList.delete ''_id'' kvs) else JObj kvs)"
| "strip_id doc = doc"

subsection \<open>The Hono server\<close>

text \<open>A template literal \<^verbatim>\<open>${x}\<close>; undefined prints as \<^verbatim>\<open>undefined\<close>.\<close>

definition template :: "jsval option \<Rightarrow> error + string" where
  "template x = (case x of None \<Rightarrow> Inr ''undefined'' | Some v \<Rightarrow> ToString v)"

text \<open>
  \<^verbatim>\<open>file.originalFilename.replace(/\.[^/.]+$/, "")\<close>: a last dot followed to the end of the
  name by at least one character, none of them a slash, is removed with what follows it.
\<close>

definition strip_extension :: "string \<Rightarrow> string" where
  "strip_extension name =
     (let ext = takeWhile (\<lambda>c. c \<noteq> CHR ''.'') (rev name)
      in if length ext < length name \<and> ext \<noteq> [] \<and> CHR ''/'' \<notin> set ext
         then take (length name - length ext - 1) name
         else name)"

text \<open>
  \<^verbatim>\<open>parseMultipartForm\<close>: every file entry of the form is stored as a one-element array under
  its key, \<^verbatim>\<open>files[key] = [ ... ]\<close>, in place of what the key held before.
\<close>

fun parseMultipartForm ::
  "(string \<times> form_value) list \<Rightarrow> (string \<times> upload_file list) list \<Rightarrow>
   (string \<times> upload_file list) list" where
  "parseMultipartForm [] files = files"
| "parseMultipartForm ((key, FormFile name content) # rest) files =
     parseMultipartForm rest
       (set_property files key [\<lparr>originalFilename = name, buffer = content\<rparr>])"
| "parseMultipartForm ((key, FormField s) # rest) files = parseMultipartForm rest files"

definition getAccessToken ::
  "environment \<Rightarrow> jsval \<Rightarrow> event list \<Rightarrow> event list \<times> (error + jsval option)" where
  "getAccessToken env serviceAccount tr =
     (case sign_jwt env serviceAccount of
        Inl e \<Rightarrow> (tr, Inl e)
      | Inr jwt \<Rightarrow>
          (case respond env tr (PostToken jwt) of
             Rejected e \<Rightarrow> (tr @ [Fetch (PostToken jwt)], Inl e)
           | Response code body \<Rightarrow>
               (tr @ [Fetch (PostToken jwt)],
                (case body of
                   Inl e \<Rightarrow> Inl e
                 | Inr data \<Rightarrow>
                     if is_ok code then get_property data ''access_token''
                     else (case get_property data ''error_description'' of
                             Inl e \<Rightarrow> Inl e
                           | Inr d \<Rightarrow> Inl (Error ''Token request failed''))))))"

text \<open>
  The text that \<^verbatim>\<open>JSON.stringify\<close> writes for a value, given by the value that the text denotes:
  a number that is not finite is written as \<^verbatim>\<open>null\<close>, everything else as itself.
\<close>

fun JSON_stringify :: "jsval \<Rightarrow> jsval" where
  "JSON_stringify (JNum x) = (case x of Finite q \<Rightarrow> JNum x | _ \<Rightarrow> JNull)"
| "JSON_stringify (JArr vs) = JArr (map JSON_stringify vs)"
| "JSON_stringify (JObj kvs) = JObj (map (\<lambda>(k, v). (k, JSON_stringify v)) kvs)"
| "JSON_stringify v = v"

text \<open>
  \<^verbatim>\<open>uploadDocument\<close>: the URL is built first, then the headers, then the body, the text of
  \<^verbatim>\<open>{ fields: convertToFirestoreFields(docData) }\<close>; the result is \<^verbatim>\<open>response.ok\<close>.
\<close>

definition uploadDocument ::
  "environment \<Rightarrow> jsval option \<Rightarrow> jsval option \<Rightarrow> string \<Rightarrow> jsval \<Rightarrow> jsval \<Rightarrow> event list \<Rightarrow>
   event list \<times> (error + bool)" where
  "uploadDocument env projectId accessToken collectionName docId docData tr =
     (case template projectId of Inl e \<Rightarrow> (tr, Inl e) | Inr project \<Rightarrow>
     (case ToString docId of Inl e \<Rightarrow> (tr, Inl e) | Inr doc_id \<Rightarrow>
     (case template accessToken of Inl e \<Rightarrow> (tr, Inl e) | Inr bearer \<Rightarrow>
     (case convertToFirestoreFields docData of Inl e \<Rightarrow> (tr, Inl e) | Inr wire \<Rightarrow>
     (case respond env tr
             (PatchDocument project collectionName doc_id bearer (JSON_stringify wire)) of
        Rejected e \<Rightarrow>
          (tr @ [Fetch (PatchDocument project collectionName doc_id bearer (JSON_stringify wire))],
           Inl e)
      | Response code body \<Rightarrow>
          (tr @ [Fetch (PatchDocument project collectionName doc_id bearer (JSON_stringify wire))],
           Inr (is_ok code)))))))"

text \<open>
  The loop over the documents of one file. Reading \<^verbatim>\<open>doc._id\<close> is outside the inner \<^verbatim>\<open>try\<close>
  and its exception ends the file. An exception of \<^verbatim>\<open>uploadDocument\<close>, or of reading
  \<^verbatim>\<open>serviceAccount.project_id\<close> for it, is caught; the \<^verbatim>\<open>catch\<close> block prints the document id
  in a template literal, and when the id has no string conversion that throws again and
  ends the file; otherwise the loop goes on with the next document.
\<close>

fun hono_documents ::
  "environment \<Rightarrow> jsval \<Rightarrow> jsval option \<Rightarrow> string \<Rightarrow> nat \<Rightarrow> jsval list \<Rightarrow> nat \<Rightarrow> event list \<Rightarrow>
   event list \<times> (error + nat)" where
  "hono_documents env serviceAccount accessToken collectionName i [] successCount tr =
     (tr, Inr successCount)"
| "hono_documents env serviceAccount accessToken collectionName i (doc # rest) successCount tr =
     (case select_id doc (JStr (''doc_'' @ show_nat (clock env i) @ ''_'' @ show_nat i)) of
        Inl e \<Rightarrow> (tr, Inl e)
      | Inr docId \<Rightarrow>
          (case (case get_property serviceAccount ''project_id'' of
                   Inl e \<Rightarrow> (tr, Inl e)
                 | Inr projectId \<Rightarrow>
                     uploadDocument env projectId accessToken collectionName docId
                       (strip_id doc) tr) of
             (tr', Inl docError) \<Rightarrow>
               (case ToString docId of
                  Inl e \<Rightarrow> (tr', Inl e)
                | Inr printed \<Rightarrow>
                    hono_documents env serviceAccount accessToken collectionName (i + 1) rest
                      successCount tr')
           | (tr', Inr ok) \<Rightarrow>
               hono_documents env serviceAccount accessToken collectionName (i + 1) rest
                 (if ok then successCount + 1 else successCount)
                 (if i mod 10 = 0 then tr' @ [Sleep 1000] else tr')))"

definition file_failed :: "string \<Rightarrow> error \<Rightarrow> bool option \<Rightarrow> upload_result" where
  "file_failed name e flag =
     \<lparr>collection = name, documentsUploaded = None, totalDocuments = None, success = flag,
      error = Some e\<rparr>"

definition hono_file ::
  "environment \<Rightarrow> jsval \<Rightarrow> jsval option \<Rightarrow> upload_file \<Rightarrow> event list \<Rightarrow>
   event list \<times> upload_result" where
  "hono_file env serviceAccount accessToken file tr =
     (case buffer file of
        Inl e \<Rightarrow> (tr, file_failed (strip_extension (originalFilename file)) e (Some False))
      | Inr jsonData \<Rightarrow>
          (case normalize_documents jsonData of
             Inl e \<Rightarrow> (tr, file_failed (strip_extension (originalFilename file)) e (Some False))
           | Inr documents \<Rightarrow>
               (case hono_documents env serviceAccount accessToken
                       (strip_extension (originalFilename file)) 0 documents 0 tr of
                  (tr', Inl e) \<Rightarrow>
                    (tr', file_failed (strip_extension (originalFilename file)) e (Some False))
                | (tr', Inr successCount) \<Rightarrow>
                    (tr',
                     \<lparr>collection = strip_extension (originalFilename file),
                      documentsUploaded = Some successCount,
                      totalDocuments = Some (length documents),
                      success = Some (0 < successCount), error = None\<rparr>))))"

fun hono_files ::
  "environment \<Rightarrow> jsval \<Rightarrow> jsval option \<Rightarrow> upload_file list \<Rightarrow> upload_result list \<Rightarrow>
   event list \<Rightarrow> event list \<times> upload_result list" where
  "hono_files env serviceAccount accessToken [] rs tr = (tr, rs)"
| "hono_files env serviceAccount accessToken (file # rest) rs tr =
     (case hono_file env serviceAccount accessToken file tr of
        (tr', r) \<Rightarrow> hono_files env serviceAccount accessToken rest (rs @ [r]) tr')"

definition uploaded_total :: "upload_result list \<Rightarrow> nat" where
  "uploaded_total rs =
     sum_list (map (\<lambda>r. case documentsUploaded r of None \<Rightarrow> 0 | Some n \<Rightarrow> n) rs)"

text \<open>
  The handler of \<^verbatim>\<open>POST /upload-collection\<close>. The request body is the list of the entries of
  its form, or the error of \<^verbatim>\<open>request.formData()\<close>.
\<close>

definition hono_upload_collection ::
  "environment \<Rightarrow> server_state \<Rightarrow> error + (string \<times> form_value) list \<Rightarrow> event list \<Rightarrow>
   event list \<times> http_response" where
  "hono_upload_collection env st body tr =
     (if \<not> isValidServiceAccount st then (tr, reply 401 (Some False))
      else
        (case body of
           Inl e \<Rightarrow> (tr, reply 500 (Some False))
         | Inr entries \<Rightarrow>
             (case map_of (parseMultipartForm entries []) ''collections'' of
                None \<Rightarrow> (tr, reply 400 (Some False))
              | Some collectionFiles \<Rightarrow>
                  if collectionFiles = [] then (tr, reply 400 (Some False))
                  else
                    (case (case SERVICE_ACCOUNT st of None \<Rightarrow> Inr (JObj []) | Some parsed \<Rightarrow> parsed) of
                       Inl e \<Rightarrow> (tr, reply 500 (Some False))
                     | Inr serviceAccount \<Rightarrow>
                         (case getAccessToken env serviceAccount tr of
                            (tr1, Inl e) \<Rightarrow> (tr1, reply 500 (Some False))
                          | (tr1, Inr accessToken) \<Rightarrow>
                              (case hono_files env serviceAccount accessToken collectionFiles [] tr1 of
                                 (tr2, rs) \<Rightarrow>
                                   (tr2,
                                    \<lparr>status = 200,
                                     succeeded = Some (list_ex (\<lambda>r. success r = Some True) rs),
                                     results = rs,
                                     errors = filter (\<lambda>r. error r \<noteq> None) rs,
                                     summary =
                                       Some (length collectionFiles,
                                             length (filter (\<lambda>r. success r = Some True) rs),
                                             length (filter (\<lambda>r. error r \<noteq> None) rs),
                                             uploaded_total rs)\<rparr>)))))))"

subsection \<open>The Express server\<close>

text \<open>
  \<^verbatim>\<open>commitBatchWithRetry\<close>, the loop from \<open>attempt\<close> on. A failed attempt that is not the last
  is followed by a delay of \<open>2 ^ attempt\<close> seconds; the last one rethrows.
\<close>

function commit_attempts ::
  "environment \<Rightarrow> batch_write list \<Rightarrow> nat \<Rightarrow> nat \<Rightarrow> event list \<Rightarrow> event list \<times> (error + bool)" where
  "commit_attempts env batch retries attempt tr =
     (if attempt \<le> retries then
        (if commit_ok env tr batch then (tr @ [Commit batch True], Inr True)
         else if attempt = retries then (tr @ [Commit batch False], Inl SdkError)
         else commit_attempts env batch retries (attempt + 1)
                (tr @ [Commit batch False, Sleep (2 ^ attempt * 1000)]))
      else (tr, Inr False))"
  by pat_completeness auto

termination
  by (relation "measure (\<lambda>(env, batch, retries, attempt, tr). Suc retries - attempt)") auto

declare commit_attempts.simps [simp del]

definition commitBatchWithRetry ::
  "environment \<Rightarrow> batch_write list \<Rightarrow> nat \<Rightarrow> event list \<Rightarrow> event list \<times> (error + bool)" where
  "commitBatchWithRetry env batch retries tr = commit_attempts env batch retries 1 tr"

definition batchSize :: nat where
  "batchSize = 15"

text \<open>
  The loop over the documents of one file; \<open>batchCount\<close> of the source is the length of
  \<open>batch\<close>. The handler calls \<^verbatim>\<open>commitBatchWithRetry\<close> with its default of 3 retries.
\<close>

fun express_documents ::
  "environment \<Rightarrow> string \<Rightarrow> nat \<Rightarrow> jsval list \<Rightarrow> batch_write list \<Rightarrow> nat \<Rightarrow> event list \<Rightarrow>
   event list \<times> (error + nat)" where
  "express_documents env collectionName i [] batch successCount tr = (tr, Inr successCount)"
| "express_documents env collectionName i (doc # rest) batch successCount tr =
     (case select_id doc (JStr (auto_id env i)) of
        Inl e \<Rightarrow> (tr, Inl e)
      | Inr docId \<Rightarrow>
          if \<not> (collection_ok env collectionName \<and> ref_ok env collectionName docId \<and>
                data_ok env (strip_id doc))
          then (tr, Inl SdkError)
          else if length (batch @ [Write collectionName docId (strip_id doc)]) = batchSize \<or>
                  rest = []
          then
            (case commitBatchWithRetry env (batch @ [Write collectionName docId (strip_id doc)])
                    3 tr of
               (tr', Inl e) \<Rightarrow> (tr', Inl e)
             | (tr', Inr committed) \<Rightarrow>
                 express_documents env collectionName (i + 1) rest []
                   (successCount + length (batch @ [Write collectionName docId (strip_id doc)]))
                   (tr' @ [Sleep 1000]))
          else
            express_documents env collectionName (i + 1) rest
              (batch @ [Write collectionName docId (strip_id doc)]) successCount tr)"

definition express_file ::
  "environment \<Rightarrow> upload_file \<Rightarrow> event list \<Rightarrow> event list \<times> upload_result" where
  "express_file env file tr =
     (case buffer file of
        Inl e \<Rightarrow> (tr, file_failed (path_name env (originalFilename file)) e None)
      | Inr jsonData \<Rightarrow>
          (case normalize_documents jsonData of
             Inl e \<Rightarrow> (tr, file_failed (path_name env (originalFilename file)) e None)
           | Inr documents \<Rightarrow>
               (case express_documents env (path_name env (originalFilename file)) 0 documents
                       [] 0 tr of
                  (tr', Inl e) \<Rightarrow> (tr', file_failed (path_name env (originalFilename file)) e None)
                | (tr', Inr successCount) \<Rightarrow>
                    (tr',
                     \<lparr>collection = path_name env (originalFilename file),
                      documentsUploaded = Some successCount,
                      totalDocuments = Some (length documents),
                      success = None, error = None\<rparr>))))"

fun express_files ::
  "environment \<Rightarrow> upload_file list \<Rightarrow> upload_result list \<Rightarrow> event list \<Rightarrow>
   event list \<times> upload_result list" where
  "express_files env [] rs tr = (tr, rs)"
| "express_files env (file # rest) rs tr =
     (case express_file env file tr of (tr', r) \<Rightarrow> express_files env rest (rs @ [r]) tr')"

definition express_upload_collection ::
  "environment \<Rightarrow> server_state \<Rightarrow> upload_file list \<Rightarrow> event list \<Rightarrow>
   event list \<times> http_response" where
  "express_upload_collection env st files tr =
     (if \<not> isValidServiceAccount st \<or> \<not> db st then (tr, reply 401 (Some False))
      else if files = [] then (tr, reply 400 None)
      else
        (case express_files env files [] tr of
           (tr', rs) \<Rightarrow>
             (tr',
              \<lparr>status = 200, succeeded = Some True, results = rs,
               errors = filter (\<lambda>r. error r \<noteq> None) rs, summary = None\<rparr>)))"

subsection \<open>The upload script\<close>

text \<open>
  The loop of \<^verbatim>\<open>uploadJsonToFirestore\<close> from index \<open>i\<close> on. With a batch size of 0 the index
  never advances and the loop does not return, which is the value \<open>None\<close>.
\<close>

definition script_batch :: "string \<Rightarrow> nat \<Rightarrow> jsval list \<Rightarrow> batch_write list" where
  "script_batch collectionName i batchData =
     map (\<lambda>(index, item). Write collectionName (JStr (''doc_'' @ show_nat (i + index + 1))) item)
       (zip [0..<length batchData] batchData)"

definition batch_accepted :: "environment \<Rightarrow> batch_write list \<Rightarrow> bool" where
  "batch_accepted env ws =
     list_all (\<lambda>w. case w of Write c docId data \<Rightarrow> ref_ok env c docId \<and> data_ok env data) ws"

partial_function (option) script_loop ::
  "environment \<Rightarrow> string \<Rightarrow> nat \<Rightarrow> jsval list \<Rightarrow> nat \<Rightarrow> nat \<Rightarrow> event list \<Rightarrow>
   (event list \<times> (error + nat)) option" where
  "script_loop env collectionName bsize data i uploadedCount tr =
     (if i < length data then
        (if \<not> batch_accepted env (script_batch collectionName i (take bsize (drop i data)))
         then Some (tr, Inl SdkError)
         else if commit_ok env tr (script_batch collectionName i (take bsize (drop i data)))
         then script_loop env collectionName bsize data (i + bsize)
                (uploadedCount + length (take bsize (drop i data)))
                (tr @ [Commit (script_batch collectionName i (take bsize (drop i data))) True,
                       Sleep 1000])
         else Some (tr @ [Commit (script_batch collectionName i (take bsize (drop i data))) False],
                    Inl SdkError))
      else Some (tr, Inr uploadedCount))"

declare script_loop.simps [code]

text \<open>
  \<open>positive_literal s\<close> says whether the number that a string converts to is greater than
  zero. The string is trimmed; a prefix \<^verbatim>\<open>0x\<close>, \<^verbatim>\<open>0o\<close> or \<^verbatim>\<open>0b\<close> announces digits in radix
  16, 8 or 2; otherwise it is an optional sign and \<^verbatim>\<open>Infinity\<close> or a decimal numeral, digits
  with an optional fraction and an optional exponent; anything else is NaN. A positive
  decimal is rounded to zero when it is not above \<open>2 ^ -1075\<close>, half of the least double.
\<close>

definition exponent_part :: "string \<Rightarrow> int option" where
  "exponent_part s =
     (if s = [] then Some 0
      else if take 1 s = ''e'' \<or> take 1 s = ''E'' then
        (let t = drop 1 s;
             ds = (if take 1 t = ''+'' \<or> take 1 t = ''-'' then drop 1 t else t)
         in if ds \<noteq> [] \<and> list_all (is_radix_digit 10) ds
            then Some ((if take 1 t = ''-'' then - 1 else 1) * int (digits_value 10 0 ds))
            else None)
      else None)"

definition radix_literal_positive :: "nat \<Rightarrow> string \<Rightarrow> bool" where
  "radix_literal_positive R ds =
     (ds \<noteq> [] \<and> list_all (is_radix_digit R) ds \<and> 0 < digits_value R 0 ds)"

definition positive_literal :: "string \<Rightarrow> bool" where
  "positive_literal s =
     (let t = rev (dropWhile is_white_space (rev (dropWhile is_white_space s))) in
      if take 2 t = ''0x'' \<or> take 2 t = ''0X'' then radix_literal_positive 16 (drop 2 t)
      else if take 2 t = ''0o'' \<or> take 2 t = ''0O'' then radix_literal_positive 8 (drop 2 t)
      else if take 2 t = ''0b'' \<or> take 2 t = ''0B'' then radix_literal_positive 2 (drop 2 t)
      else if take 1 t = ''-'' then False
      else
        (let u = (if take 1 t = ''+'' then drop 1 t else t);
             whole = takeWhile (is_radix_digit 10) u;
             r = dropWhile (is_radix_digit 10) u;
             fraction = (if take 1 r = ''.'' then takeWhile (is_radix_digit 10) (drop 1 r) else []);
             r' = (if take 1 r = ''.'' then dropWhile (is_radix_digit 10) (drop 1 r) else r)
         in if u = ''Infinity'' then True
            else if whole = [] \<and> fraction = [] then False
            else
              (case exponent_part r' of
                 None \<Rightarrow> False
               | Some e \<Rightarrow>
                   0 < digits_value 10 0 (whole @ fraction) \<and>
                   (int (length fraction) \<le> e \<or>
                    10 ^ nat (int (length fraction) - e) <
                      digits_value 10 0 (whole @ fraction) * 2 ^ 1075))))"

text \<open>
  \<^verbatim>\<open>0 < v\<close> for a JSON value: null is 0, true is 1, a string is read as a numeral, and an
  array or object is first converted to a string.
\<close>

fun positive :: "jsval \<Rightarrow> error + bool" where
  "positive JNull = Inr False"
| "positive (JBool b) = Inr b"
| "positive (JNum (Finite q)) = Inr (0 < q)"
| "positive (JNum PosInfinity) = Inr True"
| "positive (JNum x) = Inr False"
| "positive (JStr s) = Inr (positive_literal s)"
| "positive v = (case ToString v of Inl e \<Rightarrow> Inl e | Inr s \<Rightarrow> Inr (positive_literal s))"

text \<open>
  \<^verbatim>\<open>uploadJsonToFirestore(data, collectionName, batchSize)\<close>. The source catches and logs every
  exception and returns nothing; the model returns the trace and the exception or the
  count of uploaded documents. On data that is not an array the loop is entered when
  \<^verbatim>\<open>0 < data.length\<close>: null has no properties and reading its length throws; a boolean or
  number has no length; a non-empty string has a length and a \<^verbatim>\<open>slice\<close>, but its slice has no
  \<^verbatim>\<open>forEach\<close>; an object has the length that it holds as a property, and no \<^verbatim>\<open>slice\<close> to call.
\<close>

definition uploadJsonToFirestore ::
  "environment \<Rightarrow> jsval \<Rightarrow> string \<Rightarrow> nat \<Rightarrow> event list \<Rightarrow> (event list \<times> (error + nat)) option" where
  "uploadJsonToFirestore env data collectionName bsize tr =
     (if \<not> collection_ok env collectionName then Some (tr, Inl SdkError)
      else
        (case data of
           JArr items \<Rightarrow> script_loop env collectionName bsize items 0 0 tr
         | JNull \<Rightarrow> Some (tr, Inl TypeError)
         | JStr s \<Rightarrow> if s = [] then Some (tr, Inr 0) else Some (tr, Inl TypeError)
         | JObj kvs \<Rightarrow>
             (case map_of kvs ''length'' of
                None \<Rightarrow> Some (tr, Inr 0)
              | Some len \<Rightarrow>
                  (case positive len of
                     Inl e \<Rightarrow> Some (tr, Inl e)
                   | Inr entered \<Rightarrow> if entered then Some (tr, Inl TypeError) else Some (tr, Inr 0)))
         | _ \<Rightarrow> Some (tr, Inr 0)))"

text \<open>
  The contiguous runs of \<open>n\<close> elements of a list, the last one possibly shorter: the
  partition that the specification asks of the batch writer.
\<close>

fun contiguous_runs :: "nat \<Rightarrow> 'a list \<Rightarrow> 'a list list" where
  "contiguous_runs n xs =
     (if n = 0 \<or> xs = [] then [] else take n xs # contiguous_runs n (drop n xs))"

declare contiguous_runs.simps [simp del]

text \<open>The batches committed in a trace, in order.\<close>

fun committed :: "event list \<Rightarrow> batch_write list list" where
  "committed [] = []"
| "committed (Commit batch True # tr) = batch # committed tr"
| "committed (ev # tr) = committed tr"

text \<open>The commit calls of a trace and the network requests of a trace.\<close>

fun commit_calls :: "event list \<Rightarrow> batch_write list list" where
  "commit_calls [] = []"
| "commit_calls (Commit batch ok # tr) = batch # commit_calls tr"
| "commit_calls (ev # tr) = commit_calls tr"

fun requests :: "event list \<Rightarrow> request list" where
  "requests [] = []"
| "requests (Fetch req # tr) = req # requests tr"
| "requests (ev # tr) = requests tr"

subsection \<open>Notions used in the claims\<close>

text \<open>An environment in which every commit succeeds, and one whose SDK accepts every
  collection name, document id and document.\<close>

definition commits_succeed :: "environment \<Rightarrow> bool" where
  "commits_succeed env = (\<forall>tr b. commit_ok env tr b)"

definition sdk_accepts :: "environment \<Rightarrow> bool" where
  "sdk_accepts env =
     ((\<forall>c. collection_ok env c) \<and> (\<forall>c d. ref_ok env c d) \<and> (\<forall>d. data_ok env d))"

text \<open>The id that \<^verbatim>\<open>doc._id || fallback\<close> selects for a document that is not null.\<close>

definition document_id :: "jsval \<Rightarrow> jsval \<Rightarrow> jsval" where
  "document_id doc fallback =
     (case doc of
        JObj kvs \<Rightarrow>
          (case map_of kvs ''_id'' of
             None \<Rightarrow> fallback
           | Some v \<Rightarrow> if truthy v then v else fallback)
      | _ \<Rightarrow> fallback)"

text \<open>
  A document that the Hono loop can send: it is not null, and the id that
  \<^verbatim>\<open>doc._id || ...\<close> selects for it, the synthesized one being a string, has a string
  conversion.
\<close>

definition sendable :: "jsval \<Rightarrow> bool" where
  "sendable doc =
     (case select_id doc (JStr []) of
        Inl e \<Rightarrow> False
      | Inr docId \<Rightarrow> (case ToString docId of Inl e \<Rightarrow> False | Inr printed \<Rightarrow> True))"

text \<open>The writes of the Express server for the documents of a file, from index \<open>i\<close> on.\<close>

definition express_writes :: "environment \<Rightarrow> string \<Rightarrow> nat \<Rightarrow> jsval list \<Rightarrow> batch_write list" where
  "express_writes env c i docs =
     map (\<lambda>(k, doc). Write c (document_id doc (JStr (auto_id env k))) (strip_id doc))
       (zip [i..<i + length docs] docs)"

fun write_data :: "batch_write \<Rightarrow> jsval" where
  "write_data (Write c docId data) = data"

text \<open>
  \<^verbatim>\<open>path.parse(name).name\<close> of Node on a POSIX system: trailing slashes are dropped, the
  base is what follows the last remaining slash, and the extension, from the last dot of
  the base on, is removed unless that dot is the first character of the base or the base
  is \<^verbatim>\<open>..\<close>.
\<close>

definition path_parse_name :: "string \<Rightarrow> string" where
  "path_parse_name name =
     (let base = rev (takeWhile (\<lambda>c. c \<noteq> CHR ''/'') (dropWhile (\<lambda>c. c = CHR ''/'') (rev name)));
          ext = takeWhile (\<lambda>c. c \<noteq> CHR ''.'') (rev base)
      in if CHR ''.'' \<notin> set base \<or> length base - length ext - 1 = 0 \<or> base = ''..''
         then base
         else take (length base - length ext - 1) base)"

text \<open>
  An environment in which everything succeeds: every request is answered with status 200
  and a token, every SDK call is accepted and every commit succeeds.
\<close>

definition obliging :: environment where
  "obliging =
     \<lparr>respond = (\<lambda>tr req. Response 200 (Inr (JObj [(''access_token'', JStr ''token'')]))),
      sign_jwt = (\<lambda>serviceAccount. Inr ''assertion''),
      clock = (\<lambda>i. 0),
      date_value = (\<lambda>x. None),
      current_time = 0,
      auto_id = (\<lambda>i. ''auto_'' @ show_nat i),
      collection_ok = (\<lambda>c. True),
      ref_ok = (\<lambda>c d. True),
      data_ok = (\<lambda>d. True),
      commit_ok = (\<lambda>tr b. True),
      path_name = path_parse_name\<rparr>"

definition validated :: server_state where
  "validated =
     \<lparr>isValidServiceAccount = True, db = True,
      SERVICE_ACCOUNT = Some (Inr (JObj [(''project_id'', JStr ''demo'')]))\<rparr>"

text \<open>
  A file \<^verbatim>\<open>data.json\<close> with the object \<^verbatim>\<open>{ "x": { "_id": "old", "a": null }, "": { "b": null } }\<close>,
  whose keys are \<^verbatim>\<open>x\<close> and the empty string.
\<close>

definition mixed_keys :: "(string \<times> jsval) list" where
  "mixed_keys = [(''x'', JObj [(''_id'', JStr ''old''), (''a'', JNull)]), ('''', JObj [(''b'', JNull)])]"

definition mixed_file :: upload_file where
  "mixed_file = \<lparr>originalFilename = ''data.json'', buffer = Inr (JObj mixed_keys)\<rparr>"

section \<open>Credential validation\<close>

subsection \<open>The structural check\<close>

definition required_fields :: "string list" where
  "required_fields =
     [''type'', ''project_id'', ''private_key_id'', ''private_key'', ''client_email'',
      ''client_id'', ''auth_uri'', ''token_uri'', ''auth_provider_x509_cert_url'',
      ''client_x509_cert_url'']"

definition String_endsWith :: "string \<Rightarrow> string \<Rightarrow> bool" where
  "String_endsWith s t = (length t \<le> length s \<and> drop (length s - length t) s = t)"

definition String_includes :: "string \<Rightarrow> string \<Rightarrow> bool" where
  "String_includes s t = list_ex (\<lambda>i. take (length t) (drop i s) = t) [0..<Suc (length s)]"

text \<open>
  \<^verbatim>\<open>requiredFields.every(...)\<close>: the call \<^verbatim>\<open>serviceAccount.hasOwnProperty(field)\<close> throws on
  null, and on an object with an own property of that name, which is not callable.
\<close>

fun has_all_fields :: "jsval \<Rightarrow> error + bool" where
  "has_all_fields JNull = Inl TypeError"
| "has_all_fields (JObj kvs) =
     (if map_of kvs ''hasOwnProperty'' \<noteq> None then Inl TypeError
      else Inr (list_all
                  (\<lambda>field. case map_of kvs field of
                              None \<Rightarrow> False
                            | Some v \<Rightarrow> v \<noteq> JNull \<and> v \<noteq> JStr [])
                  required_fields))"
| "has_all_fields v = Inr False"

text \<open>
  \<^verbatim>\<open>x && x.endsWith(suffix)\<close> and \<^verbatim>\<open>x && x.includes(a) && x.includes(b)\<close> for a property
  \<open>x\<close>, by their truthiness. A truthy value without the method throws; an array has an
  \<^verbatim>\<open>includes\<close> of its own, which looks for an element.
\<close>

fun has_valid_email :: "jsval option \<Rightarrow> error + bool" where
  "has_valid_email None = Inr False"
| "has_valid_email (Some (JStr s)) = Inr (s \<noteq> [] \<and> String_endsWith s ''.gserviceaccount.com'')"
| "has_valid_email (Some v) = (if truthy v then Inl TypeError else Inr False)"

fun has_valid_private_key :: "jsval option \<Rightarrow> error + bool" where
  "has_valid_private_key None = Inr False"
| "has_valid_private_key (Some (JStr s)) =
     Inr (s \<noteq> [] \<and> String_includes s ''BEGIN PRIVATE KEY'' \<and> String_includes s ''END PRIVATE KEY'')"
| "has_valid_private_key (Some (JArr vs)) =
     Inr (JStr ''BEGIN PRIVATE KEY'' \<in> set vs \<and> JStr ''END PRIVATE KEY'' \<in> set vs)"
| "has_valid_private_key (Some v) = (if truthy v then Inl TypeError else Inr False)"

record structure_errors =
  missingFields :: bool
  invalidType :: bool
  invalidEmail :: bool
  invalidPrivateKey :: bool

definition structure_valid :: "structure_errors \<Rightarrow> bool" where
  "structure_valid errs =
     (\<not> missingFields errs \<and> \<not> invalidType errs \<and> \<not> invalidEmail errs \<and>
      \<not> invalidPrivateKey errs)"

text \<open>
  \<^verbatim>\<open>validateServiceAccountStructure\<close> of the Hono server. The result has the four flags of
  \<^verbatim>\<open>errors\<close>; \<^verbatim>\<open>valid\<close> is truthy when none of them is set.
\<close>

definition validateServiceAccountStructure :: "jsval \<Rightarrow> error + structure_errors" where
  "validateServiceAccountStructure serviceAccount =
     (case has_all_fields serviceAccount of Inl e \<Rightarrow> Inl e | Inr hasAllFields \<Rightarrow>
     (case get_property serviceAccount ''type'' of Inl e \<Rightarrow> Inl e | Inr type_value \<Rightarrow>
     (case get_property serviceAccount ''client_email'' of Inl e \<Rightarrow> Inl e | Inr email \<Rightarrow>
     (case has_valid_email email of Inl e \<Rightarrow> Inl e | Inr hasValidEmail \<Rightarrow>
     (case get_property serviceAccount ''private_key'' of Inl e \<Rightarrow> Inl e | Inr key \<Rightarrow>
     (case has_valid_private_key key of Inl e \<Rightarrow> Inl e | Inr hasValidPrivateKey \<Rightarrow>
        Inr \<lparr>missingFields = \<not> hasAllFields,
             invalidType = (type_value \<noteq> Some (JStr ''service_account'')),
             invalidEmail = \<not> hasValidEmail,
             invalidPrivateKey = \<not> hasValidPrivateKey\<rparr>))))))"

subsection \<open>The probes\<close>

text \<open>
  Each probe catches its own exceptions: its result is \<open>Inl\<close> for \<^verbatim>\<open>{ valid: false }\<close> and
  \<open>Inr\<close> for \<^verbatim>\<open>{ valid: true }\<close> with the data it returns.
\<close>

definition validateFirebaseProject ::
  "environment \<Rightarrow> jsval \<Rightarrow> jsval option \<Rightarrow> event list \<Rightarrow> event list \<times> (error + jsval)" where
  "validateFirebaseProject env serviceAccount accessToken tr =
     (case get_property serviceAccount ''project_id'' of Inl e \<Rightarrow> (tr, Inl e) | Inr pid \<Rightarrow>
     (case template pid of Inl e \<Rightarrow> (tr, Inl e) | Inr project \<Rightarrow>
     (case template accessToken of Inl e \<Rightarrow> (tr, Inl e) | Inr bearer \<Rightarrow>
     (case respond env tr (GetProject project bearer) of
        Rejected e \<Rightarrow> (tr @ [Fetch (GetProject project bearer)], Inl e)
      | Response code body \<Rightarrow>
          (tr @ [Fetch (GetProject project bearer)],
           (if \<not> is_ok code then Inl (Error ''Firebase API error'')
            else
              (case body of
                 Inl e \<Rightarrow> Inl e
               | Inr projectData \<Rightarrow>
                   (case get_property projectData ''state'' of
                      Inl e \<Rightarrow> Inl e
                    | Inr state \<Rightarrow>
                        if state \<noteq> Some (JStr ''ACTIVE'')
                        then Inl (Error ''Firebase project is not active'')
                        else Inr projectData))))))))"

definition validateFirestoreAccess ::
  "environment \<Rightarrow> jsval \<Rightarrow> jsval option \<Rightarrow> event list \<Rightarrow> event list \<times> (error + bool)" where
  "validateFirestoreAccess env serviceAccount accessToken tr =
     (case get_property serviceAccount ''project_id'' of Inl e \<Rightarrow> (tr, Inl e) | Inr pid \<Rightarrow>
     (case template pid of Inl e \<Rightarrow> (tr, Inl e) | Inr project \<Rightarrow>
     (case template accessToken of Inl e \<Rightarrow> (tr, Inl e) | Inr bearer \<Rightarrow>
     (case respond env tr (GetDatabase project bearer) of
        Rejected e \<Rightarrow> (tr @ [Fetch (GetDatabase project bearer)], Inl e)
      | Response code body \<Rightarrow>
          if \<not> is_ok code
          then (tr @ [Fetch (GetDatabase project bearer)], Inl (Error ''Firestore API error''))
          else
            (case body of
               Inl e \<Rightarrow> (tr @ [Fetch (GetDatabase project bearer)], Inl e)
             | Inr databaseInfo \<Rightarrow>
                 (case respond env (tr @ [Fetch (GetDatabase project bearer)])
                         (PostListCollectionIds project bearer) of
                    Rejected e \<Rightarrow>
                      (tr @ [Fetch (GetDatabase project bearer),
                             Fetch (PostListCollectionIds project bearer)], Inr False)
                  | Response code' body' \<Rightarrow>
                      (tr @ [Fetch (GetDatabase project bearer),
                             Fetch (PostListCollectionIds project bearer)],
                       Inr (is_ok code'))))))))"

text \<open>
  \<^verbatim>\<open>key.name.includes(serviceAccount.private_key_id)\<close> for one entry of the key list. On a
  string it looks for a substring; on an array it looks for an element, and an object or
  array is no element of an array parsed from another text.
\<close>

fun is_primitive :: "jsval \<Rightarrow> bool" where
  "is_primitive (JArr vs) = False"
| "is_primitive (JObj kvs) = False"
| "is_primitive v = True"

definition key_matches :: "jsval \<Rightarrow> jsval option \<Rightarrow> error + bool" where
  "key_matches key keyId =
     (case get_property key ''name'' of
        Inl e \<Rightarrow> Inl e
      | Inr None \<Rightarrow> Inl TypeError
      | Inr (Some (JStr name)) \<Rightarrow>
          (case template keyId of Inl e \<Rightarrow> Inl e | Inr wanted \<Rightarrow> Inr (String_includes name wanted))
      | Inr (Some (JArr names)) \<Rightarrow>
          Inr (case keyId of
                 None \<Rightarrow> False
               | Some wanted \<Rightarrow> is_primitive wanted \<and> wanted \<in> set names)
      | Inr (Some v) \<Rightarrow> Inl TypeError)"

fun find_key :: "jsval list \<Rightarrow> jsval option \<Rightarrow> error + jsval option" where
  "find_key [] keyId = Inr None"
| "find_key (key # rest) keyId =
     (case key_matches key keyId of
        Inl e \<Rightarrow> Inl e
      | Inr True \<Rightarrow> Inr (Some key)
      | Inr False \<Rightarrow> find_key rest keyId)"

text \<open>
  \<^verbatim>\<open>data.keys?.find(...)\<close>: nothing for a missing or null list, a TypeError for a value
  without a \<^verbatim>\<open>find\<close> method; on an array \<^verbatim>\<open>data.keys\<close> is the inherited iterator method,
  which has none.
\<close>

definition current_key :: "jsval \<Rightarrow> jsval option \<Rightarrow> error + jsval option" where
  "current_key data keyId =
     (case data of
        JArr items \<Rightarrow> Inl TypeError
      | _ \<Rightarrow>
          (case get_property data ''keys'' of
             Inl e \<Rightarrow> Inl e
           | Inr None \<Rightarrow> Inr None
           | Inr (Some JNull) \<Rightarrow> Inr None
           | Inr (Some (JArr keys)) \<Rightarrow> find_key keys keyId
           | Inr (Some v) \<Rightarrow> Inl TypeError))"

text \<open>\<^verbatim>\<open>a < b\<close> on two dates; a comparison with an invalid date is false.\<close>

definition date_less :: "int option \<Rightarrow> int option \<Rightarrow> bool" where
  "date_less a b = (case (a, b) of (Some x, Some y) \<Rightarrow> x < y | _ \<Rightarrow> False)"

definition key_in_window :: "environment \<Rightarrow> jsval \<Rightarrow> error + jsval" where
  "key_in_window env currentKey =
     (case get_property currentKey ''validAfterTime'' of Inl e \<Rightarrow> Inl e | Inr after \<Rightarrow>
     (case get_property currentKey ''validBeforeTime'' of Inl e \<Rightarrow> Inl e | Inr before \<Rightarrow>
        if date_less (Some (current_time env)) (date_value env after)
        then Inl (Error ''Service account key is not yet valid'')
        else if date_less (date_value env before) (Some (current_time env))
        then Inl (Error ''Service account key has expired'')
        else Inr currentKey))"

definition validateServiceAccountKey ::
  "environment \<Rightarrow> jsval \<Rightarrow> jsval option \<Rightarrow> event list \<Rightarrow> event list \<times> (error + jsval)" where
  "validateServiceAccountKey env serviceAccount accessToken tr =
     (case get_property serviceAccount ''project_id'' of Inl e \<Rightarrow> (tr, Inl e) | Inr pid \<Rightarrow>
     (case template pid of Inl e \<Rightarrow> (tr, Inl e) | Inr project \<Rightarrow>
     (case get_property serviceAccount ''client_email'' of Inl e \<Rightarrow> (tr, Inl e) | Inr em \<Rightarrow>
     (case template em of Inl e \<Rightarrow> (tr, Inl e) | Inr email \<Rightarrow>
     (case template accessToken of Inl e \<Rightarrow> (tr, Inl e) | Inr bearer \<Rightarrow>
     (case respond env tr (GetKeys project email bearer) of
        Rejected e \<Rightarrow> (tr @ [Fetch (GetKeys project email bearer)], Inl e)
      | Response code body \<Rightarrow>
          (tr @ [Fetch (GetKeys project email bearer)],
           (if \<not> is_ok code then Inl (Error ''Keys API error'')
            else
              (case body of
                 Inl e \<Rightarrow> Inl e
               | Inr data \<Rightarrow>
                   (case get_property serviceAccount ''private_key_id'' of
                      Inl e \<Rightarrow> Inl e
                    | Inr keyId \<Rightarrow>
                        (case current_key data keyId of
                           Inl e \<Rightarrow> Inl e
                         | Inr None \<Rightarrow>
                             Inl (Error ''Service account key not found in the project'')
                         | Inr (Some currentKey) \<Rightarrow> key_in_window env currentKey)))))))))))"

subsection \<open>validateServiceAccountComplete\<close>

record validation_checks =
  structure_check :: bool
  authentication :: bool
  iam :: bool
  firestore :: bool
  firebase :: bool

record validation_result =
  valid :: bool
  checks :: validation_checks
  accountInfo :: bool
  error_types :: "string list"

text \<open>
  \<open>accountInfo\<close> says whether the account information was attached; \<open>error_types\<close> are the
  \<^verbatim>\<open>type\<close> tags of the entries of \<^verbatim>\<open>errors\<close>, in order.
\<close>

definition initial_checks :: validation_checks where
  "initial_checks =
     \<lparr>structure_check = False, authentication = False, iam = True, firestore = False,
      firebase = False\<rparr>"

definition is_valid :: "error + 'a \<Rightarrow> bool" where
  "is_valid r = (case r of Inl e \<Rightarrow> False | Inr x \<Rightarrow> True)"

definition validateServiceAccountComplete ::
  "environment \<Rightarrow> jsval \<Rightarrow> event list \<Rightarrow> event list \<times> validation_result" where
  "validateServiceAccountComplete env serviceAccount tr =
     (case validateServiceAccountStructure serviceAccount of
        Inl e \<Rightarrow>
          (tr, \<lparr>valid = False, checks = initial_checks, accountInfo = False,
                error_types = [''general'']\<rparr>)
      | Inr structureCheck \<Rightarrow>
          if \<not> structure_valid structureCheck
          then (tr, \<lparr>valid = False, checks = initial_checks, accountInfo = False,
                     error_types = [''structure'']\<rparr>)
          else
            (case getAccessToken env serviceAccount tr of
               (tr1, Inl e) \<Rightarrow>
                 (tr1, \<lparr>valid = False, checks = initial_checks\<lparr>structure_check := True\<rparr>,
                        accountInfo = False, error_types = [''authentication'']\<rparr>)
             | (tr1, Inr accessToken) \<Rightarrow>
                 (case validateFirebaseProject env serviceAccount accessToken tr1 of
                    (tr2, firebaseCheck) \<Rightarrow>
                 (case validateFirestoreAccess env serviceAccount accessToken tr2 of
                    (tr3, firestoreCheck) \<Rightarrow>
                 (case validateServiceAccountKey env serviceAccount accessToken tr3 of
                    (tr4, keyCheck) \<Rightarrow>
                      (tr4,
                       \<lparr>valid = (truthy_opt accessToken \<and> is_valid firebaseCheck),
                        checks =
                          \<lparr>structure_check = True, authentication = truthy_opt accessToken,
                           iam = True, firestore = is_valid firestoreCheck,
                           firebase = is_valid firebaseCheck\<rparr>,
                        accountInfo = True,
                        error_types =
                          (if is_valid firebaseCheck then [] else [''firebase'']) @
                          (if is_valid firestoreCheck then [] else [''firestore''])\<rparr>))))))"

subsection \<open>The handler of /validate-service-account (Hono)\<close>

text \<open>
  The handler replaces the flag on every path: it is true only after a validation that
  returned \<^verbatim>\<open>valid\<close>, which also stores the service account.
\<close>

definition hono_validate_service_account ::
  "environment \<Rightarrow> server_state \<Rightarrow> error + (string \<times> form_value) list \<Rightarrow> event list \<Rightarrow>
   event list \<times> server_state \<times> http_response" where
  "hono_validate_service_account env st body tr =
     (case body of
        Inl e \<Rightarrow> (tr, st\<lparr>isValidServiceAccount := False\<rparr>, reply 500 (Some False))
      | Inr entries \<Rightarrow>
          (case map_of (parseMultipartForm entries []) ''serviceAccount'' of
             None \<Rightarrow> (tr, st\<lparr>isValidServiceAccount := False\<rparr>, reply 400 (Some False))
           | Some [] \<Rightarrow> (tr, st\<lparr>isValidServiceAccount := False\<rparr>, reply 400 (Some False))
           | Some (serviceAccountFile # others) \<Rightarrow>
               (case buffer serviceAccountFile of
                  Inl e \<Rightarrow> (tr, st\<lparr>isValidServiceAccount := False\<rparr>, reply 400 (Some False))
                | Inr serviceAccount \<Rightarrow>
                    (case validateServiceAccountComplete env serviceAccount tr of
                       (tr', validationResult) \<Rightarrow>
                         if \<not> valid validationResult
                         then (tr', st\<lparr>isValidServiceAccount := False\<rparr>, reply 400 (Some False))
                         else (tr',
                               st\<lparr>isValidServiceAccount := True,
                                  SERVICE_ACCOUNT := Some (Inr serviceAccount)\<rparr>,
                               reply 200 (Some True))))))"

subsection \<open>A service account and two environments\<close>

definition demo_account :: jsval where
  "demo_account =
     JObj [(''type'', JStr ''service_account''),
           (''project_id'', JStr ''demo''),
           (''private_key_id'', JStr ''k1''),
           (''private_key'', JStr ''BEGIN PRIVATE KEY END PRIVATE KEY''),
           (''client_email'', JStr ''up@demo.iam.gserviceaccount.com''),
           (''client_id'', JStr ''1''),
           (''auth_uri'', JStr ''a''),
           (''token_uri'', JStr ''t''),
           (''auth_provider_x509_cert_url'', JStr ''p''),
           (''client_x509_cert_url'', JStr ''c'')]"

text \<open>An environment whose project metadata request is answered with status 404, and one
  in which no assertion can be signed.\<close>

definition project_missing :: environment where
  "project_missing =
     obliging\<lparr>respond :=
       (\<lambda>tr req. case req of
          GetProject project bearer \<Rightarrow> Response 404 (Inr (JObj []))
        | _ \<Rightarrow> Response 200 (Inr (JObj [(''access_token'', JStr ''token'')])))\<rparr>"

definition unsigned :: environment where
  "unsigned = obliging\<lparr>sign_jwt := (\<lambda>serviceAccount. Inl (Error ''bad key''))\<rparr>"

text \<open>An environment with an active project that lists the key of the demo account.\<close>

definition healthy :: environment where
  "healthy =
     obliging\<lparr>respond :=
       (\<lambda>tr req. case req of
          GetProject project bearer \<Rightarrow> Response 200 (Inr (JObj [(''state'', JStr ''ACTIVE'')]))
        | GetKeys project email bearer \<Rightarrow>
            Response 200 (Inr (JObj [(''keys'', JArr [JObj [(''name'', JStr ''keys/k1'')]])]))
        | _ \<Rightarrow> Response 200 (Inr (JObj [(''access_token'', JStr ''token'')])))\<rparr>"

section \<open>Lemmas\<close>

subsection \<open>Evaluation rules\<close>

lemma bit_length_eval:
  "bit_length 0 = 0"
  "0 < n \<Longrightarrow> bit_length n = Suc (bit_length (n div 2))"
  using bit_length.simps [of 0] bit_length.simps [of n] by simp_all

lemma show_nat_eval:
  "n < 10 \<Longrightarrow> show_nat n = [digit_char n]"
  "10 \<le> n \<Longrightarrow> show_nat n = show_nat (n div 10) @ [digit_char (n mod 10)]"
  using show_nat.simps [of n] by simp_all

lemma shortest_from_eval:
  "shortest_from x 0 = x"
  "0 < j \<Longrightarrow> shortest_from x j =
     (let p = 10 ^ j; lo = (x div p) * p; hi = lo + p;
          lo_ok = (0 < lo \<and> round_double lo = x); hi_ok = (round_double hi = x)
      in if lo_ok \<and> hi_ok then
           (if x - lo < hi - x then lo
            else if hi - x < x - lo then hi
            else if even (x div p) then lo else hi)
         else if lo_ok then lo
         else if hi_ok then hi
         else shortest_from x (j - 1))"
  using shortest_from.simps [of x 0] shortest_from.simps [of x j] by simp_all

lemma strip_zeros_eval:
  "0 < a \<Longrightarrow> a mod 10 = 0 \<Longrightarrow> strip_zeros a z = strip_zeros (a div 10) (z + 1)"
  "a = 0 \<or> a mod 10 \<noteq> 0 \<Longrightarrow> strip_zeros a z = (a, z)"
  using strip_zeros.simps [of a z] by auto

lemma is_integral_Ints: "is_integral q \<longleftrightarrow> q \<in> \<int>"
proof
  assume "is_integral q"
  obtain a b where ab: "quotient_of q = (a, b)" by (cases "quotient_of q")
  with \<open>is_integral q\<close> have "b = 1" by (simp add: is_integral_def)
  with quotient_of_div [OF ab] show "q \<in> \<int>" by simp
next
  assume "q \<in> \<int>"
  then obtain z where "q = of_int z" by (auto elim: Ints_cases)
  then show "is_integral q" by (simp add: is_integral_def)
qed

lemma is_integral_of_int_divide:
  assumes "b \<noteq> 0"
  shows "is_integral (of_int a / of_int b) = (b dvd a)"
proof
  assume "is_integral (of_int a / of_int b)"
  then obtain z where z: "(of_int a / of_int b :: rat) = of_int z"
    by (auto simp: is_integral_Ints elim: Ints_cases)
  with assms have "(of_int a :: rat) = of_int (z * b)"
    by (simp add: field_simps)
  then have "a = z * b"
    by (simp only: of_int_eq_iff)
  then show "b dvd a" by simp
next
  assume "b dvd a"
  then show "is_integral (of_int a / of_int b)"
    unfolding is_integral_Ints by (rule of_int_divide_in_Ints)
qed

lemma is_integral_eval:
  "is_integral 0" "is_integral 1" "is_integral (numeral k)" "is_integral (- q) = is_integral q"
  "is_integral (numeral a / numeral b) = ((numeral b :: int) dvd numeral a)"
  using is_integral_of_int_divide [of "numeral b" "numeral a"]
  by (simp_all add: is_integral_Ints)

lemma scale_up_eval:
  "is_integral q \<Longrightarrow> scale_up fuel q t = (q, t)"
  "scale_up 0 q t = (q, t)"
  "0 < fuel \<Longrightarrow> \<not> is_integral q \<Longrightarrow> scale_up fuel q t = scale_up (fuel - 1) (q * 10) (t + 1)"
  using scale_up.simps [of fuel q t] scale_up.simps [of 0 q t] by simp_all

lemmas number_eval =
  bit_length_eval show_nat_eval shortest_from_eval strip_zeros_eval is_integral_eval
  scale_up_eval decimal_parts_def positive_toString_def digit_char_def parseInt_def
  parseInt_string_def is_white_space_def is_radix_digit_def digit_value_def
  number_of_integer_def round_double_def shortest_decimal_def Let_def set_property_def

subsection \<open>The decoder on encoded values\<close>

lemma parseInt_JStr: "parseInt (JStr s) = Inr (parseInt_string s)"
  by (simp add: parseInt_def)

lemma convert_elements_map: "convert_elements vs = map field_value vs"
  by (induction vs) simp_all

lemma update_subset: "(k, w) \<in> set (AList.update key v obj) \<Longrightarrow> (k, w) \<in> set obj \<or> w = v"
  by (induction obj) (auto split: if_splits)

lemma set_property_subset:
  "(k, w) \<in> set (set_property obj key v) \<Longrightarrow> (k, w) \<in> set obj \<or> w = v"
  by (auto simp: set_property_def dest: update_subset split: if_splits)

lemma convert_entries_values:
  "(k, w) \<in> set (convert_entries acc kvs) \<Longrightarrow>
     (k, w) \<in> set acc \<or> (\<exists>v \<in> snd ` set kvs. w = field_value v)"
proof (induction kvs arbitrary: acc)
  case Nil
  then show ?case by simp
next
  case (Cons kv kvs)
  obtain key v where kv: "kv = (key, v)" by (cases kv)
  from Cons.prems kv have "(k, w) \<in> set (convert_entries (set_property acc key (field_value v)) kvs)"
    by simp
  from Cons.IH [OF this] show ?case
  proof
    assume "(k, w) \<in> set (set_property acc key (field_value v))"
    then show ?thesis using set_property_subset kv by fastforce
  next
    assume "\<exists>v \<in> snd ` set kvs. w = field_value v"
    then show ?thesis by auto
  qed
qed

lemma assign_all_total:
  "(\<And>k r. (k, r) \<in> set rs \<Longrightarrow> \<exists>v. r = Inr v) \<Longrightarrow> \<exists>v. assign_all obj rs = Inr v"
proof (induction rs arbitrary: obj)
  case Nil
  then show ?case by simp
next
  case (Cons kr rs)
  obtain k r where kr: "kr = (k, r)" by (cases kr)
  with Cons.prems [of k r] obtain v where v: "r = Inr v" by auto
  have "\<exists>v'. assign_all (set_property obj k v) rs = Inr v'"
    by (rule Cons.IH) (use Cons.prems in auto)
  with kr v show ?case by simp
qed

lemma sequence_total:
  "(\<And>r. r \<in> set rs \<Longrightarrow> \<exists>v. r = Inr v) \<Longrightarrow> \<exists>vs. sequence rs = Inr vs"
proof (induction rs)
  case Nil
  then show ?case by simp
next
  case (Cons r rs)
  from Cons.prems [of r] obtain v where "r = Inr v" by auto
  moreover from Cons obtain vs where "sequence rs = Inr vs" by auto
  ultimately show ?case by simp
qed

lemma decode_encode_total: "\<exists>r. parseFirestoreValue (field_value v) = Inr r"
proof (induction v)
  case (JNum x)
  then show ?case by (simp add: parseInt_JStr)
next
  case (JArr vs)
  have "\<exists>rs. sequence (map parseFirestoreValue (convert_elements vs)) = Inr rs"
    by (rule sequence_total) (use JArr in \<open>auto simp: convert_elements_map\<close>)
  then show ?case by auto
next
  case (JObj kvs)
  have "\<exists>r. assign_all [] (map (\<lambda>(k, w). (k, parseFirestoreValue w)) (convert_entries [] kvs)) = Inr r"
  proof (rule assign_all_total)
    fix k r
    assume "(k, r) \<in> set (map (\<lambda>(k, w). (k, parseFirestoreValue w)) (convert_entries [] kvs))"
    then obtain w where w: "(k, w) \<in> set (convert_entries [] kvs)" "r = parseFirestoreValue w"
      by auto
    from convert_entries_values [OF w(1)] obtain kv where "kv \<in> set kvs" "w = field_value (snd kv)"
      by auto
    with JObj w(2) show "\<exists>v. r = Inr v" by (cases kv) auto
  qed
  then show ?case by auto
qed simp_all

subsection \<open>Where the decoder returns\<close>

lemma sequence_returns:
  "(\<exists>rs. sequence (map f xs) = Inr rs) \<longleftrightarrow> (\<forall>x \<in> set xs. \<exists>r. f x = Inr r)"
proof (induction xs)
  case Nil
  then show ?case by simp
next
  case (Cons x xs)
  then show ?case
    by (cases "f x"; cases "sequence (map f xs)") auto
qed

lemma assign_all_returns:
  "(\<exists>r. assign_all obj (map (\<lambda>(k, w). (k, f w)) es) = Inr r) \<longleftrightarrow>
     (\<forall>w \<in> snd ` set es. \<exists>r. f w = Inr r)"
proof (induction es arbitrary: obj)
  case Nil
  then show ?case by simp
next
  case (Cons kw es)
  obtain k w where kw: "kw = (k, w)" by (cases kw)
  show ?case
  proof (cases "f w")
    case (Inl e)
    with kw show ?thesis by auto
  next
    case (Inr r)
    with kw Cons [of "set_property obj k r"] show ?thesis by auto
  qed
qed

lemma map_fields_throws: "(\<exists>es. map_fields p = Inr es) \<longleftrightarrow> p \<noteq> JNull"
proof (cases p)
  case (JObj kvs)
  show ?thesis
  proof (cases "map_of kvs ''fields''")
    case None
    with JObj show ?thesis by simp
  next
    case (Some f)
    with JObj show ?thesis by (cases f) auto
  qed
qed auto

lemma array_values_throws: "(\<exists>arr. array_values p = Inr arr) \<longleftrightarrow> \<not> unusable_array_payload p"
proof (cases p)
  case (JObj kvs)
  show ?thesis
  proof (cases "map_of kvs ''values''")
    case None
    with JObj show ?thesis by simp
  next
    case (Some a)
    with JObj show ?thesis by (cases a) auto
  qed
qed auto

lemma parseInt_returns: "(\<exists>n. parseInt p = Inr n) \<longleftrightarrow> (\<exists>s. ToString p = Inr s)"
  by (cases "ToString p") (auto simp: parseInt_def)

lemma decoder_step:
  "(\<exists>r. parseFirestoreValue v = Inr r) \<longleftrightarrow>
     \<not> throws_here v \<and> (\<forall>w \<in> set (nested_values v). \<exists>r. parseFirestoreValue w = Inr r)"
proof (cases v)
  case (JObj kvs)
  show ?thesis
  proof (cases "map_of kvs ''stringValue''")
    case (Some p)
    with JObj show ?thesis by (simp add: dispatch_def recognized_tags_def)
  next
    case s: None
    show ?thesis
    proof (cases "map_of kvs ''integerValue''")
      case (Some p)
      with JObj s parseInt_returns [of p] show ?thesis
        by (cases "parseInt p"; cases "ToString p") (simp_all add: dispatch_def recognized_tags_def)
    next
      case i: None
      show ?thesis
      proof (cases "map_of kvs ''doubleValue''")
        case (Some p)
        with JObj s i show ?thesis by (simp add: dispatch_def recognized_tags_def)
      next
        case d: None
        show ?thesis
        proof (cases "map_of kvs ''booleanValue''")
          case (Some p)
          with JObj s i d show ?thesis by (simp add: dispatch_def recognized_tags_def)
        next
          case b: None
          show ?thesis
          proof (cases "map_of kvs ''nullValue''")
            case (Some p)
            with JObj s i d b show ?thesis by (simp add: dispatch_def recognized_tags_def)
          next
            case n: None
            show ?thesis
            proof (cases "map_of kvs ''mapValue''")
              case (Some p)
              show ?thesis
              proof (cases "map_fields p")
                case (Inl e)
                with map_fields_throws [of p] have "p = JNull" by auto
                with JObj s i d b n Some show ?thesis
                  by (simp add: dispatch_def recognized_tags_def)
              next
                case (Inr es)
                with map_fields_throws [of p] have "p \<noteq> JNull" by auto
                with JObj s i d b n Some Inr
                  assign_all_returns [of "[]" parseFirestoreValue es]
                show ?thesis
                  by (simp add: dispatch_def recognized_tags_def)
              qed
            next
              case m: None
              show ?thesis
              proof (cases "map_of kvs ''arrayValue''")
                case (Some p)
                show ?thesis
                proof (cases "array_values p")
                  case (Inl e)
                  with array_values_throws [of p] have "unusable_array_payload p" by auto
                  with JObj s i d b n m Some Inl show ?thesis
                    by (simp add: dispatch_def recognized_tags_def)
                next
                  case (Inr arr)
                  with array_values_throws [of p] have ok: "\<not> unusable_array_payload p" by auto
                  have "(\<exists>r. parseFirestoreValue v = Inr r) \<longleftrightarrow>
                      (\<exists>rs. sequence (map parseFirestoreValue arr) = Inr rs)"
                    using JObj s i d b n m Some Inr
                    by (cases "sequence (map parseFirestoreValue arr)") simp_all
                  with JObj s i d b n m Some Inr ok sequence_returns [of parseFirestoreValue arr]
                  show ?thesis
                    by (simp add: dispatch_def recognized_tags_def)
                qed
              next
                case None
                with JObj s i d b n m show ?thesis
                  by (simp add: dispatch_def recognized_tags_def)
              qed
            qed
          qed
        qed
      qed
    qed
  qed
qed simp_all

lemma decoder_returns_visited:
  "(\<exists>r. parseFirestoreValue v = Inr r) \<longleftrightarrow> list_all (\<lambda>u. \<not> throws_here u) (visited v)"
proof (induction v rule: visited.induct)
  case (1 v)
  have "(\<exists>r. parseFirestoreValue v = Inr r) \<longleftrightarrow>
      \<not> throws_here v \<and> (\<forall>w \<in> set (nested_values v). \<exists>r. parseFirestoreValue w = Inr r)"
    by (rule decoder_step)
  also have "\<dots> \<longleftrightarrow>
      \<not> throws_here v \<and>
      (\<forall>w \<in> set (nested_values v). list_all (\<lambda>u. \<not> throws_here u) (visited w))"
    using 1 by auto
  also have "\<dots> \<longleftrightarrow> list_all (\<lambda>u. \<not> throws_here u) (visited v)"
    by (subst (2) visited.simps) (auto simp: list_all_iff)
  finally show ?case .
qed

subsection \<open>Batches and commits\<close>

lemma contiguous_runs_Nil [simp]: "contiguous_runs n [] = []"
  by (simp add: contiguous_runs.simps)

lemma contiguous_runs_step:
  "0 < n \<Longrightarrow> xs \<noteq> [] \<Longrightarrow> contiguous_runs n xs = take n xs # contiguous_runs n (drop n xs)"
  by (subst contiguous_runs.simps) simp

lemma concat_contiguous_runs: "0 < n \<Longrightarrow> concat (contiguous_runs n xs) = xs"
proof (induction "length xs" arbitrary: xs rule: less_induct)
  case less
  show ?case
  proof (cases "xs = []")
    case True
    then show ?thesis by simp
  next
    case False
    with less.prems have "length (drop n xs) < length xs" by simp
    from less.hyps [OF this less.prems] False less.prems show ?thesis
      by (simp add: contiguous_runs_step)
  qed
qed

lemma contiguous_runs_bounded:
  "0 < n \<Longrightarrow> r \<in> set (contiguous_runs n xs) \<Longrightarrow> r \<noteq> [] \<and> length r \<le> n"
proof (induction "length xs" arbitrary: xs rule: less_induct)
  case less
  show ?case
  proof (cases "xs = []")
    case True
    with less.prems show ?thesis by simp
  next
    case False
    with less.prems have shorter: "length (drop n xs) < length xs" by simp
    from less.prems False have "r = take n xs \<or> r \<in> set (contiguous_runs n (drop n xs))"
      by (simp add: contiguous_runs_step)
    then show ?thesis
    proof
      assume "r = take n xs"
      with False less.prems show ?thesis by simp
    next
      assume "r \<in> set (contiguous_runs n (drop n xs))"
      with less.hyps [OF shorter less.prems(1)] show ?thesis by simp
    qed
  qed
qed

lemma commit_attempts_all_fail:
  assumes "\<And>tr'. \<not> commit_ok env tr' b" and "attempt \<le> retries"
  shows "commit_attempts env b retries attempt tr =
    (tr @ concat (map (\<lambda>k. [Commit b False, Sleep (2 ^ k * 1000)]) [attempt..<retries]) @
       [Commit b False], Inl SdkError)"
  using assms(2)
proof (induction "retries - attempt" arbitrary: attempt tr)
  case 0
  then have "attempt = retries" by simp
  with assms(1) show ?case by (subst commit_attempts.simps) simp
next
  case (Suc d)
  then have lt: "attempt < retries" and d: "d = retries - (attempt + 1)" by simp_all
  from lt have le: "attempt + 1 \<le> retries" by simp
  have up: "[attempt..<retries] = attempt # [attempt + 1..<retries]"
    using lt by (simp add: upt_conv_Cons)
  show ?case
    using assms(1) lt Suc.hyps(1) [OF d le] by (subst commit_attempts.simps) (simp add: up)
qed

lemma commit_attempts_first_ok:
  "commit_ok env tr b \<Longrightarrow> 0 < retries \<Longrightarrow>
   commitBatchWithRetry env b retries tr = (tr @ [Commit b True], Inr True)"
  unfolding commitBatchWithRetry_def by (subst commit_attempts.simps) simp

lemma ceil_div_step:
  assumes "0 < n" and "0 < m"
  shows "(m + n - 1) div n = Suc ((m - n + n - 1) div n)"
proof -
  have a: "(k + n) div n = Suc (k div n)" for k using assms(1) by simp
  have b: "m + n - 1 = (m - 1) + n" using assms by simp
  show ?thesis
  proof (cases "n \<le> m")
    case True
    then have "m - n + n - 1 = m - 1" by simp
    with a [of "m - 1"] b show ?thesis by (simp only:)
  next
    case False
    then have "m - n + n - 1 = n - 1" "(m - 1) div n = 0" "(n - 1) div n = 0"
      using assms by simp_all
    with a [of "m - 1"] b show ?thesis by (simp only:)
  qed
qed

lemma length_contiguous_runs:
  "0 < n \<Longrightarrow> length (contiguous_runs n xs) = (length xs + n - 1) div n"
proof (induction "length xs" arbitrary: xs rule: less_induct)
  case less
  show ?case
  proof (cases "xs = []")
    case True
    with less.prems show ?thesis by simp
  next
    case False
    with less.prems have shorter: "length (drop n xs) < length xs" by simp
    have "length (contiguous_runs n xs) = Suc (length (contiguous_runs n (drop n xs)))"
      using False less.prems by (simp add: contiguous_runs_step)
    also have "\<dots> = Suc ((length xs - n + n - 1) div n)"
      using less.hyps [OF shorter less.prems] by simp
    also have "\<dots> = (length xs + n - 1) div n"
      using ceil_div_step [of n "length xs"] False less.prems by simp
    finally show ?thesis .
  qed
qed

lemma batch_accepted_all: "sdk_accepts env \<Longrightarrow> batch_accepted env ws"
  by (induction ws) (auto simp: batch_accepted_def sdk_accepts_def split: batch_write.splits)

lemma commit_calls_append [simp]: "commit_calls (tr @ tr') = commit_calls tr @ commit_calls tr'"
  by (induction tr rule: commit_calls.induct) simp_all

lemma committed_append [simp]: "committed (tr @ tr') = committed tr @ committed tr'"
  by (induction tr rule: committed.induct) simp_all

lemma requests_append [simp]: "requests (tr @ tr') = requests tr @ requests tr'"
  by (induction tr rule: requests.induct) simp_all

lemma script_batch_slice:
  "script_batch c i (take n (drop i data)) = take n (drop i (script_batch c 0 data))"
proof (rule nth_equalityI)
  show "length (script_batch c i (take n (drop i data))) =
      length (take n (drop i (script_batch c 0 data)))"
    by (simp add: script_batch_def)
next
  fix j
  assume "j < length (script_batch c i (take n (drop i data)))"
  then have j: "j < n" "j < length data - i" by (simp_all add: script_batch_def)
  then have "i + j < length data" by simp
  with j show "script_batch c i (take n (drop i data)) ! j =
      take n (drop i (script_batch c 0 data)) ! j"
    by (simp add: script_batch_def add.commute)
qed

lemma script_loop_all_ok:
  assumes "0 < n" and "sdk_accepts env" and "commits_succeed env"
  shows "\<exists>tr'. script_loop env c n data i u tr = Some (tr', Inr (u + (length data - i))) \<and>
     commit_calls tr' = commit_calls tr @ contiguous_runs n (drop i (script_batch c 0 data)) \<and>
     committed tr' = committed tr @ contiguous_runs n (drop i (script_batch c 0 data))"
proof (induction "length data - i" arbitrary: i u tr rule: less_induct)
  case less
  have len: "length (script_batch c 0 data) = length data"
    by (simp add: script_batch_def)
  show ?case
  proof (cases "i < length data")
    case False
    then show ?thesis by (subst script_loop.simps) (simp add: len)
  next
    case True
    let ?b = "script_batch c i (take n (drop i data))"
    let ?tr = "tr @ [Commit ?b True, Sleep 1000]"
    from True assms(1) have "length data - (i + n) < length data - i" by simp
    from less.hyps [OF this, of "u + length (take n (drop i data))" ?tr]
    obtain tr' where tr':
      "script_loop env c n data (i + n) (u + length (take n (drop i data))) ?tr =
         Some (tr', Inr (u + length (take n (drop i data)) + (length data - (i + n))))"
      "commit_calls tr' = commit_calls ?tr @ contiguous_runs n (drop (i + n) (script_batch c 0 data))"
      "committed tr' = committed ?tr @ contiguous_runs n (drop (i + n) (script_batch c 0 data))"
      by blast
    have runs: "contiguous_runs n (drop i (script_batch c 0 data)) =
        ?b # contiguous_runs n (drop (i + n) (script_batch c 0 data))"
      using True assms(1) len
      by (subst contiguous_runs_step) (simp_all add: script_batch_slice add.commute)
    have count: "u + length (take n (drop i data)) + (length data - (i + n)) = u + (length data - i)"
      using True by (simp add: min_def)
    have "script_loop env c n data i u tr =
        script_loop env c n data (i + n) (u + length (take n (drop i data))) ?tr"
      using True assms(2,3) batch_accepted_all [OF assms(2)]
      by (subst script_loop.simps) (simp add: commits_succeed_def)
    with tr' runs count show ?thesis by simp
  qed
qed

lemma select_id_document_id:
  "doc \<noteq> JNull \<Longrightarrow> select_id doc fallback = Inr (document_id doc fallback)"
  by (cases doc) (auto simp: select_id_def document_id_def split: option.splits)

lemma express_writes_Nil [simp]: "express_writes env c i [] = []"
  by (simp add: express_writes_def)

lemma express_writes_Cons:
  "express_writes env c i (doc # rest) =
     Write c (document_id doc (JStr (auto_id env i))) (strip_id doc) #
     express_writes env c (i + 1) rest"
  by (simp add: express_writes_def upt_conv_Cons del: upt_Suc)

lemma contiguous_runs_full:
  "0 < n \<Longrightarrow> length b = n \<Longrightarrow> contiguous_runs n (b @ ws) = b # contiguous_runs n ws"
  by (subst contiguous_runs_step) auto

lemma contiguous_runs_short:
  assumes "b \<noteq> []" and "length b \<le> n"
  shows "contiguous_runs n b = [b]"
proof -
  from assms have "0 < n" by (cases b) auto
  with assms show ?thesis by (subst contiguous_runs_step) auto
qed

lemma express_documents_all_ok:
  assumes "sdk_accepts env" and "commits_succeed env"
  shows "JNull \<notin> set docs \<Longrightarrow> length batch < batchSize \<Longrightarrow> (docs = [] \<longrightarrow> batch = []) \<Longrightarrow>
    \<exists>tr'. express_documents env c i docs batch sc tr = (tr', Inr (sc + length batch + length docs)) \<and>
      commit_calls tr' = commit_calls tr @ contiguous_runs batchSize (batch @ express_writes env c i docs) \<and>
      committed tr' = committed tr @ contiguous_runs batchSize (batch @ express_writes env c i docs)"
proof (induction docs arbitrary: i batch sc tr)
  case Nil
  then show ?case by simp
next
  case (Cons doc rest)
  let ?w = "Write c (document_id doc (JStr (auto_id env i))) (strip_id doc)"
  let ?b = "batch @ [?w]"
  from Cons.prems have doc: "doc \<noteq> JNull" and rest: "JNull \<notin> set rest" by auto
  have pos: "0 < batchSize" by (simp add: batchSize_def)
  have accepted: "collection_ok env c \<and> ref_ok env c (document_id doc (JStr (auto_id env i))) \<and>
      data_ok env (strip_id doc)"
    using assms(1) by (simp add: sdk_accepts_def)
  have split: "batch @ express_writes env c i (doc # rest) = ?b @ express_writes env c (i + 1) rest"
    by (simp add: express_writes_Cons)
  show ?case
  proof (cases "length ?b = batchSize \<or> rest = []")
    case True
    have commit: "commitBatchWithRetry env ?b 3 tr = (tr @ [Commit ?b True], Inr True)"
      using assms(2) by (intro commit_attempts_first_ok) (simp_all add: commits_succeed_def)
    from Cons.IH [OF rest, of "[]" "i + 1" "sc + length ?b" "tr @ [Commit ?b True] @ [Sleep 1000]"] pos
    obtain tr' where tr':
      "express_documents env c (i + 1) rest [] (sc + length ?b) (tr @ [Commit ?b True] @ [Sleep 1000]) =
         (tr', Inr (sc + length ?b + length rest))"
      "commit_calls tr' = commit_calls tr @ [?b] @ contiguous_runs batchSize (express_writes env c (i + 1) rest)"
      "committed tr' = committed tr @ [?b] @ contiguous_runs batchSize (express_writes env c (i + 1) rest)"
      by auto
    have runs: "contiguous_runs batchSize (?b @ express_writes env c (i + 1) rest) =
        ?b # contiguous_runs batchSize (express_writes env c (i + 1) rest)"
    proof (cases "length ?b = batchSize")
      case True
      then show ?thesis using pos by (rule contiguous_runs_full [rotated])
    next
      case False
      with \<open>length ?b = batchSize \<or> rest = []\<close> have "rest = []" by simp
      moreover have "contiguous_runs batchSize ?b = [?b]"
        using Cons.prems(2) by (intro contiguous_runs_short) simp_all
      ultimately show ?thesis by simp
    qed
    have "express_documents env c i (doc # rest) batch sc tr =
        express_documents env c (i + 1) rest [] (sc + length ?b) (tr @ [Commit ?b True] @ [Sleep 1000])"
      using True accepted commit by (simp add: select_id_document_id [OF doc])
    with tr' runs split show ?thesis by simp
  next
    case False
    then have shorter: "length ?b < batchSize" and more: "rest \<noteq> []"
      using Cons.prems(2) by simp_all
    from Cons.IH [OF rest shorter, of "i + 1" sc tr] more
    obtain tr' where tr':
      "express_documents env c (i + 1) rest ?b sc tr = (tr', Inr (sc + length ?b + length rest))"
      "commit_calls tr' = commit_calls tr @ contiguous_runs batchSize (?b @ express_writes env c (i + 1) rest)"
      "committed tr' = committed tr @ contiguous_runs batchSize (?b @ express_writes env c (i + 1) rest)"
      by auto
    have "express_documents env c i (doc # rest) batch sc tr =
        express_documents env c (i + 1) rest ?b sc tr"
      using False accepted by (simp add: select_id_document_id [OF doc])
    with tr' split show ?thesis by simp
  qed
qed

subsection \<open>Documents and files\<close>

lemma convert_entries_keys:
  "fst ` set (convert_entries acc kvs) = fst ` set acc \<union> (fst ` set kvs - {''__proto__''})"
proof (induction kvs arbitrary: acc)
  case Nil
  then show ?case by simp
next
  case (Cons kv kvs)
  obtain k v where kv: "kv = (k, v)" by (cases kv)
  show ?case
    unfolding kv using Cons.IH [of "set_property acc k (field_value v)"]
    by (auto simp: set_property_def dom_update)
qed

lemma persisted_key:
  assumes "map_of kvs k = Some v" and "k \<noteq> ''__proto__''"
  shows "\<exists>w t. convertToFirestoreFields (JObj kvs) = Inr (JObj w) \<and> map_of w k = Some t"
proof -
  from assms(1) have "(k, v) \<in> set kvs" by (rule map_of_SomeD)
  then have "k \<in> fst ` set kvs" by force
  with assms(2) have "k \<in> fst ` set (convert_entries [] kvs)"
    by (simp add: convert_entries_keys)
  then have "map_of (convert_entries [] kvs) k \<noteq> None"
    by (simp add: map_of_eq_None_iff)
  then obtain t where "map_of (convert_entries [] kvs) k = Some t" by auto
  then show ?thesis by (simp add: convertToFirestoreFields_def)
qed

lemma normalized_ids:
  assumes "'''' \<notin> fst ` set kvs"
  shows "map (\<lambda>d. (select_id d fallback, strip_id d))
       (map (\<lambda>(id, data). JObj (AList.update ''_id'' (JStr id) (own_properties data))) kvs) =
     map (\<lambda>(id, data). (Inr (JStr id), JObj (AList.delete ''_id'' (own_properties data)))) kvs"
  using assms
proof (induction kvs)
  case Nil
  then show ?case by simp
next
  case (Cons kv kvs)
  obtain id data where kv: "kv = (id, data)" by (cases kv)
  with Cons.prems have id: "id \<noteq> []" by auto
  have look: "map_of (AList.update ''_id'' (JStr id) (own_properties data)) ''_id'' = Some (JStr id)"
    by (simp add: update_conv')
  from Cons kv id look show ?case
    by (simp add: select_id_def delete_update_same)
qed

lemma express_file_parse_error:
  "buffer file = Inl e \<Longrightarrow>
   express_file env file tr = (tr, file_failed (path_name env (originalFilename file)) e None)"
  by (simp add: express_file_def)

lemma express_file_collection:
  "collection (snd (express_file env file tr)) = path_name env (originalFilename file)"
  by (auto simp: express_file_def file_failed_def split: sum.splits prod.splits)

lemma express_files_collections:
  "map collection (snd (express_files env files rs tr)) =
     map collection rs @ map (\<lambda>f. path_name env (originalFilename f)) files"
proof (induction files arbitrary: rs tr)
  case Nil
  then show ?case by simp
next
  case (Cons f fs)
  obtain tr' r where r: "express_file env f tr = (tr', r)" by (cases "express_file env f tr")
  with express_file_collection [of env f tr] Cons.IH [of "rs @ [r]" tr'] show ?case by simp
qed

lemma parseMultipartForm_single:
  "map_of (parseMultipartForm entries files) k = Some fs \<Longrightarrow>
     map_of files k = Some fs \<or> length fs = 1"
proof (induction entries files rule: parseMultipartForm.induct)
  case (2 key name content rest files)
  then show ?case
    by (auto simp: set_property_def update_conv' split: if_splits)
qed simp_all

lemma script_batch_data: "map write_data (script_batch c i xs) = xs"
  by (simp add: script_batch_def case_prod_unfold o_def)

lemma express_writes_data: "map write_data (express_writes env c i docs) = map strip_id docs"
  by (induction docs arbitrary: i) (simp_all add: express_writes_Cons)

subsection \<open>The requests of the Hono loop\<close>

lemma uploadDocument_sends:
  assumes "template pid = Inr project" and "ToString docId = Inr printed"
    and "template tok = Inr bearer" and "convertToFirestoreFields d = Inr wire"
  shows "\<exists>r. uploadDocument env pid tok c docId d tr =
     (tr @ [Fetch (PatchDocument project c printed bearer (JSON_stringify wire))], r)"
  using assms by (simp add: uploadDocument_def split: fetch_result.splits)

lemma uploadDocument_extends:
  "\<exists>evs. fst (uploadDocument env pid tok c docId d tr) = tr @ evs"
  by (auto simp: uploadDocument_def split: sum.splits fetch_result.splits)

lemma hono_documents_extends:
  "\<exists>evs. fst (hono_documents env sa tok c i docs n tr) = tr @ evs"
proof (induction docs arbitrary: i n tr)
  case Nil
  then show ?case by simp
next
  case (Cons doc rest)
  let ?fallback = "JStr (''doc_'' @ show_nat (clock env i) @ ''_'' @ show_nat i)"
  show ?case
  proof (cases "select_id doc ?fallback")
    case (Inl e)
    then show ?thesis by simp
  next
    case (Inr docId)
    let ?up = "case get_property sa ''project_id'' of
        Inl e \<Rightarrow> (tr, Inl e)
      | Inr projectId \<Rightarrow> uploadDocument env projectId tok c docId (strip_id doc) tr"
    obtain tr' r where up: "?up = (tr', r)" by (cases ?up)
    have "\<exists>evs. tr' = tr @ evs"
    proof (cases "get_property sa ''project_id''")
      case (Inl e)
      with up show ?thesis by simp
    next
      case (Inr projectId)
      with up uploadDocument_extends [of env projectId tok c docId "strip_id doc" tr]
      show ?thesis by simp
    qed
    then obtain evs where evs: "tr' = tr @ evs" ..
    show ?thesis
    proof (cases r)
      case (Inl docError)
      show ?thesis
      proof (cases "ToString docId")
        case e: (Inl e')
        with Inr up Inl evs show ?thesis by simp
      next
        case p: (Inr printed)
        from Cons.IH [of "i + 1" n tr'] obtain evs' where
          "fst (hono_documents env sa tok c (i + 1) rest n tr') = tr' @ evs'" ..
        with Inr up Inl p evs show ?thesis by simp
      qed
    next
      case ok: (Inr ok)
      let ?tr = "if i mod 10 = 0 then tr' @ [Sleep 1000] else tr'"
      let ?n = "if ok then n + 1 else n"
      from Cons.IH [of "i + 1" ?n ?tr] obtain evs' where
        "fst (hono_documents env sa tok c (i + 1) rest ?n ?tr) = ?tr @ evs'" ..
      with Inr up ok evs show ?thesis by (cases "i mod 10 = 0") simp_all
    qed
  qed
qed

lemma hono_documents_sends:
  assumes "select_id doc (JStr (''doc_'' @ show_nat (clock env i) @ ''_'' @ show_nat i)) = Inr docId"
    and "get_property sa ''project_id'' = Inr pid" and "template pid = Inr project"
    and "template tok = Inr bearer" and "ToString docId = Inr printed"
    and "convertToFirestoreFields (strip_id doc) = Inr wire"
  shows "\<exists>n' evs. hono_documents env sa tok c i (doc # rest) n tr =
      hono_documents env sa tok c (i + 1) rest n'
        (tr @ Fetch (PatchDocument project c printed bearer (JSON_stringify wire)) # evs) \<and>
      requests evs = []"
proof -
  let ?p = "Fetch (PatchDocument project c printed bearer (JSON_stringify wire))"
  from uploadDocument_sends [OF assms(3,5,4,6), of env c tr]
  obtain r where up: "uploadDocument env pid tok c docId (strip_id doc) tr = (tr @ [?p], r)" ..
  show ?thesis
  proof (cases r)
    case (Inl docError)
    with assms up have "hono_documents env sa tok c i (doc # rest) n tr =
        hono_documents env sa tok c (i + 1) rest n (tr @ ?p # [])"
      by simp
    then show ?thesis by (intro exI [of _ n] exI [of _ "[]"]) simp
  next
    case (Inr ok)
    show ?thesis
    proof (cases "i mod 10 = 0")
      case True
      with assms up Inr have "hono_documents env sa tok c i (doc # rest) n tr =
          hono_documents env sa tok c (i + 1) rest (if ok then n + 1 else n)
            (tr @ ?p # [Sleep 1000])"
        by simp
      then show ?thesis
        by (intro exI [of _ "if ok then n + 1 else n"] exI [of _ "[Sleep 1000]"]) simp
    next
      case False
      with assms up Inr have "hono_documents env sa tok c i (doc # rest) n tr =
          hono_documents env sa tok c (i + 1) rest (if ok then n + 1 else n) (tr @ ?p # [])"
        by simp
      then show ?thesis
        by (intro exI [of _ "if ok then n + 1 else n"] exI [of _ "[]"]) simp
    qed
  qed
qed

lemma hono_documents_first_request:
  assumes "select_id doc (JStr (''doc_'' @ show_nat (clock env i) @ ''_'' @ show_nat i)) = Inr docId"
    and "get_property sa ''project_id'' = Inr pid" and "template pid = Inr project"
    and "template tok = Inr bearer" and "ToString docId = Inr printed"
    and "convertToFirestoreFields (strip_id doc) = Inr wire"
  shows "\<exists>evs. fst (hono_documents env sa tok c i (doc # rest) n tr) =
      tr @ Fetch (PatchDocument project c printed bearer (JSON_stringify wire)) # evs"
proof -
  let ?p = "Fetch (PatchDocument project c printed bearer (JSON_stringify wire))"
  from hono_documents_sends [OF assms, of c rest n tr] obtain n' evs where
    step: "hono_documents env sa tok c i (doc # rest) n tr =
      hono_documents env sa tok c (i + 1) rest n' (tr @ ?p # evs)" by blast
  from hono_documents_extends [of env sa tok c "i + 1" rest n' "tr @ ?p # evs"]
  obtain evs' where "fst (hono_documents env sa tok c (i + 1) rest n' (tr @ ?p # evs)) =
      (tr @ ?p # evs) @ evs'" ..
  with step show ?thesis by simp
qed

lemma hono_documents_requests:
  assumes "get_property sa ''project_id'' = Inr pid" and "template pid = Inr project"
    and "template tok = Inr bearer"
  shows "length ps = length docs \<Longrightarrow>
    (\<And>j. j < length docs \<Longrightarrow>
       \<exists>docId printed wire.
         select_id (docs ! j) (JStr (''doc_'' @ show_nat (clock env (i + j)) @ ''_'' @ show_nat (i + j))) =
           Inr docId \<and>
         ToString docId = Inr printed \<and>
         convertToFirestoreFields (strip_id (docs ! j)) = Inr wire \<and>
         ps ! j = PatchDocument project c printed bearer (JSON_stringify wire)) \<Longrightarrow>
    \<exists>n' tr'. hono_documents env sa tok c i docs n tr = (tr', Inr n') \<and>
      requests tr' = requests tr @ ps"
proof (induction docs arbitrary: i n tr ps)
  case Nil
  then show ?case by simp
next
  case (Cons doc rest)
  from Cons.prems(1) obtain p ps' where ps: "ps = p # ps'" "length ps' = length rest"
    by (cases ps) auto
  from Cons.prems(2) [of 0] ps obtain docId printed wire where first:
    "select_id doc (JStr (''doc_'' @ show_nat (clock env i) @ ''_'' @ show_nat i)) = Inr docId"
    "ToString docId = Inr printed"
    "convertToFirestoreFields (strip_id doc) = Inr wire"
    "p = PatchDocument project c printed bearer (JSON_stringify wire)"
    by auto
  from hono_documents_sends [OF first(1) assms(1,2,3) first(2,3), of c rest n tr]
  obtain n' evs where step:
    "hono_documents env sa tok c i (doc # rest) n tr =
       hono_documents env sa tok c (i + 1) rest n' (tr @ Fetch p # evs)"
    "requests evs = []"
    using first(4) by blast
  have "\<exists>n'' tr'. hono_documents env sa tok c (i + 1) rest n' (tr @ Fetch p # evs) = (tr', Inr n'') \<and>
      requests tr' = requests (tr @ Fetch p # evs) @ ps'"
  proof (rule Cons.IH [OF ps(2)])
    fix j
    assume "j < length rest"
    then have "Suc j < length (doc # rest)" by simp
    from Cons.prems(2) [OF this] ps
    show "\<exists>docId printed wire.
         select_id (rest ! j) (JStr (''doc_'' @ show_nat (clock env (i + 1 + j)) @ ''_'' @ show_nat (i + 1 + j))) =
           Inr docId \<and>
         ToString docId = Inr printed \<and>
         convertToFirestoreFields (strip_id (rest ! j)) = Inr wire \<and>
         ps' ! j = PatchDocument project c printed bearer (JSON_stringify wire)"
      by simp
  qed
  with step ps show ?case by auto
qed

subsection \<open>The writes of the Express loop\<close>

lemma express_documents_committed:
  assumes "sdk_accepts env" and "commits_succeed env" and "JNull \<notin> set docs"
  shows "snd (express_documents env c 0 docs [] 0 []) = Inr (length docs)"
    and "concat (commit_calls (fst (express_documents env c 0 docs [] 0 []))) =
      express_writes env c 0 docs"
    and "committed (fst (express_documents env c 0 docs [] 0 [])) =
      commit_calls (fst (express_documents env c 0 docs [] 0 []))"
proof -
  have pos: "0 < batchSize" by (simp add: batchSize_def)
  from express_documents_all_ok [OF assms, of "[]" c 0 0 "[]"] pos
  obtain tr where tr: "express_documents env c 0 docs [] 0 [] = (tr, Inr (length docs))"
    "commit_calls tr = contiguous_runs batchSize (express_writes env c 0 docs)"
    "committed tr = contiguous_runs batchSize (express_writes env c 0 docs)"
    by auto
  from tr show "snd (express_documents env c 0 docs [] 0 []) = Inr (length docs)" by simp
  from tr pos show "concat (commit_calls (fst (express_documents env c 0 docs [] 0 []))) =
      express_writes env c 0 docs"
    by (simp add: concat_contiguous_runs)
  from tr show "committed (fst (express_documents env c 0 docs [] 0 [])) =
      commit_calls (fst (express_documents env c 0 docs [] 0 []))"
    by simp
qed

lemma express_writes_nth:
  "j < length docs \<Longrightarrow>
   express_writes env c i docs ! j =
     Write c (document_id (docs ! j) (JStr (auto_id env (i + j)))) (strip_id (docs ! j))"
  by (simp add: express_writes_def)

lemma encoded_without_id:
  "\<exists>wire. convertToFirestoreFields (JObj (AList.delete ''_id'' kvs)) = Inr (JObj wire) \<and>
     map_of wire ''_id'' = None"
proof -
  have "''_id'' \<notin> fst ` set (convert_entries [] (AList.delete ''_id'' kvs))"
    by (simp add: convert_entries_keys delete_notin_dom)
  then have "map_of (convert_entries [] (AList.delete ''_id'' kvs)) ''_id'' = None"
    by (simp add: map_of_eq_None_iff)
  then show ?thesis by (simp add: convertToFirestoreFields_def)
qed

lemma encoded_with_id:
  assumes "map_of kvs ''_id'' = Some v"
  shows "\<exists>wire. convertToFirestoreFields (JObj kvs) = Inr (JObj wire) \<and> map_of wire ''_id'' \<noteq> None"
  using persisted_key [OF assms] by auto

subsection \<open>Objects of objects\<close>

lemma normalize_objects:
  assumes "kvs \<noteq> []" and "list_all (\<lambda>(k, v). is_object v) kvs"
  shows "normalize_documents (JObj kvs) =
    Inr (map (\<lambda>(id, data). JObj (AList.update ''_id'' (JStr id) (own_properties data))) kvs)"
proof -
  have "is_object v \<Longrightarrow> typeof_object v" for v by (cases v) simp_all
  with assms(2) have "list_all (\<lambda>(k, v). typeof_object v) kvs"
    by (auto simp: list_all_iff)
  with assms(1) show ?thesis by simp
qed

lemma normalized_document:
  assumes "d = JObj (AList.update ''_id'' (JStr k) fs)"
  shows "k \<noteq> [] \<Longrightarrow> select_id d fallback = Inr (JStr k)"
    and "k \<noteq> [] \<Longrightarrow> strip_id d = JObj (AList.delete ''_id'' fs)"
    and "k = [] \<Longrightarrow> select_id d fallback = Inr fallback"
    and "k = [] \<Longrightarrow> strip_id d = d"
  using assms by (simp_all add: select_id_def update_conv' delete_update_same)

lemma hono_file_per_key:
  assumes "get_property sa ''project_id'' = Inr pid" and "template pid = Inr project"
    and "template tok = Inr bearer"
    and "buffer f = Inr (JObj kvs)" and "kvs \<noteq> []"
    and "list_all (\<lambda>(k, v). is_object v) kvs"
  shows "\<exists>tr' n' ps.
    hono_file env sa tok f tr =
      (tr', \<lparr>collection = strip_extension (originalFilename f), documentsUploaded = Some n',
             totalDocuments = Some (length kvs), success = Some (0 < n'), error = None\<rparr>) \<and>
    requests tr' = requests tr @ ps \<and> length ps = length kvs \<and>
    (\<forall>j < length kvs. fst (kvs ! j) \<noteq> [] \<longrightarrow>
       (\<exists>wire.
          convertToFirestoreFields (JObj (AList.delete ''_id'' (own_properties (snd (kvs ! j))))) =
            Inr wire \<and>
          ps ! j = PatchDocument project (strip_extension (originalFilename f)) (fst (kvs ! j))
                     bearer (JSON_stringify wire)))"
proof -
  let ?c = "strip_extension (originalFilename f)"
  let ?docs = "map (\<lambda>(id, data). JObj (AList.update ''_id'' (JStr id) (own_properties data))) kvs"
  let ?synth = "\<lambda>j. ''doc_'' @ show_nat (clock env j) @ ''_'' @ show_nat j"
  let ?fields = "\<lambda>j. if fst (kvs ! j) = []
      then AList.update ''_id'' (JStr []) (own_properties (snd (kvs ! j)))
      else AList.delete ''_id'' (own_properties (snd (kvs ! j)))"
  let ?ps = "map (\<lambda>j. PatchDocument project ?c (if fst (kvs ! j) = [] then ?synth j else fst (kvs ! j))
      bearer (JSON_stringify (JObj (convert_entries [] (?fields j))))) [0..<length kvs]"
  have norm: "normalize_documents (JObj kvs) = Inr ?docs"
    by (rule normalize_objects [OF assms(5,6)])
  have len: "length ?ps = length ?docs" by simp
  have each: "\<exists>docId printed wire.
      select_id (?docs ! j) (JStr (''doc_'' @ show_nat (clock env (0 + j)) @ ''_'' @ show_nat (0 + j))) =
        Inr docId \<and>
      ToString docId = Inr printed \<and>
      convertToFirestoreFields (strip_id (?docs ! j)) = Inr wire \<and>
      ?ps ! j = PatchDocument project ?c printed bearer (JSON_stringify wire)"
    if "j < length ?docs" for j
  proof -
    from that have j: "j < length kvs" by simp
    obtain k v where kv: "kvs ! j = (k, v)" by (cases "kvs ! j")
    have d: "?docs ! j = JObj (AList.update ''_id'' (JStr k) (own_properties v))"
      using j kv by simp
    show ?thesis
    proof (cases "k = []")
      case True
      from normalized_document(3,4) [OF d True] j kv True d show ?thesis
        by (simp add: convertToFirestoreFields_def)
    next
      case False
      from normalized_document(1,2) [OF d False] j kv False show ?thesis
        by (simp add: convertToFirestoreFields_def)
    qed
  qed
  from hono_documents_requests [OF assms(1,2,3) len each, where n = 0 and tr = tr]
  obtain n' tr' where run: "hono_documents env sa tok ?c 0 ?docs 0 tr = (tr', Inr n')"
    "requests tr' = requests tr @ ?ps"
    by blast
  have result: "hono_file env sa tok f tr =
      (tr', \<lparr>collection = ?c, documentsUploaded = Some n',
             totalDocuments = Some (length kvs), success = Some (0 < n'), error = None\<rparr>)"
    using assms(4) norm run(1) by (simp add: hono_file_def)
  have keys: "\<forall>j < length kvs. fst (kvs ! j) \<noteq> [] \<longrightarrow>
       (\<exists>wire.
          convertToFirestoreFields (JObj (AList.delete ''_id'' (own_properties (snd (kvs ! j))))) =
            Inr wire \<and>
          ?ps ! j = PatchDocument project ?c (fst (kvs ! j)) bearer (JSON_stringify wire))"
    by (simp add: convertToFirestoreFields_def)
  from result run(2) keys show ?thesis
    by (intro exI [of _ tr'] exI [of _ n'] exI [of _ ?ps]) simp
qed

lemma express_file_per_key:
  assumes "sdk_accepts env" and "commits_succeed env"
    and "buffer f = Inr (JObj kvs)" and "kvs \<noteq> []"
    and "list_all (\<lambda>(k, v). is_object v) kvs"
  shows "\<exists>tr' ws.
    express_file env f tr =
      (tr', \<lparr>collection = path_name env (originalFilename f),
             documentsUploaded = Some (length kvs), totalDocuments = Some (length kvs),
             success = None, error = None\<rparr>) \<and>
    concat (commit_calls tr') = concat (commit_calls tr) @ ws \<and>
    committed tr' = committed tr @ drop (length (commit_calls tr)) (commit_calls tr') \<and>
    length ws = length kvs \<and>
    (\<forall>j < length kvs. fst (kvs ! j) \<noteq> [] \<longrightarrow>
       ws ! j = Write (path_name env (originalFilename f)) (JStr (fst (kvs ! j)))
                  (JObj (AList.delete ''_id'' (own_properties (snd (kvs ! j))))))"
proof -
  let ?c = "path_name env (originalFilename f)"
  let ?docs = "map (\<lambda>(id, data). JObj (AList.update ''_id'' (JStr id) (own_properties data))) kvs"
  have pos: "0 < batchSize" by (simp add: batchSize_def)
  have norm: "normalize_documents (JObj kvs) = Inr ?docs"
    by (rule normalize_objects [OF assms(4,5)])
  have nonnull: "JNull \<notin> set ?docs" by auto
  from express_documents_all_ok [OF assms(1,2) nonnull, of "[]" ?c 0 0 tr] pos assms(4)
  obtain tr' where run: "express_documents env ?c 0 ?docs [] 0 tr = (tr', Inr (length kvs))"
    "commit_calls tr' = commit_calls tr @ contiguous_runs batchSize (express_writes env ?c 0 ?docs)"
    "committed tr' = committed tr @ contiguous_runs batchSize (express_writes env ?c 0 ?docs)"
    by auto
  have result: "express_file env f tr =
      (tr', \<lparr>collection = ?c, documentsUploaded = Some (length kvs),
             totalDocuments = Some (length kvs), success = None, error = None\<rparr>)"
    using assms(3) norm run(1) by (simp add: express_file_def)
  have writes: "concat (commit_calls tr') = concat (commit_calls tr) @ express_writes env ?c 0 ?docs"
    using run(2) pos by (simp add: concat_contiguous_runs)
  have committed: "committed tr' = committed tr @ drop (length (commit_calls tr)) (commit_calls tr')"
    using run(2,3) by simp
  have keys: "\<forall>j < length kvs. fst (kvs ! j) \<noteq> [] \<longrightarrow>
      express_writes env ?c 0 ?docs ! j =
        Write ?c (JStr (fst (kvs ! j))) (JObj (AList.delete ''_id'' (own_properties (snd (kvs ! j)))))"
  proof (intro allI impI)
    fix j
    assume j: "j < length kvs" and key: "fst (kvs ! j) \<noteq> []"
    obtain k v where kv: "kvs ! j = (k, v)" by (cases "kvs ! j")
    have d: "?docs ! j = JObj (AList.update ''_id'' (JStr k) (own_properties v))"
      using j kv by simp
    from key kv have k: "k \<noteq> []" by simp
    have "document_id (?docs ! j) (JStr (auto_id env (0 + j))) = JStr k"
      using d k by (simp add: document_id_def update_conv')
    moreover have "strip_id (?docs ! j) = JObj (AList.delete ''_id'' (own_properties v))"
      by (rule normalized_document(2) [OF d k])
    ultimately show "express_writes env ?c 0 ?docs ! j =
        Write ?c (JStr (fst (kvs ! j))) (JObj (AList.delete ''_id'' (own_properties (snd (kvs ! j)))))"
      using j kv express_writes_nth [of j ?docs env ?c 0] by simp
  qed
  from result writes committed keys show ?thesis
    by (intro exI [of _ tr'] exI [of _ "express_writes env ?c 0 ?docs"])
       (simp add: express_writes_def)
qed

subsection \<open>The documents of a file\<close>

lemma sendable_document:
  assumes "sendable doc"
  shows "\<exists>docId printed wire.
    select_id doc (JStr fallback) = Inr docId \<and> ToString docId = Inr printed \<and>
    convertToFirestoreFields (strip_id doc) = Inr wire"
proof (cases doc)
  case JNull
  with assms show ?thesis by (simp add: sendable_def select_id_def)
next
  case (JObj kvs)
  show ?thesis
  proof (cases "map_of kvs ''_id''")
    case None
    with JObj show ?thesis by (simp add: select_id_def convertToFirestoreFields_def)
  next
    case (Some v)
    show ?thesis
    proof (cases "truthy v")
      case True
      with JObj Some assms obtain printed where "ToString v = Inr printed"
        by (cases "ToString v") (simp_all add: sendable_def select_id_def)
      with JObj Some True show ?thesis by (simp add: select_id_def convertToFirestoreFields_def)
    next
      case False
      with JObj Some show ?thesis by (simp add: select_id_def convertToFirestoreFields_def)
    qed
  qed
qed (simp_all add: select_id_def convertToFirestoreFields_def)

lemma hono_file_sends_all:
  assumes "get_property sa ''project_id'' = Inr pid" and "template pid = Inr project"
    and "template tok = Inr bearer"
    and "buffer f = Inr json" and "normalize_documents json = Inr docs"
    and "list_all sendable docs"
  shows "\<exists>tr' n'.
    hono_file env sa tok f tr =
      (tr', \<lparr>collection = strip_extension (originalFilename f), documentsUploaded = Some n',
             totalDocuments = Some (length docs), success = Some (0 < n'), error = None\<rparr>) \<and>
    length (requests tr') = length (requests tr) + length docs"
proof -
  let ?c = "strip_extension (originalFilename f)"
  have "\<forall>j < length docs. \<exists>p. \<exists>docId printed wire.
      select_id (docs ! j) (JStr (''doc_'' @ show_nat (clock env (0 + j)) @ ''_'' @ show_nat (0 + j))) =
        Inr docId \<and>
      ToString docId = Inr printed \<and>
      convertToFirestoreFields (strip_id (docs ! j)) = Inr wire \<and>
      p = PatchDocument project ?c printed bearer (JSON_stringify wire)"
  proof (intro allI impI)
    fix j
    assume "j < length docs"
    with assms(6) have "sendable (docs ! j)" by (simp add: list_all_length)
    from sendable_document [OF this] show "\<exists>p. \<exists>docId printed wire.
      select_id (docs ! j) (JStr (''doc_'' @ show_nat (clock env (0 + j)) @ ''_'' @ show_nat (0 + j))) =
        Inr docId \<and>
      ToString docId = Inr printed \<and>
      convertToFirestoreFields (strip_id (docs ! j)) = Inr wire \<and>
      p = PatchDocument project ?c printed bearer (JSON_stringify wire)"
      by blast
  qed
  then obtain ps where ps: "length ps = length docs"
    "\<forall>j < length docs. \<exists>docId printed wire.
      select_id (docs ! j) (JStr (''doc_'' @ show_nat (clock env (0 + j)) @ ''_'' @ show_nat (0 + j))) =
        Inr docId \<and>
      ToString docId = Inr printed \<and>
      convertToFirestoreFields (strip_id (docs ! j)) = Inr wire \<and>
      ps ! j = PatchDocument project ?c printed bearer (JSON_stringify wire)"
    unfolding Skolem_list_nth by blast
  from hono_documents_requests [OF assms(1,2,3) ps(1) ps(2) [rule_format], where n = 0 and tr = tr]
  obtain n' tr' where run: "hono_documents env sa tok ?c 0 docs 0 tr = (tr', Inr n')"
    "requests tr' = requests tr @ ps"
    by blast
  have "hono_file env sa tok f tr =
      (tr', \<lparr>collection = ?c, documentsUploaded = Some n',
             totalDocuments = Some (length docs), success = Some (0 < n'), error = None\<rparr>)"
    using assms(4,5) run(1) by (simp add: hono_file_def)
  with run(2) ps(1) show ?thesis by simp
qed

lemma express_file_writes_all:
  assumes "sdk_accepts env" and "commits_succeed env"
    and "buffer f = Inr json" and "normalize_documents json = Inr docs"
    and "JNull \<notin> set docs"
  shows "\<exists>tr'.
    express_file env f tr =
      (tr', \<lparr>collection = path_name env (originalFilename f),
             documentsUploaded = Some (length docs), totalDocuments = Some (length docs),
             success = None, error = None\<rparr>) \<and>
    map write_data (concat (commit_calls tr')) =
      map write_data (concat (commit_calls tr)) @ map strip_id docs \<and>
    committed tr' = committed tr @ drop (length (commit_calls tr)) (commit_calls tr')"
proof -
  let ?c = "path_name env (originalFilename f)"
  have pos: "0 < batchSize" by (simp add: batchSize_def)
  have "\<exists>tr'. express_documents env ?c 0 docs [] 0 tr = (tr', Inr (length docs)) \<and>
      commit_calls tr' = commit_calls tr @ contiguous_runs batchSize (express_writes env ?c 0 docs) \<and>
      committed tr' = committed tr @ contiguous_runs batchSize (express_writes env ?c 0 docs)"
    using express_documents_all_ok [OF assms(1,2,5), of "[]" ?c 0 0 tr] pos by simp
  then obtain tr' where run: "express_documents env ?c 0 docs [] 0 tr = (tr', Inr (length docs))"
    "commit_calls tr' = commit_calls tr @ contiguous_runs batchSize (express_writes env ?c 0 docs)"
    "committed tr' = committed tr @ contiguous_runs batchSize (express_writes env ?c 0 docs)"
    by blast
  have "express_file env f tr =
      (tr', \<lparr>collection = ?c, documentsUploaded = Some (length docs),
             totalDocuments = Some (length docs), success = None, error = None\<rparr>)"
    using assms(3,4) run(1) by (simp add: express_file_def)
  moreover have "map write_data (concat (commit_calls tr')) =
      map write_data (concat (commit_calls tr)) @ map strip_id docs"
    using run(2) pos by (simp add: concat_contiguous_runs express_writes_data)
  moreover have "committed tr' = committed tr @ drop (length (commit_calls tr)) (commit_calls tr')"
    using run(2,3) by simp
  ultimately show ?thesis by blast
qed

subsection \<open>Validation of the demo account\<close>

lemma demo_account_structure:
  "validateServiceAccountStructure demo_account =
     Inr \<lparr>missingFields = False, invalidType = False, invalidEmail = False,
          invalidPrivateKey = False\<rparr>"
  by (simp add: validateServiceAccountStructure_def demo_account_def required_fields_def
      String_endsWith_def String_includes_def upt_rec)

lemma demo_account_properties:
  "get_property demo_account ''project_id'' = Inr (Some (JStr ''demo''))"
  "get_property demo_account ''client_email'' = Inr (Some (JStr ''up@demo.iam.gserviceaccount.com''))"
  "get_property demo_account ''private_key_id'' = Inr (Some (JStr ''k1''))"
  by (simp_all add: demo_account_def)

lemma healthy_validation:
  "validateServiceAccountComplete healthy demo_account [] =
     ([Fetch (PostToken ''assertion''),
       Fetch (GetProject ''demo'' ''token''),
       Fetch (GetDatabase ''demo'' ''token''),
       Fetch (PostListCollectionIds ''demo'' ''token''),
       Fetch (GetKeys ''demo'' ''up@demo.iam.gserviceaccount.com'' ''token'')],
      \<lparr>valid = True,
       checks = \<lparr>structure_check = True, authentication = True, iam = True, firestore = True,
                 firebase = True\<rparr>,
       accountInfo = True, error_types = []\<rparr>)"
  by (simp add: validateServiceAccountComplete_def demo_account_structure structure_valid_def
      demo_account_properties getAccessToken_def validateFirebaseProject_def
      validateFirestoreAccess_def validateServiceAccountKey_def healthy_def
      obliging_def is_ok_def template_def is_valid_def current_key_def key_matches_def
      key_in_window_def date_less_def String_includes_def upt_rec)

lemma hono_flag_after_validation:
  "hono_validate_service_account env st body tr = (tr', st', resp) \<Longrightarrow>
     isValidServiceAccount st' = (status resp = 200)"
  by (auto simp: hono_validate_service_account_def reply_def
      split: sum.splits option.splits list.splits prod.splits if_splits)

section \<open>Claims about the value codec\<close>

text \<open>
  C1 (the code departs from the claim). The claim: decoding the encoding of any native JSON
  value gives the value back. The integer \<open>10 ^ 21\<close> (the JSON text \<^verbatim>\<open>1e21\<close>) is encoded with
  the integer tag and the string \<^verbatim>\<open>1e+21\<close>, the exponent form that \<^verbatim>\<open>toString\<close> uses from
  \<open>10 ^ 21\<close> on; \<^verbatim>\<open>parseInt\<close> reads the leading digits of that string and stops at \<^verbatim>\<open>e\<close>, so
  the decoder returns 1.
\<close>

theorem roundtrip_fails_at_1e21:
  "field_value (JNum (Finite (10 ^ 21))) = JObj [(''integerValue'', JStr ''1e+21'')] \<and>
   parseFirestoreValue (field_value (JNum (Finite (10 ^ 21)))) = Inr (JNum (Finite 1))"
  by (simp add: number_eval)

text \<open>
  A second departure: a property named \<^verbatim>\<open>__proto__\<close> is lost by the encoder, whose assignment
  \<^verbatim>\<open>fields[key] = ...\<close> reaches the inherited setter for that key.
\<close>

lemma roundtrip_drops_proto_key:
  "parseFirestoreValue (field_value (JObj [(''__proto__'', JStr ''p'')])) = Inr (JObj [])"
  by (simp add: number_eval)

text \<open>
  C2 (counterexample). The claim: the encoding of 3 differs from the encoding of 3.0.
  The literals \<^verbatim>\<open>3\<close> and \<^verbatim>\<open>3.0\<close> denote one number, which \<^verbatim>\<open>Number.isInteger\<close> accepts, and
  both are encoded as \<^verbatim>\<open>{ integerValue: "3" }\<close>.
\<close>

theorem encode_3_and_3_0_counterexample:
  "field_value (JNum (Finite 3)) = field_value (JNum (Finite (30 / 10)))"
  by simp

text \<open>
  C2 (amended). Every number that \<^verbatim>\<open>Number.isInteger\<close> accepts is encoded with the integer
  tag and every other number with the double tag. The number 3, also when written 3.0, is
  encoded as \<^verbatim>\<open>{ integerValue: "3" }\<close> and 3.5 as \<^verbatim>\<open>{ doubleValue: 3.5 }\<close>, and both decode
  to the number that was encoded.
\<close>

theorem number_tagging:
  "wire_tags (field_value (JNum x)) =
     (if Number_isInteger x then [''integerValue''] else [''doubleValue'']) \<and>
   field_value (JNum (Finite 3)) = JObj [(''integerValue'', JStr ''3'')] \<and>
   field_value (JNum (Finite (30 / 10))) = JObj [(''integerValue'', JStr ''3'')] \<and>
   field_value (JNum (Finite (7 / 2))) = JObj [(''doubleValue'', JNum (Finite (7 / 2)))] \<and>
   parseFirestoreValue (field_value (JNum (Finite 3))) = Inr (JNum (Finite 3)) \<and>
   parseFirestoreValue (field_value (JNum (Finite (7 / 2)))) = Inr (JNum (Finite (7 / 2)))"
  by (simp add: number_eval)

text \<open>
  C9 (counterexample). The claim: the decoder returns a value for every input object. It
  does not on \<^verbatim>\<open>{ mapValue: null }\<close> and \<^verbatim>\<open>{ arrayValue: null }\<close>, where it reads a property of
  null; on \<^verbatim>\<open>{ arrayValue: { values: "ab" } }\<close>, where \<^verbatim>\<open>values\<close> has no \<^verbatim>\<open>map\<close>; on
  \<^verbatim>\<open>{ arrayValue: { values: [1] } }\<close>, where the \<^verbatim>\<open>in\<close> test is applied to a number; and on
  \<^verbatim>\<open>{ integerValue: { toString: null } }\<close>, where \<^verbatim>\<open>parseInt\<close> finds no string conversion.
\<close>

theorem decoder_throws_counterexample:
  "parseFirestoreValue (JObj [(''mapValue'', JNull)]) = Inl TypeError \<and>
   parseFirestoreValue (JObj [(''arrayValue'', JNull)]) = Inl TypeError \<and>
   parseFirestoreValue (JObj [(''arrayValue'', JObj [(''values'', JStr ''ab'')])]) = Inl TypeError \<and>
   parseFirestoreValue (JObj [(''arrayValue'', JObj [(''values'', JArr [JNum (Finite 1)])])]) =
     Inl TypeError \<and>
   parseFirestoreValue (JObj [(''integerValue'', JObj [(''toString'', JNull)])]) = Inl TypeError"
  by (simp add: parseInt_def)

text \<open>
  C9 (amended). The decoder returns a value, without throwing, exactly when it throws at
  none of the values it visits: its input and, recursively, the property values of the
  \<^verbatim>\<open>fields\<close> of a \<^verbatim>\<open>mapValue\<close> payload and the elements of the \<^verbatim>\<open>values\<close> of an \<^verbatim>\<open>arrayValue\<close>
  payload, where that tag is the first of the seven that the object carries. It throws at
  a value that is null or another primitive, and at an object whose first tag is
  \<^verbatim>\<open>integerValue\<close> with a payload without string conversion, \<^verbatim>\<open>mapValue\<close> with the payload
  null, or \<^verbatim>\<open>arrayValue\<close> with a payload that is null or an array or whose \<^verbatim>\<open>values\<close> is truthy
  and not an array. An object that carries none of the seven tags, and any array, decodes
  to null. The decoder returns on every typed value that the encoder produces. It throws a
  TypeError on an object without the five scalar tags whose \<^verbatim>\<open>mapValue\<close> is null, and on one
  without these and \<^verbatim>\<open>mapValue\<close> whose \<^verbatim>\<open>arrayValue\<close> is null.
\<close>

theorem decoder_returns_exactly:
  "((\<exists>r. parseFirestoreValue v = Inr r) \<longleftrightarrow> list_all (\<lambda>u. \<not> throws_here u) (visited v)) \<and>
   (untagged kvs \<longrightarrow> parseFirestoreValue (JObj kvs) = Inr JNull) \<and>
   parseFirestoreValue (JArr vs) = Inr JNull \<and>
   (\<exists>r. parseFirestoreValue (field_value x) = Inr r) \<and>
   (list_all (\<lambda>t. map_of ms t = None)
      [''stringValue'', ''integerValue'', ''doubleValue'', ''booleanValue'', ''nullValue''] \<and>
    map_of ms ''mapValue'' = Some JNull \<longrightarrow>
      parseFirestoreValue (JObj ms) = Inl TypeError) \<and>
   (list_all (\<lambda>t. map_of as t = None)
      [''stringValue'', ''integerValue'', ''doubleValue'', ''booleanValue'', ''nullValue'',
       ''mapValue''] \<and>
    map_of as ''arrayValue'' = Some JNull \<longrightarrow>
      parseFirestoreValue (JObj as) = Inl TypeError)"
  using decode_encode_total [of x] decoder_returns_visited [of v]
  by (simp add: untagged_def recognized_tags_def)

text \<open>
  C9 (amended), at a map as the store returns it, with a timestamp, an empty array, an empty
  map and a field that carries \<^verbatim>\<open>stringValue\<close> before a null \<^verbatim>\<open>mapValue\<close>; at an object with a
  tag that the decoder does not know; and at the two null payloads.
\<close>

theorem decoder_returns_exactly_witness:
  "list_all (\<lambda>u. \<not> throws_here u)
     (visited (JObj [(''mapValue'', JObj [(''fields'', JObj
        [(''t'', JObj [(''timestampValue'', JStr ''2024-01-01T00:00:00Z'')]),
         (''a'', JObj [(''arrayValue'', JObj [])]),
         (''m'', JObj [(''mapValue'', JObj [])]),
         (''s'', JObj [(''stringValue'', JStr ''x''), (''mapValue'', JNull)])])])])) \<and>
   parseFirestoreValue (JObj [(''mapValue'', JObj [(''fields'', JObj
        [(''t'', JObj [(''timestampValue'', JStr ''2024-01-01T00:00:00Z'')]),
         (''a'', JObj [(''arrayValue'', JObj [])]),
         (''m'', JObj [(''mapValue'', JObj [])]),
         (''s'', JObj [(''stringValue'', JStr ''x''), (''mapValue'', JNull)])])])]) =
     Inr (JObj [(''t'', JNull), (''a'', JArr []), (''m'', JObj []), (''s'', JStr ''x'')]) \<and>
   untagged [(''timestampValue'', JStr ''2024-01-01T00:00:00Z'')] \<and>
   parseFirestoreValue (JObj [(''timestampValue'', JStr ''2024-01-01T00:00:00Z'')]) = Inr JNull \<and>
   list_all (\<lambda>t. map_of [(''mapValue'', JNull)] t = None)
      [''stringValue'', ''integerValue'', ''doubleValue'', ''booleanValue'', ''nullValue''] \<and>
   map_of [(''mapValue'', JNull)] ''mapValue'' = Some JNull \<and>
   parseFirestoreValue (JObj [(''mapValue'', JNull)]) = Inl TypeError \<and>
   list_all (\<lambda>t. map_of [(''arrayValue'', JNull)] t = None)
      [''stringValue'', ''integerValue'', ''doubleValue'', ''booleanValue'', ''nullValue'',
       ''mapValue''] \<and>
   map_of [(''arrayValue'', JNull)] ''arrayValue'' = Some JNull \<and>
   parseFirestoreValue (JObj [(''arrayValue'', JNull)]) = Inl TypeError"
  using decoder_returns_exactly
    [of "JObj [(''mapValue'', JObj [(''fields'', JObj
        [(''t'', JObj [(''timestampValue'', JStr ''2024-01-01T00:00:00Z'')]),
         (''a'', JObj [(''arrayValue'', JObj [])]),
         (''m'', JObj [(''mapValue'', JObj [])]),
         (''s'', JObj [(''stringValue'', JStr ''x''), (''mapValue'', JNull)])])])]"
        "[(''timestampValue'', JStr ''2024-01-01T00:00:00Z'')]" "[]" JNull
        "[(''mapValue'', JNull)]" "[(''arrayValue'', JNull)]"]
  by (simp add: untagged_def recognized_tags_def set_property_def)

section \<open>Claims about the upload pipeline\<close>

text \<open>
  C3. With an SDK that accepts every write and commits that all succeed, the upload script
  with a batch size \<open>n > 0\<close> and the Express loop with its batch size of 15 commit exactly
  the contiguous runs of the list of writes, one write per input document: the number of
  commits is the length of the list divided by the batch size, rounded up, no commit holds
  more writes than the batch size, and the commits concatenated are the writes of all the
  documents, each once and in order. The Express loop reads \<^verbatim>\<open>doc._id\<close>, so its documents
  must not be null.
\<close>

theorem batch_partition:
  assumes "sdk_accepts env" and "commits_succeed env" and "0 < n" and "JNull \<notin> set docs"
  shows "(\<exists>tr. uploadJsonToFirestore env (JArr data) c n [] = Some (tr, Inr (length data)) \<and>
            commit_calls tr = contiguous_runs n (script_batch c 0 data) \<and>
            committed tr = commit_calls tr \<and>
            length (commit_calls tr) = (length data + n - 1) div n \<and>
            list_all (\<lambda>b. length b \<le> n) (commit_calls tr) \<and>
            concat (commit_calls tr) = script_batch c 0 data \<and>
            map write_data (concat (commit_calls tr)) = data) \<and>
         (\<exists>tr. express_documents env c 0 docs [] 0 [] = (tr, Inr (length docs)) \<and>
            commit_calls tr = contiguous_runs batchSize (express_writes env c 0 docs) \<and>
            committed tr = commit_calls tr \<and>
            length (commit_calls tr) = (length docs + batchSize - 1) div batchSize \<and>
            list_all (\<lambda>b. length b \<le> batchSize) (commit_calls tr) \<and>
            concat (commit_calls tr) = express_writes env c 0 docs \<and>
            map write_data (concat (commit_calls tr)) = map strip_id docs)"
proof
  have len: "length (script_batch c 0 data) = length data"
    by (simp add: script_batch_def)
  have data: "map write_data (script_batch c 0 data) = data"
    by (rule script_batch_data)
  from script_loop_all_ok [OF assms(3,1,2), of c data 0 0 "[]"]
  obtain tr where tr: "script_loop env c n data 0 0 [] = Some (tr, Inr (length data))"
    "commit_calls tr = contiguous_runs n (script_batch c 0 data)"
    "committed tr = contiguous_runs n (script_batch c 0 data)"
    by auto
  have "uploadJsonToFirestore env (JArr data) c n [] = Some (tr, Inr (length data))"
    using tr(1) assms(1) by (simp add: uploadJsonToFirestore_def sdk_accepts_def)
  moreover have "list_all (\<lambda>b. length b \<le> n) (commit_calls tr)"
    using contiguous_runs_bounded [OF assms(3)] by (auto simp: tr(2) list_all_iff)
  ultimately show "\<exists>tr. uploadJsonToFirestore env (JArr data) c n [] = Some (tr, Inr (length data)) \<and>
            commit_calls tr = contiguous_runs n (script_batch c 0 data) \<and>
            committed tr = commit_calls tr \<and>
            length (commit_calls tr) = (length data + n - 1) div n \<and>
            list_all (\<lambda>b. length b \<le> n) (commit_calls tr) \<and>
            concat (commit_calls tr) = script_batch c 0 data \<and>
            map write_data (concat (commit_calls tr)) = data"
    using tr(2,3) len data assms(3)
    by (auto simp: concat_contiguous_runs length_contiguous_runs)
next
  have pos: "0 < batchSize" by (simp add: batchSize_def)
  have len: "length (express_writes env c 0 docs) = length docs"
    by (simp add: express_writes_def)
  have data: "map write_data (express_writes env c 0 docs) = map strip_id docs"
    by (rule express_writes_data)
  from express_documents_all_ok [OF assms(1,2,4), of "[]" c 0 0 "[]"] pos
  obtain tr where tr: "express_documents env c 0 docs [] 0 [] = (tr, Inr (length docs))"
    "commit_calls tr = contiguous_runs batchSize (express_writes env c 0 docs)"
    "committed tr = contiguous_runs batchSize (express_writes env c 0 docs)"
    by auto
  moreover have "list_all (\<lambda>b. length b \<le> batchSize) (commit_calls tr)"
    using contiguous_runs_bounded [OF pos] by (auto simp: tr(2) list_all_iff)
  ultimately show "\<exists>tr. express_documents env c 0 docs [] 0 [] = (tr, Inr (length docs)) \<and>
            commit_calls tr = contiguous_runs batchSize (express_writes env c 0 docs) \<and>
            committed tr = commit_calls tr \<and>
            length (commit_calls tr) = (length docs + batchSize - 1) div batchSize \<and>
            list_all (\<lambda>b. length b \<le> batchSize) (commit_calls tr) \<and>
            concat (commit_calls tr) = express_writes env c 0 docs \<and>
            map write_data (concat (commit_calls tr)) = map strip_id docs"
    using len data pos
    by (auto simp: concat_contiguous_runs length_contiguous_runs)
qed

text \<open>
  C3, at an environment where everything succeeds: three items in batches of two, and one
  document through the Express loop.
\<close>

theorem batch_partition_witness:
  "sdk_accepts obliging \<and> commits_succeed obliging \<and> (0 :: nat) < 2 \<and>
   JNull \<notin> set [JObj [(''a'', JNull)]] \<and>
   ((\<exists>tr. uploadJsonToFirestore obliging (JArr [JNull, JBool True, JStr ''s'']) ''c'' 2 [] =
            Some (tr, Inr (length [JNull, JBool True, JStr ''s''])) \<and>
            commit_calls tr = contiguous_runs 2 (script_batch ''c'' 0 [JNull, JBool True, JStr ''s'']) \<and>
            committed tr = commit_calls tr \<and>
            length (commit_calls tr) = (length [JNull, JBool True, JStr ''s''] + 2 - 1) div 2 \<and>
            list_all (\<lambda>b. length b \<le> 2) (commit_calls tr) \<and>
            concat (commit_calls tr) = script_batch ''c'' 0 [JNull, JBool True, JStr ''s''] \<and>
            map write_data (concat (commit_calls tr)) = [JNull, JBool True, JStr ''s'']) \<and>
    (\<exists>tr. express_documents obliging ''c'' 0 [JObj [(''a'', JNull)]] [] 0 [] =
            (tr, Inr (length [JObj [(''a'', JNull)]])) \<and>
            commit_calls tr = contiguous_runs batchSize (express_writes obliging ''c'' 0 [JObj [(''a'', JNull)]]) \<and>
            committed tr = commit_calls tr \<and>
            length (commit_calls tr) = (length [JObj [(''a'', JNull)]] + batchSize - 1) div batchSize \<and>
            list_all (\<lambda>b. length b \<le> batchSize) (commit_calls tr) \<and>
            concat (commit_calls tr) = express_writes obliging ''c'' 0 [JObj [(''a'', JNull)]] \<and>
            map write_data (concat (commit_calls tr)) = map strip_id [JObj [(''a'', JNull)]]))"
proof -
  have h1: "sdk_accepts obliging" by (simp add: sdk_accepts_def obliging_def)
  have h2: "commits_succeed obliging" by (simp add: commits_succeed_def obliging_def)
  have h3: "(0 :: nat) < 2" by simp
  have h4: "JNull \<notin> set [JObj [(''a'', JNull)]]" by simp
  note t = batch_partition [OF h1 h2 h3 h4, where data = "[JNull, JBool True, JStr ''s'']" and c = "''c''"]
  show ?thesis by (intro conjI h1 h2 h3 h4 t)
qed

text \<open>
  C4. When every commit attempt of a batch fails, \<^verbatim>\<open>commitBatchWithRetry\<close> with the 3 retries
  of the handler makes exactly three attempts, waits 2 s before the second and 4 s before
  the third, and rethrows; with any number of retries the delay after attempt \<open>k\<close> is
  \<open>2 ^ k\<close> seconds. In the loop of the Express handler the exception ends the file: no
  later document is written, and the batches committed before are still committed.
\<close>

theorem retry_exhaustion:
  assumes "\<forall>tr'. \<not> commit_ok env tr' b"
  shows "commitBatchWithRetry env b 3 tr =
           (tr @ [Commit b False, Sleep 2000, Commit b False, Sleep 4000, Commit b False],
            Inl SdkError) \<and>
         (0 < retries \<longrightarrow>
            commitBatchWithRetry env b retries tr =
              (tr @ concat (map (\<lambda>k. [Commit b False, Sleep (2 ^ k * 1000)]) [1..<retries]) @
                 [Commit b False], Inl SdkError)) \<and>
         (select_id doc (JStr (auto_id env i)) = Inr docId \<and>
          b = batch @ [Write c docId (strip_id doc)] \<and>
          collection_ok env c \<and> ref_ok env c docId \<and> data_ok env (strip_id doc) \<and>
          (length b = batchSize \<or> rest = []) \<longrightarrow>
            express_documents env c i (doc # rest) batch successCount tr =
              (tr @ [Commit b False, Sleep 2000, Commit b False, Sleep 4000, Commit b False],
               Inl SdkError) \<and>
            committed (fst (express_documents env c i (doc # rest) batch successCount tr)) =
              committed tr)"
proof -
  have general: "commitBatchWithRetry env b r tr =
      (tr @ concat (map (\<lambda>k. [Commit b False, Sleep (2 ^ k * 1000)]) [1..<r]) @
         [Commit b False], Inl SdkError)" if "0 < r" for r
    unfolding commitBatchWithRetry_def
    using assms that by (intro commit_attempts_all_fail) simp_all
  have three: "commitBatchWithRetry env b 3 tr =
      (tr @ [Commit b False, Sleep 2000, Commit b False, Sleep 4000, Commit b False],
       Inl SdkError)"
    using general [of 3] by (simp add: upt_rec)
  show ?thesis
    using general three by auto
qed

text \<open>
  C4, at an environment whose commits all fail, with 4 retries (delays of 2, 4 and 8 s) and
  with one document through the loop.
\<close>

theorem retry_exhaustion_witness:
  "(\<forall>tr'. \<not> commit_ok (obliging\<lparr>commit_ok := \<lambda>tr b. False\<rparr>) tr' [Write ''c'' (JStr ''k'') (JObj [])]) \<and>
   (0 :: nat) < 4 \<and>
   select_id (JObj [(''_id'', JStr ''k'')]) (JStr (auto_id (obliging\<lparr>commit_ok := \<lambda>tr b. False\<rparr>) 0)) =
     Inr (JStr ''k'') \<and>
   [Write ''c'' (JStr ''k'') (JObj [])] = [] @ [Write ''c'' (JStr ''k'') (strip_id (JObj [(''_id'', JStr ''k'')]))] \<and>
   commitBatchWithRetry (obliging\<lparr>commit_ok := \<lambda>tr b. False\<rparr>) [Write ''c'' (JStr ''k'') (JObj [])] 4 [] =
     ([Commit [Write ''c'' (JStr ''k'') (JObj [])] False, Sleep 2000,
       Commit [Write ''c'' (JStr ''k'') (JObj [])] False, Sleep 4000,
       Commit [Write ''c'' (JStr ''k'') (JObj [])] False, Sleep 8000,
       Commit [Write ''c'' (JStr ''k'') (JObj [])] False], Inl SdkError) \<and>
   express_documents (obliging\<lparr>commit_ok := \<lambda>tr b. False\<rparr>) ''c'' 0 [JObj [(''_id'', JStr ''k'')]] [] 0 [] =
     ([Commit [Write ''c'' (JStr ''k'') (JObj [])] False, Sleep 2000,
       Commit [Write ''c'' (JStr ''k'') (JObj [])] False, Sleep 4000,
       Commit [Write ''c'' (JStr ''k'') (JObj [])] False], Inl SdkError)"
  using retry_exhaustion
    [of "obliging\<lparr>commit_ok := \<lambda>tr b. False\<rparr>" "[Write ''c'' (JStr ''k'') (JObj [])]" "[]" 4
        "JObj [(''_id'', JStr ''k'')]" 0 "JStr ''k''" "[]" "''c''" "[]" 0]
  by (simp add: obliging_def select_id_def upt_rec)

text \<open>
  C5 (the code departs from the claim). The claim: in an upload of a well-formed file and a
  malformed one, the well-formed file is reported as a success and the malformed one with
  an error. \<^verbatim>\<open>parseMultipartForm\<close> of the Hono server stores each file as a new one-element
  array under its key, so of two files sent under \<^verbatim>\<open>collections\<close> only the last reaches the
  loop: the well-formed \<^verbatim>\<open>A.json\<close> is neither uploaded nor reported.
\<close>

theorem hono_upload_keeps_last_file_only:
  "hono_upload_collection obliging validated
     (Inr [(''collections'', FormFile ''A.json'' (Inr (JArr [JObj [(''a'', JNum (Finite 1))]]))),
           (''collections'', FormFile ''B.json'' (Inl SyntaxError))]) [] =
     ([Fetch (PostToken ''assertion'')],
      \<lparr>status = 200, succeeded = Some False,
       results = [file_failed ''B'' SyntaxError (Some False)],
       errors = [file_failed ''B'' SyntaxError (Some False)],
       summary = Some (1, 0, 1, 0)\<rparr>)"
  by (simp add: hono_upload_collection_def obliging_def validated_def set_property_def
      getAccessToken_def is_ok_def hono_file_def strip_extension_def file_failed_def
      uploaded_total_def)

text \<open>
  The Express server receives both files and reports both.
\<close>

lemma express_upload_isolates_failures:
  "express_upload_collection obliging validated
     [\<lparr>originalFilename = ''A.json'', buffer = Inr (JArr [JObj [(''a'', JNum (Finite 1))]])\<rparr>,
      \<lparr>originalFilename = ''B.json'', buffer = Inl SyntaxError\<rparr>] [] =
     ([Commit [Write ''A'' (JStr ''auto_0'') (JObj [(''a'', JNum (Finite 1))])] True, Sleep 1000],
      \<lparr>status = 200, succeeded = Some True,
       results =
         [\<lparr>collection = ''A'', documentsUploaded = Some 1, totalDocuments = Some 1,
           success = None, error = None\<rparr>,
          file_failed ''B'' SyntaxError None],
       errors = [file_failed ''B'' SyntaxError None],
       summary = None\<rparr>)"
  by (simp add: express_upload_collection_def obliging_def validated_def express_file_def
      path_parse_name_def file_failed_def select_id_def batchSize_def commitBatchWithRetry_def
      commit_attempts.simps show_nat_eval digit_char_def)

text \<open>
  C6. While \<^verbatim>\<open>isValidServiceAccount\<close> is false, as it is in the initial state, both
  handlers of \<^verbatim>\<open>/upload-collection\<close> answer with status 401 and add no event to the trace:
  no request is sent and nothing is committed.
\<close>

theorem upload_requires_validation:
  assumes "\<not> isValidServiceAccount st"
  shows "hono_upload_collection env st body tr = (tr, reply 401 (Some False)) \<and>
         express_upload_collection env st files tr = (tr, reply 401 (Some False)) \<and>
         status (reply 401 (Some False)) = 401 \<and>
         \<not> isValidServiceAccount initial_state"
  using assms
  by (simp add: hono_upload_collection_def express_upload_collection_def reply_def
      initial_state_def)

text \<open>
  C6, at the initial state.
\<close>

theorem upload_requires_validation_witness:
  "\<not> isValidServiceAccount initial_state \<and>
   hono_upload_collection obliging initial_state
     (Inr [(''collections'', FormFile ''a.json'' (Inr (JArr [JObj []])))]) [] =
     ([], reply 401 (Some False)) \<and>
   express_upload_collection obliging initial_state
     [\<lparr>originalFilename = ''a.json'', buffer = Inr (JArr [JObj []])\<rparr>] [] =
     ([], reply 401 (Some False))"
  using upload_requires_validation
    [of initial_state obliging "Inr [(''collections'', FormFile ''a.json'' (Inr (JArr [JObj []])))]"
        "[]" "[\<lparr>originalFilename = ''a.json'', buffer = Inr (JArr [JObj []])\<rparr>]"]
  by (simp add: initial_state_def)

text \<open>
  C7 (counterexample). The claim: an object whose values are all objects becomes one
  document per key with the key as document id and \<^verbatim>\<open>_id\<close> stripped, and any other object
  becomes a single document. For the empty key, \<^verbatim>\<open>{ "": { "a": 1 } }\<close>, the \<^verbatim>\<open>_id\<close> is the empty
  string, which is falsy: both handlers write the document under a synthesized id and
  with \<^verbatim>\<open>_id\<close> among its fields. The object \<^verbatim>\<open>{ "owner": null, "tags": ["a", "b"] }\<close> has no
  value that is an object, and both handlers write two documents for it, \<^verbatim>\<open>owner\<close> without
  fields and \<^verbatim>\<open>tags\<close> with the fields \<^verbatim>\<open>0\<close> and \<^verbatim>\<open>1\<close>, since \<^verbatim>\<open>typeof\<close> gives \<^verbatim>\<open>object\<close> for null
  and for arrays.
\<close>

theorem shape_normalization_counterexample:
  "hono_upload_collection obliging validated
     (Inr [(''collections'', FormFile ''data.json'' (Inr (JObj
        [('''', JObj [(''a'', JNum (Finite 1))])])))]) [] =
     ([Fetch (PostToken ''assertion''),
       Fetch (PatchDocument ''demo'' ''data'' ''doc_0_0'' ''token''
                (JObj [(''a'', JObj [(''integerValue'', JStr ''1'')]),
                       (''_id'', JObj [(''stringValue'', JStr '''')])])),
       Sleep 1000],
      \<lparr>status = 200, succeeded = Some True,
       results =
         [\<lparr>collection = ''data'', documentsUploaded = Some 1, totalDocuments = Some 1,
           success = Some True, error = None\<rparr>],
       errors = [], summary = Some (1, 1, 0, 1)\<rparr>) \<and>
   express_upload_collection obliging validated
     [\<lparr>originalFilename = ''data.json'', buffer = Inr (JObj
        [('''', JObj [(''a'', JNum (Finite 1))])])\<rparr>] [] =
     ([Commit [Write ''data'' (JStr ''auto_0'')
                 (JObj [(''a'', JNum (Finite 1)), (''_id'', JStr '''')])] True,
       Sleep 1000],
      \<lparr>status = 200, succeeded = Some True,
       results =
         [\<lparr>collection = ''data'', documentsUploaded = Some 1, totalDocuments = Some 1,
           success = None, error = None\<rparr>],
       errors = [], summary = None\<rparr>) \<and>
   hono_upload_collection obliging validated
     (Inr [(''collections'', FormFile ''data.json'' (Inr (JObj
        [(''owner'', JNull), (''tags'', JArr [JStr ''a'', JStr ''b''])])))]) [] =
     ([Fetch (PostToken ''assertion''),
       Fetch (PatchDocument ''demo'' ''data'' ''owner'' ''token'' (JObj [])),
       Sleep 1000,
       Fetch (PatchDocument ''demo'' ''data'' ''tags'' ''token''
                (JObj [(''0'', JObj [(''stringValue'', JStr ''a'')]),
                       (''1'', JObj [(''stringValue'', JStr ''b'')])]))],
      \<lparr>status = 200, succeeded = Some True,
       results =
         [\<lparr>collection = ''data'', documentsUploaded = Some 2, totalDocuments = Some 2,
           success = Some True, error = None\<rparr>],
       errors = [], summary = Some (1, 1, 0, 2)\<rparr>) \<and>
   express_upload_collection obliging validated
     [\<lparr>originalFilename = ''data.json'', buffer = Inr (JObj
        [(''owner'', JNull), (''tags'', JArr [JStr ''a'', JStr ''b''])])\<rparr>] [] =
     ([Commit [Write ''data'' (JStr ''owner'') (JObj []),
               Write ''data'' (JStr ''tags'') (JObj [(''0'', JStr ''a''), (''1'', JStr ''b'')])] True,
       Sleep 1000],
      \<lparr>status = 200, succeeded = Some True,
       results =
         [\<lparr>collection = ''data'', documentsUploaded = Some 2, totalDocuments = Some 2,
           success = None, error = None\<rparr>],
       errors = [], summary = None\<rparr>)"
proof (intro conjI)
  show "hono_upload_collection obliging validated
     (Inr [(''collections'', FormFile ''data.json'' (Inr (JObj
        [('''', JObj [(''a'', JNum (Finite 1))])])))]) [] =
     ([Fetch (PostToken ''assertion''),
       Fetch (PatchDocument ''demo'' ''data'' ''doc_0_0'' ''token''
                (JObj [(''a'', JObj [(''integerValue'', JStr ''1'')]),
                       (''_id'', JObj [(''stringValue'', JStr '''')])])),
       Sleep 1000],
      \<lparr>status = 200, succeeded = Some True,
       results =
         [\<lparr>collection = ''data'', documentsUploaded = Some 1, totalDocuments = Some 1,
           success = Some True, error = None\<rparr>],
       errors = [], summary = Some (1, 1, 0, 1)\<rparr>)"
    by (simp add: hono_upload_collection_def obliging_def validated_def set_property_def
        getAccessToken_def is_ok_def hono_file_def strip_extension_def select_id_def
        uploadDocument_def template_def convertToFirestoreFields_def uploaded_total_def
        own_properties_def number_eval)
  show "hono_upload_collection obliging validated
     (Inr [(''collections'', FormFile ''data.json'' (Inr (JObj
        [(''owner'', JNull), (''tags'', JArr [JStr ''a'', JStr ''b''])])))]) [] =
     ([Fetch (PostToken ''assertion''),
       Fetch (PatchDocument ''demo'' ''data'' ''owner'' ''token'' (JObj [])),
       Sleep 1000,
       Fetch (PatchDocument ''demo'' ''data'' ''tags'' ''token''
                (JObj [(''0'', JObj [(''stringValue'', JStr ''a'')]),
                       (''1'', JObj [(''stringValue'', JStr ''b'')])]))],
      \<lparr>status = 200, succeeded = Some True,
       results =
         [\<lparr>collection = ''data'', documentsUploaded = Some 2, totalDocuments = Some 2,
           success = Some True, error = None\<rparr>],
       errors = [], summary = Some (1, 1, 0, 2)\<rparr>)"
    by (simp add: hono_upload_collection_def obliging_def validated_def set_property_def
        getAccessToken_def is_ok_def hono_file_def strip_extension_def select_id_def
        uploadDocument_def template_def convertToFirestoreFields_def uploaded_total_def
        own_properties_def indexed_def upt_rec number_eval)
qed (simp_all add: express_upload_collection_def obliging_def validated_def express_file_def
      path_parse_name_def select_id_def batchSize_def commitBatchWithRetry_def
      commit_attempts.simps own_properties_def indexed_def upt_rec show_nat_eval digit_char_def)

text \<open>
  C7 (amended). An array is normalized to its elements. Whatever the shape, the Hono
  handler sends one request per normalized document when all of them can be sent, and
  the Express handler commits one write per normalized document, in order, when none of
  them is null. A non-empty object whose values are all JSON objects gives one request
  (Hono) and one write (Express) per key, in order, and for every non-empty key the
  document id is the key and the fields are those of the value without \<^verbatim>\<open>_id\<close>. An object
  with a value that is a boolean, a number or a string is normalized to a single
  document. The empty object is rejected by both handlers with the error
  \<^verbatim>\<open>Empty JSON object\<close>, before any request or write. The file
  \<^verbatim>\<open>{ "x": { "a": 1 }, "y": { "b": 2 } }\<close> gives, in both handlers, exactly the documents \<^verbatim>\<open>x\<close>
  with \<^verbatim>\<open>{ a: 1 }\<close> and \<^verbatim>\<open>y\<close> with \<^verbatim>\<open>{ b: 2 }\<close>. The Hono part assumes a project id and a token
  that print as strings, the Express part an SDK that accepts every write and commits
  that succeed.
\<close>

theorem shape_normalization:
  assumes "get_property sa ''project_id'' = Inr pid" and "template pid = Inr project"
    and "template tok = Inr bearer"
    and "sdk_accepts env'" and "commits_succeed env'"
  shows "normalize_documents (JArr vs) = Inr vs \<and>
         (buffer fa = Inr json \<and> normalize_documents json = Inr docs \<and> list_all sendable docs \<longrightarrow>
            (\<exists>tr' n'.
               hono_file env sa tok fa tr =
                 (tr', \<lparr>collection = strip_extension (originalFilename fa),
                        documentsUploaded = Some n', totalDocuments = Some (length docs),
                        success = Some (0 < n'), error = None\<rparr>) \<and>
               length (requests tr') = length (requests tr) + length docs)) \<and>
         (buffer fa = Inr json \<and> normalize_documents json = Inr docs \<and> JNull \<notin> set docs \<longrightarrow>
            (\<exists>tr'.
               express_file env' fa tr =
                 (tr', \<lparr>collection = path_name env' (originalFilename fa),
                        documentsUploaded = Some (length docs), totalDocuments = Some (length docs),
                        success = None, error = None\<rparr>) \<and>
               map write_data (concat (commit_calls tr')) =
                 map write_data (concat (commit_calls tr)) @ map strip_id docs \<and>
               committed tr' = committed tr @ drop (length (commit_calls tr)) (commit_calls tr'))) \<and>
         (buffer f = Inr (JObj kvs) \<and> kvs \<noteq> [] \<and> list_all (\<lambda>(k, v). is_object v) kvs \<longrightarrow>
            (\<exists>tr' n' ps.
               hono_file env sa tok f tr =
                 (tr', \<lparr>collection = strip_extension (originalFilename f),
                        documentsUploaded = Some n', totalDocuments = Some (length kvs),
                        success = Some (0 < n'), error = None\<rparr>) \<and>
               requests tr' = requests tr @ ps \<and> length ps = length kvs \<and>
               (\<forall>j < length kvs. fst (kvs ! j) \<noteq> [] \<longrightarrow>
                  (\<exists>wire.
                     convertToFirestoreFields
                       (JObj (AList.delete ''_id'' (own_properties (snd (kvs ! j))))) = Inr wire \<and>
                     ps ! j = PatchDocument project (strip_extension (originalFilename f))
                                (fst (kvs ! j)) bearer (JSON_stringify wire)))) \<and>
            (\<exists>tr' ws.
               express_file env' f tr =
                 (tr', \<lparr>collection = path_name env' (originalFilename f),
                        documentsUploaded = Some (length kvs), totalDocuments = Some (length kvs),
                        success = None, error = None\<rparr>) \<and>
               concat (commit_calls tr') = concat (commit_calls tr) @ ws \<and>
               committed tr' = committed tr @ drop (length (commit_calls tr)) (commit_calls tr') \<and>
               length ws = length kvs \<and>
               (\<forall>j < length kvs. fst (kvs ! j) \<noteq> [] \<longrightarrow>
                  ws ! j = Write (path_name env' (originalFilename f)) (JStr (fst (kvs ! j)))
                             (JObj (AList.delete ''_id'' (own_properties (snd (kvs ! j)))))))) \<and>
         (list_ex (\<lambda>(k, v). \<not> typeof_object v) kvs1 \<longrightarrow>
            normalize_documents (JObj kvs1) = Inr [JObj kvs1]) \<and>
         (buffer f0 = Inr (JObj []) \<longrightarrow>
            hono_file env sa tok f0 tr =
              (tr, file_failed (strip_extension (originalFilename f0)) (Error ''Empty JSON object'')
                     (Some False)) \<and>
            express_file env' f0 tr =
              (tr, file_failed (path_name env' (originalFilename f0)) (Error ''Empty JSON object'')
                     None)) \<and>
         hono_upload_collection obliging validated
           (Inr [(''collections'', FormFile ''data.json'' (Inr (JObj
              [(''x'', JObj [(''a'', JNum (Finite 1))]),
               (''y'', JObj [(''b'', JNum (Finite 2))])])))]) [] =
           ([Fetch (PostToken ''assertion''),
             Fetch (PatchDocument ''demo'' ''data'' ''x'' ''token''
                      (JObj [(''a'', JObj [(''integerValue'', JStr ''1'')])])),
             Sleep 1000,
             Fetch (PatchDocument ''demo'' ''data'' ''y'' ''token''
                      (JObj [(''b'', JObj [(''integerValue'', JStr ''2'')])]))],
            \<lparr>status = 200, succeeded = Some True,
             results =
               [\<lparr>collection = ''data'', documentsUploaded = Some 2, totalDocuments = Some 2,
                 success = Some True, error = None\<rparr>],
             errors = [], summary = Some (1, 1, 0, 2)\<rparr>) \<and>
         express_upload_collection obliging validated
           [\<lparr>originalFilename = ''data.json'', buffer = Inr (JObj
              [(''x'', JObj [(''a'', JNum (Finite 1))]),
               (''y'', JObj [(''b'', JNum (Finite 2))])])\<rparr>] [] =
           ([Commit [Write ''data'' (JStr ''x'') (JObj [(''a'', JNum (Finite 1))]),
                     Write ''data'' (JStr ''y'') (JObj [(''b'', JNum (Finite 2))])] True,
             Sleep 1000],
            \<lparr>status = 200, succeeded = Some True,
             results =
               [\<lparr>collection = ''data'', documentsUploaded = Some 2, totalDocuments = Some 2,
                 success = None, error = None\<rparr>],
             errors = [], summary = None\<rparr>)"
proof -
  have hono_all: "buffer fa = Inr json \<and> normalize_documents json = Inr docs \<and>
      list_all sendable docs \<longrightarrow>
      (\<exists>tr' n'.
         hono_file env sa tok fa tr =
           (tr', \<lparr>collection = strip_extension (originalFilename fa),
                  documentsUploaded = Some n', totalDocuments = Some (length docs),
                  success = Some (0 < n'), error = None\<rparr>) \<and>
         length (requests tr') = length (requests tr) + length docs)"
    using hono_file_sends_all [OF assms(1,2,3), of fa json docs env tr] by blast
  have express_all: "buffer fa = Inr json \<and> normalize_documents json = Inr docs \<and>
      JNull \<notin> set docs \<longrightarrow>
      (\<exists>tr'.
         express_file env' fa tr =
           (tr', \<lparr>collection = path_name env' (originalFilename fa),
                  documentsUploaded = Some (length docs), totalDocuments = Some (length docs),
                  success = None, error = None\<rparr>) \<and>
         map write_data (concat (commit_calls tr')) =
           map write_data (concat (commit_calls tr)) @ map strip_id docs \<and>
         committed tr' = committed tr @ drop (length (commit_calls tr)) (commit_calls tr'))"
    using express_file_writes_all [OF assms(4,5), of fa json docs tr] by blast
  have keys: "buffer f = Inr (JObj kvs) \<and> kvs \<noteq> [] \<and> list_all (\<lambda>(k, v). is_object v) kvs \<longrightarrow>
      (\<exists>tr' n' ps.
         hono_file env sa tok f tr =
           (tr', \<lparr>collection = strip_extension (originalFilename f),
                  documentsUploaded = Some n', totalDocuments = Some (length kvs),
                  success = Some (0 < n'), error = None\<rparr>) \<and>
         requests tr' = requests tr @ ps \<and> length ps = length kvs \<and>
         (\<forall>j < length kvs. fst (kvs ! j) \<noteq> [] \<longrightarrow>
            (\<exists>wire.
               convertToFirestoreFields
                 (JObj (AList.delete ''_id'' (own_properties (snd (kvs ! j))))) = Inr wire \<and>
               ps ! j = PatchDocument project (strip_extension (originalFilename f))
                          (fst (kvs ! j)) bearer (JSON_stringify wire)))) \<and>
      (\<exists>tr' ws.
         express_file env' f tr =
           (tr', \<lparr>collection = path_name env' (originalFilename f),
                  documentsUploaded = Some (length kvs), totalDocuments = Some (length kvs),
                  success = None, error = None\<rparr>) \<and>
         concat (commit_calls tr') = concat (commit_calls tr) @ ws \<and>
         committed tr' = committed tr @ drop (length (commit_calls tr)) (commit_calls tr') \<and>
         length ws = length kvs \<and>
         (\<forall>j < length kvs. fst (kvs ! j) \<noteq> [] \<longrightarrow>
            ws ! j = Write (path_name env' (originalFilename f)) (JStr (fst (kvs ! j)))
                       (JObj (AList.delete ''_id'' (own_properties (snd (kvs ! j)))))))"
  proof
    assume a: "buffer f = Inr (JObj kvs) \<and> kvs \<noteq> [] \<and> list_all (\<lambda>(k, v). is_object v) kvs"
    then have b: "buffer f = Inr (JObj kvs)" and k: "kvs \<noteq> []"
      and o: "list_all (\<lambda>(k, v). is_object v) kvs"
      by simp_all
    from hono_file_per_key [OF assms(1,2,3) b k o, of env tr]
      express_file_per_key [OF assms(4,5) b k o, of tr]
    show "(\<exists>tr' n' ps.
         hono_file env sa tok f tr =
           (tr', \<lparr>collection = strip_extension (originalFilename f),
                  documentsUploaded = Some n', totalDocuments = Some (length kvs),
                  success = Some (0 < n'), error = None\<rparr>) \<and>
         requests tr' = requests tr @ ps \<and> length ps = length kvs \<and>
         (\<forall>j < length kvs. fst (kvs ! j) \<noteq> [] \<longrightarrow>
            (\<exists>wire.
               convertToFirestoreFields
                 (JObj (AList.delete ''_id'' (own_properties (snd (kvs ! j))))) = Inr wire \<and>
               ps ! j = PatchDocument project (strip_extension (originalFilename f))
                          (fst (kvs ! j)) bearer (JSON_stringify wire)))) \<and>
      (\<exists>tr' ws.
         express_file env' f tr =
           (tr', \<lparr>collection = path_name env' (originalFilename f),
                  documentsUploaded = Some (length kvs), totalDocuments = Some (length kvs),
                  success = None, error = None\<rparr>) \<and>
         concat (commit_calls tr') = concat (commit_calls tr) @ ws \<and>
         committed tr' = committed tr @ drop (length (commit_calls tr)) (commit_calls tr') \<and>
         length ws = length kvs \<and>
         (\<forall>j < length kvs. fst (kvs ! j) \<noteq> [] \<longrightarrow>
            ws ! j = Write (path_name env' (originalFilename f)) (JStr (fst (kvs ! j)))
                       (JObj (AList.delete ''_id'' (own_properties (snd (kvs ! j)))))))"
      by (rule conjI)
  qed
  have single: "list_ex (\<lambda>(k, v). \<not> typeof_object v) kvs1 \<longrightarrow>
      normalize_documents (JObj kvs1) = Inr [JObj kvs1]"
    by (cases kvs1) (auto simp: list_ex_iff list_all_iff)
  have empty: "buffer f0 = Inr (JObj []) \<longrightarrow>
      hono_file env sa tok f0 tr =
        (tr, file_failed (strip_extension (originalFilename f0)) (Error ''Empty JSON object'')
               (Some False)) \<and>
      express_file env' f0 tr =
        (tr, file_failed (path_name env' (originalFilename f0)) (Error ''Empty JSON object'')
               None)"
    by (simp add: hono_file_def express_file_def)
  have hono_example: "hono_upload_collection obliging validated
     (Inr [(''collections'', FormFile ''data.json'' (Inr (JObj
        [(''x'', JObj [(''a'', JNum (Finite 1))]),
         (''y'', JObj [(''b'', JNum (Finite 2))])])))]) [] =
     ([Fetch (PostToken ''assertion''),
       Fetch (PatchDocument ''demo'' ''data'' ''x'' ''token''
                (JObj [(''a'', JObj [(''integerValue'', JStr ''1'')])])),
       Sleep 1000,
       Fetch (PatchDocument ''demo'' ''data'' ''y'' ''token''
                (JObj [(''b'', JObj [(''integerValue'', JStr ''2'')])]))],
      \<lparr>status = 200, succeeded = Some True,
       results =
         [\<lparr>collection = ''data'', documentsUploaded = Some 2, totalDocuments = Some 2,
           success = Some True, error = None\<rparr>],
       errors = [], summary = Some (1, 1, 0, 2)\<rparr>)"
    by (simp add: hono_upload_collection_def obliging_def validated_def set_property_def
        getAccessToken_def is_ok_def hono_file_def strip_extension_def select_id_def
        uploadDocument_def template_def convertToFirestoreFields_def uploaded_total_def
        own_properties_def number_eval)
  have express_example: "express_upload_collection obliging validated
     [\<lparr>originalFilename = ''data.json'', buffer = Inr (JObj
        [(''x'', JObj [(''a'', JNum (Finite 1))]),
         (''y'', JObj [(''b'', JNum (Finite 2))])])\<rparr>] [] =
     ([Commit [Write ''data'' (JStr ''x'') (JObj [(''a'', JNum (Finite 1))]),
               Write ''data'' (JStr ''y'') (JObj [(''b'', JNum (Finite 2))])] True,
       Sleep 1000],
      \<lparr>status = 200, succeeded = Some True,
       results =
         [\<lparr>collection = ''data'', documentsUploaded = Some 2, totalDocuments = Some 2,
           success = None, error = None\<rparr>],
       errors = [], summary = None\<rparr>)"
    by (simp add: express_upload_collection_def obliging_def validated_def express_file_def
        path_parse_name_def select_id_def batchSize_def commitBatchWithRetry_def
        commit_attempts.simps own_properties_def show_nat_eval digit_char_def)
  have arr: "normalize_documents (JArr vs) = Inr vs" by simp
  show ?thesis
    by (intro conjI arr hono_all express_all keys single empty hono_example express_example)
qed

text \<open>
  C7 (amended), at an array of one document; at the file \<open>mixed_file\<close>, whose object holds
  the empty key beside the key \<^verbatim>\<open>x\<close> and whose value for \<^verbatim>\<open>x\<close> has an \<^verbatim>\<open>_id\<close> of its own; at an
  object with a number as value; and at the empty object.
\<close>

theorem shape_normalization_witness:
  "get_property (JObj [(''project_id'', JStr ''demo'')]) ''project_id'' = Inr (Some (JStr ''demo'')) \<and>
   template (Some (JStr ''demo'')) = Inr ''demo'' \<and>
   template (Some (JStr ''token'')) = Inr ''token'' \<and>
   sdk_accepts obliging \<and> commits_succeed obliging \<and>
   buffer \<lparr>originalFilename = ''list.json'', buffer = Inr (JArr [JObj [(''a'', JNull)]])\<rparr> = Inr (JArr [JObj [(''a'', JNull)]]) \<and>
   normalize_documents (JArr [JObj [(''a'', JNull)]]) = Inr [JObj [(''a'', JNull)]] \<and>
   list_all sendable [JObj [(''a'', JNull)]] \<and>
   JNull \<notin> set [JObj [(''a'', JNull)]] \<and>
   (\<exists>tr' n'.
      hono_file obliging (JObj [(''project_id'', JStr ''demo'')]) (Some (JStr ''token'')) \<lparr>originalFilename = ''list.json'', buffer = Inr (JArr [JObj [(''a'', JNull)]])\<rparr> [] =
        (tr', \<lparr>collection = strip_extension (originalFilename \<lparr>originalFilename = ''list.json'', buffer = Inr (JArr [JObj [(''a'', JNull)]])\<rparr>),
               documentsUploaded = Some n', totalDocuments = Some (length [JObj [(''a'', JNull)]]),
               success = Some (0 < n'), error = None\<rparr>) \<and>
      length (requests tr') = length (requests []) + length [JObj [(''a'', JNull)]]) \<and>
   (\<exists>tr'.
      express_file obliging \<lparr>originalFilename = ''list.json'', buffer = Inr (JArr [JObj [(''a'', JNull)]])\<rparr> [] =
        (tr', \<lparr>collection = path_name obliging (originalFilename \<lparr>originalFilename = ''list.json'', buffer = Inr (JArr [JObj [(''a'', JNull)]])\<rparr>),
               documentsUploaded = Some (length [JObj [(''a'', JNull)]]),
               totalDocuments = Some (length [JObj [(''a'', JNull)]]),
               success = None, error = None\<rparr>) \<and>
      map write_data (concat (commit_calls tr')) =
        map write_data (concat (commit_calls [])) @ map strip_id [JObj [(''a'', JNull)]] \<and>
      committed tr' = committed [] @ drop (length (commit_calls [])) (commit_calls tr')) \<and>
   buffer mixed_file = Inr (JObj mixed_keys) \<and>
   mixed_keys \<noteq> [] \<and>
   list_all (\<lambda>(k, v). is_object v) mixed_keys \<and>
   ((\<exists>tr' n' ps.
         hono_file obliging (JObj [(''project_id'', JStr ''demo'')]) (Some (JStr ''token'')) mixed_file [] =
           (tr', \<lparr>collection = strip_extension (originalFilename mixed_file),
                  documentsUploaded = Some n', totalDocuments = Some (length mixed_keys),
                  success = Some (0 < n'), error = None\<rparr>) \<and>
         requests tr' = requests [] @ ps \<and> length ps = length mixed_keys \<and>
         (\<forall>j < length mixed_keys. fst (mixed_keys ! j) \<noteq> [] \<longrightarrow>
            (\<exists>wire.
               convertToFirestoreFields
                 (JObj (AList.delete ''_id'' (own_properties (snd (mixed_keys ! j))))) = Inr wire \<and>
               ps ! j = PatchDocument ''demo'' (strip_extension (originalFilename mixed_file))
                          (fst (mixed_keys ! j)) ''token'' (JSON_stringify wire)))) \<and>
      (\<exists>tr' ws.
         express_file obliging mixed_file [] =
           (tr', \<lparr>collection = path_name obliging (originalFilename mixed_file),
                  documentsUploaded = Some (length mixed_keys), totalDocuments = Some (length mixed_keys),
                  success = None, error = None\<rparr>) \<and>
         concat (commit_calls tr') = concat (commit_calls []) @ ws \<and>
         committed tr' = committed [] @ drop (length (commit_calls [])) (commit_calls tr') \<and>
         length ws = length mixed_keys \<and>
         (\<forall>j < length mixed_keys. fst (mixed_keys ! j) \<noteq> [] \<longrightarrow>
            ws ! j = Write (path_name obliging (originalFilename mixed_file)) (JStr (fst (mixed_keys ! j)))
                       (JObj (AList.delete ''_id'' (own_properties (snd (mixed_keys ! j)))))))) \<and>
   list_ex (\<lambda>(k, v). \<not> typeof_object v) [(''n'', JNum (Finite 1))] \<and>
   normalize_documents (JObj [(''n'', JNum (Finite 1))]) = Inr [JObj [(''n'', JNum (Finite 1))]] \<and>
   buffer \<lparr>originalFilename = ''e.json'', buffer = Inr (JObj [])\<rparr> = Inr (JObj []) \<and>
   hono_file obliging (JObj [(''project_id'', JStr ''demo'')]) (Some (JStr ''token'')) \<lparr>originalFilename = ''e.json'', buffer = Inr (JObj [])\<rparr> [] =
     ([], file_failed (strip_extension (originalFilename \<lparr>originalFilename = ''e.json'', buffer = Inr (JObj [])\<rparr>)) (Error ''Empty JSON object'')
            (Some False)) \<and>
   express_file obliging \<lparr>originalFilename = ''e.json'', buffer = Inr (JObj [])\<rparr> [] =
     ([], file_failed (path_name obliging (originalFilename \<lparr>originalFilename = ''e.json'', buffer = Inr (JObj [])\<rparr>)) (Error ''Empty JSON object'')
            None) \<and>
   requests (fst (hono_file obliging (JObj [(''project_id'', JStr ''demo'')]) (Some (JStr ''token'')) mixed_file [])) =
     [PatchDocument ''demo'' ''data'' ''x'' ''token'' (JObj [(''a'', JObj [(''nullValue'', JNull)])]),
      PatchDocument ''demo'' ''data'' ''doc_0_1'' ''token''
        (JObj [(''b'', JObj [(''nullValue'', JNull)]),
               (''_id'', JObj [(''stringValue'', JStr '''')])])] \<and>
   commit_calls (fst (express_file obliging mixed_file [])) =
     [[Write ''data'' (JStr ''x'') (JObj [(''a'', JNull)]),
       Write ''data'' (JStr ''auto_1'') (JObj [(''b'', JNull), (''_id'', JStr '''')])]]"
proof -
  have h1: "get_property (JObj [(''project_id'', JStr ''demo'')]) ''project_id'' = Inr (Some (JStr ''demo''))" by simp
  have h2: "template (Some (JStr ''demo'')) = Inr ''demo''" by (simp add: template_def)
  have h3: "template (Some (JStr ''token'')) = Inr ''token''" by (simp add: template_def)
  have h4: "sdk_accepts obliging" by (simp add: sdk_accepts_def obliging_def)
  have h5: "commits_succeed obliging" by (simp add: commits_succeed_def obliging_def)
  have g1: "buffer mixed_file = Inr (JObj mixed_keys)" by (simp add: mixed_file_def)
  have g2: "normalize_documents (JArr [JObj [(''a'', JNull)]]) = Inr [JObj [(''a'', JNull)]]"
    by simp
  have g9: "list_all sendable [JObj [(''a'', JNull)]]"
    by (simp add: sendable_def select_id_def)
  have g3: "buffer \<lparr>originalFilename = ''list.json'', buffer = Inr (JArr [JObj [(''a'', JNull)]])\<rparr> = Inr (JArr [JObj [(''a'', JNull)]])" by simp
  have g4: "JNull \<notin> set [JObj [(''a'', JNull)]]" by simp
  have g5: "mixed_keys \<noteq> []" by (simp add: mixed_keys_def)
  have g6: "list_all (\<lambda>(k, v). is_object v) mixed_keys" by (simp add: mixed_keys_def)
  have g7: "list_ex (\<lambda>(k, v). \<not> typeof_object v) [(''n'', JNum (Finite 1))]" by simp
  have g8: "buffer \<lparr>originalFilename = ''e.json'', buffer = Inr (JObj [])\<rparr> = Inr (JObj [])" by simp
  note t = shape_normalization [OF h1 h2 h3 h4 h5,
    where env = obliging and f = "mixed_file" and json = "JArr [JObj [(''a'', JNull)]]"
      and docs = "[JObj [(''a'', JNull)]]" and tr = "[]"
      and fa = "\<lparr>originalFilename = ''list.json'', buffer = Inr (JArr [JObj [(''a'', JNull)]])\<rparr>" and vs = "[JObj [(''a'', JNull)]]" and kvs = "mixed_keys"
      and ?kvs1.0 = "[(''n'', JNum (Finite 1))]" and ?f0.0 = "\<lparr>originalFilename = ''e.json'', buffer = Inr (JObj [])\<rparr>"]
  note c2 = mp [OF t [THEN conjunct2, THEN conjunct1] conjI [OF g3 conjI [OF g2 g9]]]
  note c3 = mp [OF t [THEN conjunct2, THEN conjunct2, THEN conjunct1]
    conjI [OF g3 conjI [OF g2 g4]]]
  note c4 = mp [OF t [THEN conjunct2, THEN conjunct2, THEN conjunct2, THEN conjunct1]
    conjI [OF g1 conjI [OF g5 g6]]]
  note c5 = mp [OF t [THEN conjunct2, THEN conjunct2, THEN conjunct2, THEN conjunct2,
    THEN conjunct1] g7]
  note c6 = mp [OF t [THEN conjunct2, THEN conjunct2, THEN conjunct2, THEN conjunct2,
    THEN conjunct2, THEN conjunct1] g8]
  have r1: "requests (fst (hono_file obliging (JObj [(''project_id'', JStr ''demo'')]) (Some (JStr ''token'')) mixed_file [])) =
     [PatchDocument ''demo'' ''data'' ''x'' ''token'' (JObj [(''a'', JObj [(''nullValue'', JNull)])]),
      PatchDocument ''demo'' ''data'' ''doc_0_1'' ''token''
        (JObj [(''b'', JObj [(''nullValue'', JNull)]),
               (''_id'', JObj [(''stringValue'', JStr '''')])])]"
    by (simp add: mixed_file_def mixed_keys_def hono_file_def obliging_def
        strip_extension_def select_id_def uploadDocument_def template_def convertToFirestoreFields_def own_properties_def
        is_ok_def number_eval)
  have r2: "commit_calls (fst (express_file obliging mixed_file [])) =
     [[Write ''data'' (JStr ''x'') (JObj [(''a'', JNull)]),
       Write ''data'' (JStr ''auto_1'') (JObj [(''b'', JNull), (''_id'', JStr '''')])]]"
    by (simp add: mixed_file_def mixed_keys_def express_file_def obliging_def
        path_parse_name_def select_id_def batchSize_def commitBatchWithRetry_def commit_attempts.simps own_properties_def
        show_nat_eval digit_char_def)
  show ?thesis
    by (intro conjI h1 h2 h3 h4 h5 g3 g2 g9 g4 c2 c3 g1 g5 g6
        c4 g7 c5 g8 c6 [THEN conjunct1] c6 [THEN conjunct2] r1 r2)
qed

text \<open>
  C10. A document whose \<^verbatim>\<open>_id\<close> is present and falsy is sent by the Hono loop under the
  synthesized id \<^verbatim>\<open>doc_<time>_<index>\<close>, with fields that are the encoding of the whole
  document, \<^verbatim>\<open>_id\<close> included; the Express loop, when the SDK accepts every write and every
  commit succeeds, commits it under the generated id with its \<^verbatim>\<open>_id\<close> property. A document
  with a truthy \<^verbatim>\<open>_id\<close> is sent or committed under that id and without the property. The
  empty string, 0, false and null are falsy, and a file of four documents with these as
  \<^verbatim>\<open>_id\<close> goes through both handlers in this way.
\<close>

theorem falsy_id_ignored:
  assumes "map_of kvs ''_id'' = Some v" and "\<not> truthy v"
    and "get_property sa ''project_id'' = Inr pid" and "template pid = Inr project"
    and "template tok = Inr bearer"
    and "sdk_accepts env'" and "commits_succeed env'" and "JNull \<notin> set docs"
  shows "(\<exists>wire evs.
            convertToFirestoreFields (JObj kvs) = Inr (JObj wire) \<and> map_of wire ''_id'' \<noteq> None \<and>
            fst (hono_documents env sa tok c i (JObj kvs # rest) n tr) =
              tr @ Fetch (PatchDocument project c
                            (''doc_'' @ show_nat (clock env i) @ ''_'' @ show_nat i) bearer
                            (JSON_stringify (JObj wire))) # evs) \<and>
         (j < length docs \<and> docs ! j = JObj kvs \<longrightarrow>
            snd (express_documents env' c' 0 docs [] 0 []) = Inr (length docs) \<and>
            concat (committed (fst (express_documents env' c' 0 docs [] 0 []))) ! j =
              Write c' (JStr (auto_id env' j)) (JObj kvs)) \<and>
         (map_of kvs' ''_id'' = Some v' \<and> truthy v' \<and> ToString v' = Inr printed \<longrightarrow>
            (\<exists>wire evs.
               convertToFirestoreFields (JObj (AList.delete ''_id'' kvs')) = Inr (JObj wire) \<and>
               map_of wire ''_id'' = None \<and>
               fst (hono_documents env sa tok c i (JObj kvs' # rest) n tr) =
                 tr @ Fetch (PatchDocument project c printed bearer
                               (JSON_stringify (JObj wire))) # evs)) \<and>
         (map_of kvs' ''_id'' = Some v' \<and> truthy v' \<and> j' < length docs \<and> docs ! j' = JObj kvs' \<longrightarrow>
            concat (committed (fst (express_documents env' c' 0 docs [] 0 []))) ! j' =
              Write c' v' (JObj (AList.delete ''_id'' kvs'))) \<and>
         hono_upload_collection obliging validated
            (Inr [(''collections'', FormFile ''c.json'' (Inr (JArr
               [JObj [(''_id'', JStr ''''), (''a'', JNum (Finite 1))],
                JObj [(''_id'', JNum (Finite 0))],
                JObj [(''_id'', JBool False)],
                JObj [(''_id'', JNull)]])))]) [] =
            ([Fetch (PostToken ''assertion''),
              Fetch (PatchDocument ''demo'' ''c'' ''doc_0_0'' ''token''
                       (JObj [(''_id'', JObj [(''stringValue'', JStr '''')]),
                              (''a'', JObj [(''integerValue'', JStr ''1'')])])),
              Sleep 1000,
              Fetch (PatchDocument ''demo'' ''c'' ''doc_0_1'' ''token''
                       (JObj [(''_id'', JObj [(''integerValue'', JStr ''0'')])])),
              Fetch (PatchDocument ''demo'' ''c'' ''doc_0_2'' ''token''
                       (JObj [(''_id'', JObj [(''booleanValue'', JBool False)])])),
              Fetch (PatchDocument ''demo'' ''c'' ''doc_0_3'' ''token''
                       (JObj [(''_id'', JObj [(''nullValue'', JNull)])]))],
             \<lparr>status = 200, succeeded = Some True,
              results =
                [\<lparr>collection = ''c'', documentsUploaded = Some 4, totalDocuments = Some 4,
                  success = Some True, error = None\<rparr>],
              errors = [], summary = Some (1, 1, 0, 4)\<rparr>) \<and>
         express_upload_collection obliging validated
            [\<lparr>originalFilename = ''c.json'', buffer = Inr (JArr
               [JObj [(''_id'', JStr ''''), (''a'', JNum (Finite 1))],
                JObj [(''_id'', JNum (Finite 0))],
                JObj [(''_id'', JBool False)],
                JObj [(''_id'', JNull)]])\<rparr>] [] =
            ([Commit [Write ''c'' (JStr ''auto_0'') (JObj [(''_id'', JStr ''''), (''a'', JNum (Finite 1))]),
                      Write ''c'' (JStr ''auto_1'') (JObj [(''_id'', JNum (Finite 0))]),
                      Write ''c'' (JStr ''auto_2'') (JObj [(''_id'', JBool False)]),
                      Write ''c'' (JStr ''auto_3'') (JObj [(''_id'', JNull)])] True,
              Sleep 1000],
             \<lparr>status = 200, succeeded = Some True,
              results =
                [\<lparr>collection = ''c'', documentsUploaded = Some 4, totalDocuments = Some 4,
                  success = None, error = None\<rparr>],
              errors = [], summary = None\<rparr>) \<and>
         \<not> truthy (JStr '''') \<and> \<not> truthy (JNum (Finite 0)) \<and> \<not> truthy (JBool False) \<and>
         \<not> truthy JNull"
proof (intro conjI impI)
  let ?fallback = "JStr (''doc_'' @ show_nat (clock env i) @ ''_'' @ show_nat i)"
  from encoded_with_id [OF assms(1)] obtain wire where
    wire: "convertToFirestoreFields (JObj kvs) = Inr (JObj wire)" "map_of wire ''_id'' \<noteq> None"
    by blast
  have sel: "select_id (JObj kvs) ?fallback = Inr ?fallback"
    using assms(1,2) by (simp add: select_id_def)
  have keep: "strip_id (JObj kvs) = JObj kvs"
    using assms(1,2) by simp
  from hono_documents_first_request [OF sel assms(3,4,5), of _ "JObj wire" c rest n tr] wire(1) keep
  obtain evs where "fst (hono_documents env sa tok c i (JObj kvs # rest) n tr) =
      tr @ Fetch (PatchDocument project c (''doc_'' @ show_nat (clock env i) @ ''_'' @ show_nat i)
                    bearer (JSON_stringify (JObj wire))) # evs"
    by auto
  with wire show "\<exists>wire evs.
      convertToFirestoreFields (JObj kvs) = Inr (JObj wire) \<and> map_of wire ''_id'' \<noteq> None \<and>
      fst (hono_documents env sa tok c i (JObj kvs # rest) n tr) =
        tr @ Fetch (PatchDocument project c
                      (''doc_'' @ show_nat (clock env i) @ ''_'' @ show_nat i) bearer
                      (JSON_stringify (JObj wire))) # evs"
    by blast
next
  show "snd (express_documents env' c' 0 docs [] 0 []) = Inr (length docs)"
    by (rule express_documents_committed [OF assms(6,7,8)])
next
  assume j: "j < length docs \<and> docs ! j = JObj kvs"
  with assms(1,2) show "concat (committed (fst (express_documents env' c' 0 docs [] 0 []))) ! j =
      Write c' (JStr (auto_id env' j)) (JObj kvs)"
    by (simp add: express_documents_committed [OF assms(6,7,8)] express_writes_nth
        document_id_def)
next
  assume t: "map_of kvs' ''_id'' = Some v' \<and> truthy v' \<and> ToString v' = Inr printed"
  let ?fallback = "JStr (''doc_'' @ show_nat (clock env i) @ ''_'' @ show_nat i)"
  from encoded_without_id [of kvs'] obtain wire where
    wire: "convertToFirestoreFields (JObj (AList.delete ''_id'' kvs')) = Inr (JObj wire)"
      "map_of wire ''_id'' = None"
    by blast
  have sel: "select_id (JObj kvs') ?fallback = Inr v'"
    using t by (simp add: select_id_def)
  have strip: "strip_id (JObj kvs') = JObj (AList.delete ''_id'' kvs')"
    using t by simp
  from t have printed: "ToString v' = Inr printed" by simp
  from hono_documents_first_request [OF sel assms(3,4,5) printed, of "JObj wire" c rest n tr]
    wire(1) strip
  obtain evs where "fst (hono_documents env sa tok c i (JObj kvs' # rest) n tr) =
      tr @ Fetch (PatchDocument project c printed bearer (JSON_stringify (JObj wire))) # evs"
    by auto
  with wire show "\<exists>wire evs.
      convertToFirestoreFields (JObj (AList.delete ''_id'' kvs')) = Inr (JObj wire) \<and>
      map_of wire ''_id'' = None \<and>
      fst (hono_documents env sa tok c i (JObj kvs' # rest) n tr) =
        tr @ Fetch (PatchDocument project c printed bearer (JSON_stringify (JObj wire))) # evs"
    by blast
next
  assume t: "map_of kvs' ''_id'' = Some v' \<and> truthy v' \<and> j' < length docs \<and> docs ! j' = JObj kvs'"
  then show "concat (committed (fst (express_documents env' c' 0 docs [] 0 []))) ! j' =
      Write c' v' (JObj (AList.delete ''_id'' kvs'))"
    by (simp add: express_documents_committed [OF assms(6,7,8)] express_writes_nth
        document_id_def)
next
  show "hono_upload_collection obliging validated
         (Inr [(''collections'', FormFile ''c.json'' (Inr (JArr
            [JObj [(''_id'', JStr ''''), (''a'', JNum (Finite 1))],
             JObj [(''_id'', JNum (Finite 0))],
             JObj [(''_id'', JBool False)],
             JObj [(''_id'', JNull)]])))]) [] =
         ([Fetch (PostToken ''assertion''),
           Fetch (PatchDocument ''demo'' ''c'' ''doc_0_0'' ''token''
                    (JObj [(''_id'', JObj [(''stringValue'', JStr '''')]),
                           (''a'', JObj [(''integerValue'', JStr ''1'')])])),
           Sleep 1000,
           Fetch (PatchDocument ''demo'' ''c'' ''doc_0_1'' ''token''
                    (JObj [(''_id'', JObj [(''integerValue'', JStr ''0'')])])),
           Fetch (PatchDocument ''demo'' ''c'' ''doc_0_2'' ''token''
                    (JObj [(''_id'', JObj [(''booleanValue'', JBool False)])])),
           Fetch (PatchDocument ''demo'' ''c'' ''doc_0_3'' ''token''
                    (JObj [(''_id'', JObj [(''nullValue'', JNull)])]))],
          \<lparr>status = 200, succeeded = Some True,
           results =
             [\<lparr>collection = ''c'', documentsUploaded = Some 4, totalDocuments = Some 4,
               success = Some True, error = None\<rparr>],
           errors = [], summary = Some (1, 1, 0, 4)\<rparr>)"
    by (simp add: hono_upload_collection_def obliging_def validated_def set_property_def
        getAccessToken_def is_ok_def hono_file_def strip_extension_def select_id_def
        uploadDocument_def template_def convertToFirestoreFields_def uploaded_total_def
        number_eval)
next
  show "express_upload_collection obliging validated
         [\<lparr>originalFilename = ''c.json'', buffer = Inr (JArr
            [JObj [(''_id'', JStr ''''), (''a'', JNum (Finite 1))],
             JObj [(''_id'', JNum (Finite 0))],
             JObj [(''_id'', JBool False)],
             JObj [(''_id'', JNull)]])\<rparr>] [] =
         ([Commit [Write ''c'' (JStr ''auto_0'') (JObj [(''_id'', JStr ''''), (''a'', JNum (Finite 1))]),
                   Write ''c'' (JStr ''auto_1'') (JObj [(''_id'', JNum (Finite 0))]),
                   Write ''c'' (JStr ''auto_2'') (JObj [(''_id'', JBool False)]),
                   Write ''c'' (JStr ''auto_3'') (JObj [(''_id'', JNull)])] True,
           Sleep 1000],
          \<lparr>status = 200, succeeded = Some True,
           results =
             [\<lparr>collection = ''c'', documentsUploaded = Some 4, totalDocuments = Some 4,
               success = None, error = None\<rparr>],
           errors = [], summary = None\<rparr>)"
    by (simp add: express_upload_collection_def obliging_def validated_def express_file_def
        path_parse_name_def select_id_def batchSize_def commitBatchWithRetry_def
        commit_attempts.simps show_nat_eval digit_char_def)
qed simp_all

text \<open>
  C10, at a document with \<^verbatim>\<open>_id\<close> 0 and at one with \<^verbatim>\<open>_id\<close> \<^verbatim>\<open>"k"\<close>.
\<close>

theorem falsy_id_ignored_witness:
  "map_of [(''_id'', JNum (Finite 0)), (''a'', JNull)] ''_id'' = Some (JNum (Finite 0)) \<and>
   \<not> truthy (JNum (Finite 0)) \<and>
   get_property (JObj [(''project_id'', JStr ''demo'')]) ''project_id'' = Inr (Some (JStr ''demo'')) \<and>
   template (Some (JStr ''demo'')) = Inr ''demo'' \<and>
   template (Some (JStr ''token'')) = Inr ''token'' \<and>
   sdk_accepts obliging \<and> commits_succeed obliging \<and>
   JNull \<notin> set [JObj [(''_id'', JNum (Finite 0)), (''a'', JNull)], JObj [(''_id'', JStr ''k''), (''a'', JNull)]] \<and>
   (0 :: nat) < length [JObj [(''_id'', JNum (Finite 0)), (''a'', JNull)], JObj [(''_id'', JStr ''k''), (''a'', JNull)]] \<and>
   [JObj [(''_id'', JNum (Finite 0)), (''a'', JNull)], JObj [(''_id'', JStr ''k''), (''a'', JNull)]] ! 0 = JObj [(''_id'', JNum (Finite 0)), (''a'', JNull)] \<and>
   map_of [(''_id'', JStr ''k''), (''a'', JNull)] ''_id'' = Some (JStr ''k'') \<and> truthy (JStr ''k'') \<and>
   ToString (JStr ''k'') = Inr ''k'' \<and>
   (1 :: nat) < length [JObj [(''_id'', JNum (Finite 0)), (''a'', JNull)], JObj [(''_id'', JStr ''k''), (''a'', JNull)]] \<and>
   [JObj [(''_id'', JNum (Finite 0)), (''a'', JNull)], JObj [(''_id'', JStr ''k''), (''a'', JNull)]] ! 1 = JObj [(''_id'', JStr ''k''), (''a'', JNull)] \<and>
   (\<exists>wire evs.
      convertToFirestoreFields (JObj [(''_id'', JNum (Finite 0)), (''a'', JNull)]) = Inr (JObj wire) \<and>
      map_of wire ''_id'' \<noteq> None \<and>
      fst (hono_documents obliging (JObj [(''project_id'', JStr ''demo'')]) (Some (JStr ''token'')) ''c'' 7 (JObj [(''_id'', JNum (Finite 0)), (''a'', JNull)] # []) 0 []) =
        [] @ Fetch (PatchDocument ''demo'' ''c''
                      (''doc_'' @ show_nat (clock obliging 7) @ ''_'' @ show_nat 7) ''token''
                      (JSON_stringify (JObj wire))) # evs) \<and>
   snd (express_documents obliging ''c'' 0 [JObj [(''_id'', JNum (Finite 0)), (''a'', JNull)], JObj [(''_id'', JStr ''k''), (''a'', JNull)]] [] 0 []) = Inr (length [JObj [(''_id'', JNum (Finite 0)), (''a'', JNull)], JObj [(''_id'', JStr ''k''), (''a'', JNull)]]) \<and>
   concat (committed (fst (express_documents obliging ''c'' 0 [JObj [(''_id'', JNum (Finite 0)), (''a'', JNull)], JObj [(''_id'', JStr ''k''), (''a'', JNull)]] [] 0 []))) ! 0 =
     Write ''c'' (JStr (auto_id obliging 0)) (JObj [(''_id'', JNum (Finite 0)), (''a'', JNull)]) \<and>
   (\<exists>wire evs.
      convertToFirestoreFields (JObj (AList.delete ''_id'' [(''_id'', JStr ''k''), (''a'', JNull)])) = Inr (JObj wire) \<and>
      map_of wire ''_id'' = None \<and>
      fst (hono_documents obliging (JObj [(''project_id'', JStr ''demo'')]) (Some (JStr ''token'')) ''c'' 7 (JObj [(''_id'', JStr ''k''), (''a'', JNull)] # []) 0 []) =
        [] @ Fetch (PatchDocument ''demo'' ''c'' ''k'' ''token'' (JSON_stringify (JObj wire))) # evs) \<and>
   concat (committed (fst (express_documents obliging ''c'' 0 [JObj [(''_id'', JNum (Finite 0)), (''a'', JNull)], JObj [(''_id'', JStr ''k''), (''a'', JNull)]] [] 0 []))) ! 1 =
     Write ''c'' (JStr ''k'') (JObj (AList.delete ''_id'' [(''_id'', JStr ''k''), (''a'', JNull)])) \<and>
   fst (hono_documents obliging (JObj [(''project_id'', JStr ''demo'')]) (Some (JStr ''token'')) ''c'' 7 [JObj [(''_id'', JNum (Finite 0)), (''a'', JNull)]] 0 []) =
     [Fetch (PatchDocument ''demo'' ''c'' ''doc_0_7'' ''token''
               (JObj [(''_id'', JObj [(''integerValue'', JStr ''0'')]),
                      (''a'', JObj [(''nullValue'', JNull)])]))] \<and>
   fst (hono_documents obliging (JObj [(''project_id'', JStr ''demo'')]) (Some (JStr ''token'')) ''c'' 7 [JObj [(''_id'', JStr ''k''), (''a'', JNull)]] 0 []) =
     [Fetch (PatchDocument ''demo'' ''c'' ''k'' ''token''
               (JObj [(''a'', JObj [(''nullValue'', JNull)])]))]"
proof -
  have h1: "map_of [(''_id'', JNum (Finite 0)), (''a'', JNull)] ''_id'' = Some (JNum (Finite 0))" by simp
  have h2: "\<not> truthy (JNum (Finite 0))" by simp
  have h3: "get_property (JObj [(''project_id'', JStr ''demo'')]) ''project_id'' = Inr (Some (JStr ''demo''))" by simp
  have h4: "template (Some (JStr ''demo'')) = Inr ''demo''" by (simp add: template_def)
  have h5: "template (Some (JStr ''token'')) = Inr ''token''" by (simp add: template_def)
  have h6: "sdk_accepts obliging" by (simp add: sdk_accepts_def obliging_def)
  have h7: "commits_succeed obliging" by (simp add: commits_succeed_def obliging_def)
  have h8: "JNull \<notin> set [JObj [(''_id'', JNum (Finite 0)), (''a'', JNull)], JObj [(''_id'', JStr ''k''), (''a'', JNull)]]" by simp
  have g1: "(0 :: nat) < length [JObj [(''_id'', JNum (Finite 0)), (''a'', JNull)], JObj [(''_id'', JStr ''k''), (''a'', JNull)]]" by simp
  have g2: "[JObj [(''_id'', JNum (Finite 0)), (''a'', JNull)], JObj [(''_id'', JStr ''k''), (''a'', JNull)]] ! 0 = JObj [(''_id'', JNum (Finite 0)), (''a'', JNull)]" by simp
  have g3: "map_of [(''_id'', JStr ''k''), (''a'', JNull)] ''_id'' = Some (JStr ''k'')" by simp
  have g4: "truthy (JStr ''k'')" by simp
  have g5: "ToString (JStr ''k'') = Inr ''k''" by simp
  have g6: "(1 :: nat) < length [JObj [(''_id'', JNum (Finite 0)), (''a'', JNull)], JObj [(''_id'', JStr ''k''), (''a'', JNull)]]" by simp
  have g7: "[JObj [(''_id'', JNum (Finite 0)), (''a'', JNull)], JObj [(''_id'', JStr ''k''), (''a'', JNull)]] ! 1 = JObj [(''_id'', JStr ''k''), (''a'', JNull)]" by simp
  note t = falsy_id_ignored [OF h1 h2 h3 h4 h5 h6 h7 h8,
    where env = obliging and c = "''c''" and i = 7 and rest = "[]" and n = 0 and tr = "[]"
      and j = 0 and c' = "''c''" and kvs' = "[(''_id'', JStr ''k''), (''a'', JNull)]" and v' = "JStr ''k''" and printed = "''k''"
      and j' = 1]
  note c1 = t [THEN conjunct1]
  note c2 = t [THEN conjunct2, THEN conjunct1, rule_format, OF conjI, OF g1 g2]
  note c3 = t [THEN conjunct2, THEN conjunct2, THEN conjunct1, rule_format, OF conjI, OF g3 conjI,
    OF g4 g5]
  note c4 = t [THEN conjunct2, THEN conjunct2, THEN conjunct2, THEN conjunct1, rule_format,
    OF conjI, OF g3 conjI, OF g4 conjI, OF g6 g7]
  have r1: "fst (hono_documents obliging (JObj [(''project_id'', JStr ''demo'')]) (Some (JStr ''token'')) ''c'' 7 [JObj [(''_id'', JNum (Finite 0)), (''a'', JNull)]] 0 []) =
     [Fetch (PatchDocument ''demo'' ''c'' ''doc_0_7'' ''token''
               (JObj [(''_id'', JObj [(''integerValue'', JStr ''0'')]),
                      (''a'', JObj [(''nullValue'', JNull)])]))]"
    by (simp add: obliging_def select_id_def uploadDocument_def template_def
        convertToFirestoreFields_def is_ok_def number_eval)
  have r2: "fst (hono_documents obliging (JObj [(''project_id'', JStr ''demo'')]) (Some (JStr ''token'')) ''c'' 7 [JObj [(''_id'', JStr ''k''), (''a'', JNull)]] 0 []) =
     [Fetch (PatchDocument ''demo'' ''c'' ''k'' ''token''
               (JObj [(''a'', JObj [(''nullValue'', JNull)])]))]"
    by (simp add: obliging_def select_id_def uploadDocument_def template_def
        convertToFirestoreFields_def is_ok_def number_eval)
  show ?thesis
    by (intro conjI h1 h2 h3 h4 h5 h6 h7 h8 g1 g2 g3 g4 g5 g6 g7 c1 c2 [THEN conjunct1]
        c2 [THEN conjunct2] c3 c4 r1 r2)
qed

section \<open>Claims about credential validation\<close>

text \<open>
  C8 (counterexample). The claim: the stages run in order and stop at the first failure,
  and each failure is tagged with the name of its stage. With a valid structure, a token,
  and a project metadata request answered with 404, the project check fails and is tagged
  \<^verbatim>\<open>firebase\<close>, and the database probe and the key lookup are still sent. The key lookup
  fails too (the response lists no keys) and is not tagged. On the account
  \<^verbatim>\<open>{ "client_email": 5 }\<close> the structural check throws, a number having no \<^verbatim>\<open>endsWith\<close>, and
  the failure is tagged \<^verbatim>\<open>general\<close>.
\<close>

theorem validation_continues_counterexample:
  "validateServiceAccountComplete project_missing demo_account [] =
     ([Fetch (PostToken ''assertion''),
       Fetch (GetProject ''demo'' ''token''),
       Fetch (GetDatabase ''demo'' ''token''),
       Fetch (PostListCollectionIds ''demo'' ''token''),
       Fetch (GetKeys ''demo'' ''up@demo.iam.gserviceaccount.com'' ''token'')],
      \<lparr>valid = False,
       checks = \<lparr>structure_check = True, authentication = True, iam = True, firestore = True,
                 firebase = False\<rparr>,
       accountInfo = True, error_types = [''firebase'']\<rparr>) \<and>
   validateServiceAccountComplete project_missing (JObj [(''client_email'', JNum (Finite 5))]) [] =
     ([], \<lparr>valid = False, checks = initial_checks, accountInfo = False,
            error_types = [''general'']\<rparr>)"
proof (intro conjI)
  show "validateServiceAccountComplete project_missing (JObj [(''client_email'', JNum (Finite 5))]) [] =
     ([], \<lparr>valid = False, checks = initial_checks, accountInfo = False,
            error_types = [''general'']\<rparr>)"
    by (simp add: validateServiceAccountComplete_def validateServiceAccountStructure_def
        required_fields_def)
qed (simp add: validateServiceAccountComplete_def demo_account_structure structure_valid_def
      demo_account_properties getAccessToken_def validateFirebaseProject_def
      validateFirestoreAccess_def validateServiceAccountKey_def project_missing_def
      obliging_def is_ok_def template_def is_valid_def current_key_def)

text \<open>
  C8 (amended). A structural check that throws ends the validation with the tag
  \<^verbatim>\<open>general\<close>, one that returns invalid ends it with the tag \<^verbatim>\<open>structure\<close>, both without a
  request. With a valid structure, an exception of the token acquisition ends it with the
  tag \<^verbatim>\<open>authentication\<close>. Once a token request has returned, the project metadata fetch,
  the database probe and the key lookup all run, in this order and whatever their
  outcomes; the failure of the first is tagged \<^verbatim>\<open>firebase\<close>, that of the second
  \<^verbatim>\<open>firestore\<close>, that of the key lookup is not tagged. The project check is valid exactly
  when its request is answered with a 2xx status and a body whose \<^verbatim>\<open>state\<close> is \<^verbatim>\<open>ACTIVE\<close>.
  For every account, the verdict is valid exactly when the structural check returns
  valid, the token acquisition returns a truthy token and the project check is valid; the
  database probe and the key lookup do not enter the verdict.
\<close>

theorem validation_stages:
  "(validateServiceAccountStructure s0 = Inl e0 \<longrightarrow>
      validateServiceAccountComplete env0 s0 tr0 =
        (tr0, \<lparr>valid = False, checks = initial_checks, accountInfo = False,
                error_types = [''general'']\<rparr>)) \<and>
   (validateServiceAccountStructure s1 = Inr errs1 \<and> \<not> structure_valid errs1 \<longrightarrow>
      validateServiceAccountComplete env1 s1 tr1 =
        (tr1, \<lparr>valid = False, checks = initial_checks, accountInfo = False,
                error_types = [''structure'']\<rparr>)) \<and>
   (validateServiceAccountStructure s2 = Inr errs2 \<and> structure_valid errs2 \<and>
    getAccessToken env2 s2 tr2 = (tr2', Inl e2) \<longrightarrow>
      validateServiceAccountComplete env2 s2 tr2 =
        (tr2', \<lparr>valid = False, checks = initial_checks\<lparr>structure_check := True\<rparr>,
                 accountInfo = False, error_types = [''authentication'']\<rparr>)) \<and>
   (validateServiceAccountStructure s3 = Inr errs3 \<and> structure_valid errs3 \<and>
    getAccessToken env3 s3 tr3 = (t1, Inr accessToken) \<and>
    validateFirebaseProject env3 s3 accessToken t1 = (t2, firebaseCheck) \<and>
    validateFirestoreAccess env3 s3 accessToken t2 = (t3, firestoreCheck) \<and>
    validateServiceAccountKey env3 s3 accessToken t3 = (t4, keyCheck) \<longrightarrow>
      fst (validateServiceAccountComplete env3 s3 tr3) = t4 \<and>
      valid (snd (validateServiceAccountComplete env3 s3 tr3)) =
        (truthy_opt accessToken \<and> is_valid firebaseCheck) \<and>
      error_types (snd (validateServiceAccountComplete env3 s3 tr3)) =
        (if is_valid firebaseCheck then [] else [''firebase'']) @
        (if is_valid firestoreCheck then [] else [''firestore''])) \<and>
   (get_property s4 ''project_id'' = Inr pid \<and> template pid = Inr project \<and>
    template token = Inr bearer \<longrightarrow>
      fst (validateFirebaseProject env4 s4 token tr4) = tr4 @ [Fetch (GetProject project bearer)] \<and>
      is_valid (snd (validateFirebaseProject env4 s4 token tr4)) =
        (\<exists>code data. respond env4 tr4 (GetProject project bearer) = Response code (Inr data) \<and>
           is_ok code \<and> get_property data ''state'' = Inr (Some (JStr ''ACTIVE'')))) \<and>
   (valid (snd (validateServiceAccountComplete env5 s5 tr5)) \<longleftrightarrow>
      (\<exists>errs t tok. validateServiceAccountStructure s5 = Inr errs \<and> structure_valid errs \<and>
         getAccessToken env5 s5 tr5 = (t, Inr tok) \<and> truthy_opt tok \<and>
         is_valid (snd (validateFirebaseProject env5 s5 tok t))))"
proof (intro conjI)
  show "valid (snd (validateServiceAccountComplete env5 s5 tr5)) \<longleftrightarrow>
      (\<exists>errs t tok. validateServiceAccountStructure s5 = Inr errs \<and> structure_valid errs \<and>
         getAccessToken env5 s5 tr5 = (t, Inr tok) \<and> truthy_opt tok \<and>
         is_valid (snd (validateFirebaseProject env5 s5 tok t)))"
    by (auto simp: validateServiceAccountComplete_def split: sum.splits prod.splits)
qed (auto simp: validateServiceAccountComplete_def validateFirebaseProject_def is_valid_def
      split: fetch_result.splits sum.splits)

text \<open>
  C8 (amended), at the account \<^verbatim>\<open>null\<close>, at the empty object, at the demo account when no
  assertion can be signed, and at the demo account in an environment with an active
  project.
\<close>

theorem validation_stages_witness:
  "validateServiceAccountStructure JNull = Inl TypeError \<and>
   validateServiceAccountComplete healthy JNull [] =
     ([], \<lparr>valid = False, checks = initial_checks, accountInfo = False,
            error_types = [''general'']\<rparr>) \<and>
   validateServiceAccountStructure (JObj []) =
     Inr \<lparr>missingFields = True, invalidType = True, invalidEmail = True,
          invalidPrivateKey = True\<rparr> \<and>
   \<not> structure_valid \<lparr>missingFields = True, invalidType = True, invalidEmail = True,
          invalidPrivateKey = True\<rparr> \<and>
   validateServiceAccountComplete healthy (JObj []) [] =
     ([], \<lparr>valid = False, checks = initial_checks, accountInfo = False,
            error_types = [''structure'']\<rparr>) \<and>
   validateServiceAccountStructure demo_account =
     Inr \<lparr>missingFields = False, invalidType = False, invalidEmail = False,
          invalidPrivateKey = False\<rparr> \<and>
   structure_valid \<lparr>missingFields = False, invalidType = False, invalidEmail = False,
          invalidPrivateKey = False\<rparr> \<and>
   getAccessToken unsigned demo_account [] = ([], Inl (Error ''bad key'')) \<and>
   validateServiceAccountComplete unsigned demo_account [] =
     ([], \<lparr>valid = False, checks = initial_checks\<lparr>structure_check := True\<rparr>,
            accountInfo = False, error_types = [''authentication'']\<rparr>) \<and>
   getAccessToken healthy demo_account [] =
     ([Fetch (PostToken ''assertion'')], Inr (Some (JStr ''token''))) \<and>
   validateFirebaseProject healthy demo_account (Some (JStr ''token''))
       [Fetch (PostToken ''assertion'')] =
     ([Fetch (PostToken ''assertion''), Fetch (GetProject ''demo'' ''token'')],
      Inr (JObj [(''state'', JStr ''ACTIVE'')])) \<and>
   validateFirestoreAccess healthy demo_account (Some (JStr ''token''))
       [Fetch (PostToken ''assertion''), Fetch (GetProject ''demo'' ''token'')] =
     ([Fetch (PostToken ''assertion''), Fetch (GetProject ''demo'' ''token''),
       Fetch (GetDatabase ''demo'' ''token''), Fetch (PostListCollectionIds ''demo'' ''token'')],
      Inr True) \<and>
   validateServiceAccountKey healthy demo_account (Some (JStr ''token''))
       [Fetch (PostToken ''assertion''), Fetch (GetProject ''demo'' ''token''),
        Fetch (GetDatabase ''demo'' ''token''), Fetch (PostListCollectionIds ''demo'' ''token'')] =
     ([Fetch (PostToken ''assertion''), Fetch (GetProject ''demo'' ''token''),
       Fetch (GetDatabase ''demo'' ''token''), Fetch (PostListCollectionIds ''demo'' ''token''),
       Fetch (GetKeys ''demo'' ''up@demo.iam.gserviceaccount.com'' ''token'')],
      Inr (JObj [(''name'', JStr ''keys/k1'')])) \<and>
   fst (validateServiceAccountComplete healthy demo_account []) =
     [Fetch (PostToken ''assertion''), Fetch (GetProject ''demo'' ''token''),
      Fetch (GetDatabase ''demo'' ''token''), Fetch (PostListCollectionIds ''demo'' ''token''),
      Fetch (GetKeys ''demo'' ''up@demo.iam.gserviceaccount.com'' ''token'')] \<and>
   valid (snd (validateServiceAccountComplete healthy demo_account [])) \<and>
   error_types (snd (validateServiceAccountComplete healthy demo_account [])) = [] \<and>
   get_property demo_account ''project_id'' = Inr (Some (JStr ''demo'')) \<and>
   template (Some (JStr ''demo'')) = Inr ''demo'' \<and>
   template (Some (JStr ''token'')) = Inr ''token'' \<and>
   is_valid (snd (validateFirebaseProject healthy demo_account (Some (JStr ''token'')) [])) \<and>
   \<not> valid (snd (validateServiceAccountComplete project_missing demo_account []))"
proof -
  have s0: "validateServiceAccountStructure JNull = Inl TypeError"
    by (simp add: validateServiceAccountStructure_def)
  have s1: "validateServiceAccountStructure (JObj []) =
      Inr \<lparr>missingFields = True, invalidType = True, invalidEmail = True,
           invalidPrivateKey = True\<rparr>"
    by (simp add: validateServiceAccountStructure_def required_fields_def)
  have s2: "\<not> structure_valid \<lparr>missingFields = True, invalidType = True, invalidEmail = True,
      invalidPrivateKey = True\<rparr>"
    by (simp add: structure_valid_def)
  have s3: "structure_valid \<lparr>missingFields = False, invalidType = False, invalidEmail = False,
      invalidPrivateKey = False\<rparr>"
    by (simp add: structure_valid_def)
  have t1: "getAccessToken unsigned demo_account [] = ([], Inl (Error ''bad key''))"
    by (simp add: getAccessToken_def unsigned_def obliging_def)
  have t2: "getAccessToken healthy demo_account [] =
      ([Fetch (PostToken ''assertion'')], Inr (Some (JStr ''token'')))"
    by (simp add: getAccessToken_def healthy_def obliging_def is_ok_def)
  have t3: "getAccessToken project_missing demo_account [] =
      ([Fetch (PostToken ''assertion'')], Inr (Some (JStr ''token'')))"
    by (simp add: getAccessToken_def project_missing_def obliging_def is_ok_def)
  have p0: "\<not> is_valid (snd (validateFirebaseProject project_missing demo_account
      (Some (JStr ''token'')) [Fetch (PostToken ''assertion'')]))"
    by (simp add: validateFirebaseProject_def demo_account_properties project_missing_def
        obliging_def is_ok_def template_def is_valid_def)
  have p1: "validateFirebaseProject healthy demo_account (Some (JStr ''token''))
       [Fetch (PostToken ''assertion'')] =
     ([Fetch (PostToken ''assertion''), Fetch (GetProject ''demo'' ''token'')],
      Inr (JObj [(''state'', JStr ''ACTIVE'')]))"
    by (simp add: validateFirebaseProject_def demo_account_properties healthy_def obliging_def
        is_ok_def template_def)
  have p2: "validateFirestoreAccess healthy demo_account (Some (JStr ''token''))
       [Fetch (PostToken ''assertion''), Fetch (GetProject ''demo'' ''token'')] =
     ([Fetch (PostToken ''assertion''), Fetch (GetProject ''demo'' ''token''),
       Fetch (GetDatabase ''demo'' ''token''), Fetch (PostListCollectionIds ''demo'' ''token'')],
      Inr True)"
    by (simp add: validateFirestoreAccess_def demo_account_properties healthy_def obliging_def
        is_ok_def template_def)
  have p3: "validateServiceAccountKey healthy demo_account (Some (JStr ''token''))
       [Fetch (PostToken ''assertion''), Fetch (GetProject ''demo'' ''token''),
        Fetch (GetDatabase ''demo'' ''token''), Fetch (PostListCollectionIds ''demo'' ''token'')] =
     ([Fetch (PostToken ''assertion''), Fetch (GetProject ''demo'' ''token''),
       Fetch (GetDatabase ''demo'' ''token''), Fetch (PostListCollectionIds ''demo'' ''token''),
       Fetch (GetKeys ''demo'' ''up@demo.iam.gserviceaccount.com'' ''token'')],
      Inr (JObj [(''name'', JStr ''keys/k1'')]))"
    by (simp add: validateServiceAccountKey_def demo_account_properties healthy_def obliging_def
        is_ok_def template_def current_key_def key_matches_def key_in_window_def date_less_def
        String_includes_def upt_rec)
  have q: "template (Some (JStr ''demo'')) = Inr ''demo''"
    "template (Some (JStr ''token'')) = Inr ''token''"
    by (simp_all add: template_def)
  have r: "respond healthy [] (GetProject ''demo'' ''token'') =
      Response 200 (Inr (JObj [(''state'', JStr ''ACTIVE'')]))"
    by (simp add: healthy_def obliging_def)
  note v = validation_stages
    [where ?s0.0 = JNull and ?e0.0 = TypeError and ?env0.0 = healthy and ?tr0.0 = "[]"
       and ?s1.0 = "JObj []"
       and ?errs1.0 = "\<lparr>missingFields = True, invalidType = True, invalidEmail = True,
          invalidPrivateKey = True\<rparr>"
       and ?env1.0 = healthy and ?tr1.0 = "[]"
       and ?s2.0 = demo_account
       and ?errs2.0 = "\<lparr>missingFields = False, invalidType = False, invalidEmail = False,
          invalidPrivateKey = False\<rparr>"
       and ?env2.0 = unsigned and ?tr2.0 = "[]" and ?tr2' = "[]" and ?e2.0 = "Error ''bad key''"
       and ?s3.0 = demo_account
       and ?errs3.0 = "\<lparr>missingFields = False, invalidType = False, invalidEmail = False,
          invalidPrivateKey = False\<rparr>"
       and ?env3.0 = healthy and ?tr3.0 = "[]" and ?t1.0 = "[Fetch (PostToken ''assertion'')]"
       and accessToken = "Some (JStr ''token'')"
       and ?t2.0 = "[Fetch (PostToken ''assertion''), Fetch (GetProject ''demo'' ''token'')]"
       and firebaseCheck = "Inr (JObj [(''state'', JStr ''ACTIVE'')])"
       and ?t3.0 = "[Fetch (PostToken ''assertion''), Fetch (GetProject ''demo'' ''token''),
          Fetch (GetDatabase ''demo'' ''token''), Fetch (PostListCollectionIds ''demo'' ''token'')]"
       and firestoreCheck = "Inr True"
       and ?t4.0 = "[Fetch (PostToken ''assertion''), Fetch (GetProject ''demo'' ''token''),
          Fetch (GetDatabase ''demo'' ''token''), Fetch (PostListCollectionIds ''demo'' ''token''),
          Fetch (GetKeys ''demo'' ''up@demo.iam.gserviceaccount.com'' ''token'')]"
       and keyCheck = "Inr (JObj [(''name'', JStr ''keys/k1'')])"
       and ?s4.0 = demo_account and pid = "Some (JStr ''demo'')" and project = "''demo''"
       and token = "Some (JStr ''token'')" and bearer = "''token''"
       and ?env4.0 = healthy and ?tr4.0 = "[]"
       and ?s5.0 = demo_account and ?env5.0 = project_missing and ?tr5.0 = "[]"]
  show ?thesis
    using v s0 s1 s2 s3 demo_account_structure t1 t2 t3 p0 p1 p2 p3 q r demo_account_properties(1)
    by (simp add: is_valid_def is_ok_def)
qed

end
